(* ===== verification/Go_Strings.thy ===== *)
theory Go_Strings
  imports Main "HOL-Library.Sublist"
begin

text \<open>
  Go strings as byte lists, and the operations of the packages \<open>strings\<close>, \<open>strconv\<close> and
  \<open>unicode/utf8\<close> that the program uses.  A Go string is a sequence of bytes, so it is a
  \<open>char list\<close> here (one \<open>char\<close> is one byte); Unicode-aware operations decode UTF-8
  explicitly.  Nothing in this theory models a file of the repository: these are the shared
  building blocks of the component theories.
\<close>

named_theorems go_str \<open>characteristic equations of the string operations\<close>

type_synonym bytes = "string"

subsection \<open>Prefixes, substrings, splitting\<close>

definition has_prefix :: "string \<Rightarrow> string \<Rightarrow> bool" where
  "has_prefix s p = (take (length p) s = p)"

definition trim_prefix :: "string \<Rightarrow> string \<Rightarrow> string" where
  "trim_prefix s p = (if has_prefix s p then drop (length p) s else s)"

definition has_suffix :: "string \<Rightarrow> string \<Rightarrow> bool" where
  "has_suffix s p = has_prefix (rev s) (rev p)"

definition trim_suffix :: "string \<Rightarrow> string \<Rightarrow> string" where
  "trim_suffix s p = (if has_suffix s p then take (length s - length p) s else s)"

text \<open>\<open>strings.Contains(s, sub)\<close>: some suffix of \<open>s\<close> starts with \<open>sub\<close>.\<close>

fun contains_str :: "string \<Rightarrow> string \<Rightarrow> bool" where
  "contains_str [] sub = (sub = [])"
| "contains_str (c # s) sub = (has_prefix (c # s) sub \<or> contains_str s sub)"

text \<open>\<open>strings.ContainsAny(s, chars)\<close> for ASCII \<open>chars\<close>.\<close>

definition contains_any :: "string \<Rightarrow> string \<Rightarrow> bool" where
  "contains_any s cs = list_ex (\<lambda>c. c \<in> set cs) s"

text \<open>\<open>strings.Split(s, c)\<close> for a one-byte separator: always at least one part.\<close>

fun split_on :: "char \<Rightarrow> string \<Rightarrow> string list" where
  "split_on c [] = [[]]"
| "split_on c (x # xs) =
     (if x = c then [] # split_on c xs
      else (case split_on c xs of [] \<Rightarrow> [[x]] | y # ys \<Rightarrow> (x # y) # ys))"

text \<open>\<open>strings.Join(parts, sep)\<close>.\<close>

fun join_with :: "string \<Rightarrow> string list \<Rightarrow> string" where
  "join_with sep [] = []"
| "join_with sep [x] = x"
| "join_with sep (x # y # ys) = x @ sep @ join_with sep (y # ys)"

text \<open>\<open>strings.IndexByte\<close>, with \<open>None\<close> for Go's \<open>-1\<close>.\<close>

fun index_byte :: "string \<Rightarrow> char \<Rightarrow> nat option" where
  "index_byte [] c = None"
| "index_byte (x # xs) c = (if x = c then Some 0 else map_option Suc (index_byte xs c))"

text \<open>\<open>strings.Index\<close> and \<open>strings.LastIndex\<close> of a substring.\<close>

fun index_str :: "string \<Rightarrow> string \<Rightarrow> nat option" where
  "index_str [] sub = (if sub = [] then Some 0 else None)"
| "index_str (x # xs) sub =
     (if has_prefix (x # xs) sub then Some 0 else map_option Suc (index_str xs sub))"

fun last_index_str :: "string \<Rightarrow> string \<Rightarrow> nat option" where
  "last_index_str [] sub = (if sub = [] then Some 0 else None)"
| "last_index_str (x # xs) sub =
     (case last_index_str xs sub of
        Some i \<Rightarrow> Some (Suc i)
      | None \<Rightarrow> if has_prefix (x # xs) sub then Some 0 else None)"

lemma index_byte_first: "c \<notin> set a \<Longrightarrow> index_byte (a @ c # b) c = Some (length a)"
  by (induction a) auto

lemma has_prefix_iff: "has_prefix s p \<longleftrightarrow> prefix p s"
  unfolding has_prefix_def by (metis append_eq_conv_conj prefix_def)

lemma has_prefix_Nil [simp]: "has_prefix s []"
  by (simp add: has_prefix_def)

lemma has_prefix_append [simp]: "has_prefix (p @ s) p"
  by (simp add: has_prefix_def)

lemma has_prefix_length: "has_prefix s p \<Longrightarrow> length p \<le> length s"
  by (auto simp: has_prefix_def dest: arg_cong [where f = length])

lemma trim_prefix_append [simp]: "trim_prefix (p @ s) p = s"
  by (simp add: trim_prefix_def)

lemma trim_prefix_length: "length (trim_prefix s p) \<le> length s"
  by (simp add: trim_prefix_def)

lemma contains_str_iff: "contains_str s sub \<longleftrightarrow> (\<exists>a b. s = a @ sub @ b)"
proof (induction s)
  case Nil
  then show ?case by auto
next
  case (Cons c s)
  show ?case
  proof
    assume "contains_str (c # s) sub"
    then consider "has_prefix (c # s) sub" | "contains_str s sub" by auto
    then show "\<exists>a b. c # s = a @ sub @ b"
    proof cases
      case 1
      then obtain b where "c # s = [] @ sub @ b" by (auto simp: has_prefix_iff prefix_def)
      then show ?thesis by blast
    next
      case 2
      with Cons obtain a b where "s = a @ sub @ b" by auto
      then have "c # s = (c # a) @ sub @ b" by simp
      then show ?thesis by blast
    qed
  next
    assume "\<exists>a b. c # s = a @ sub @ b"
    then obtain a b where eq: "c # s = a @ sub @ b" by blast
    show "contains_str (c # s) sub"
    proof (cases a)
      case Nil
      with eq have "has_prefix (c # s) sub" by (simp add: has_prefix_iff)
      then show ?thesis by simp
    next
      case (Cons x a')
      with eq have "s = a' @ sub @ b" by simp
      with Cons.IH show ?thesis by auto
    qed
  qed
qed

lemma split_on_ne [simp]: "split_on c s \<noteq> []"
  by (cases s) (auto split: list.splits)

lemma join_split [simp]: "join_with [c] (split_on c s) = s"
proof (induction s)
  case Nil
  show ?case by simp
next
  case (Cons x xs)
  obtain y ys where s: "split_on c xs = y # ys" by (cases "split_on c xs") auto
  with Cons show ?case by (cases ys) auto
qed

lemma split_on_free: "p \<in> set (split_on c s) \<Longrightarrow> c \<notin> set p"
proof (induction s arbitrary: p)
  case Nil
  then show ?case by simp
next
  case (Cons x xs)
  obtain y ys where s: "split_on c xs = y # ys" by (cases "split_on c xs") auto
  with Cons show ?case by (auto split: if_splits)
qed

lemma split_on_nosep: "c \<notin> set s \<Longrightarrow> split_on c s = [s]"
  by (induction s) auto

lemma split_on_append_sep: "split_on c (a @ c # b) = split_on c a @ split_on c b"
proof (induction a)
  case Nil
  show ?case by simp
next
  case (Cons x xs)
  obtain y ys where s: "split_on c xs = y # ys" by (cases "split_on c xs") auto
  with Cons show ?case by auto
qed

lemma split_join:
  assumes "ps \<noteq> []" and "\<And>p. p \<in> set ps \<Longrightarrow> c \<notin> set p"
  shows "split_on c (join_with [c] ps) = ps"
  using assms
proof (induction "[c]" ps rule: join_with.induct)
  case (3 x y ys)
  then have "split_on c (join_with [c] (y # ys)) = y # ys" and "c \<notin> set x" by auto
  then show ?case by (simp add: split_on_append_sep split_on_nosep)
qed (auto simp: split_on_nosep)

subsection \<open>White space: \<open>strings.TrimSpace\<close>\<close>

text \<open>
  \<open>unicode.IsSpace\<close> on UTF-8: the six ASCII spaces, U+0085, U+00A0, U+1680, U+2000 to U+200A,
  U+2028, U+2029, U+202F, U+205F and U+3000, each as its byte sequence.  A string's first
  (last) rune is one of them exactly when the string starts (ends) with the sequence.
\<close>

definition ascii_spaces :: string where
  "ascii_spaces = [CHR 0x09, CHR 0x0A, CHR 0x0B, CHR 0x0C, CHR 0x0D, CHR 0x20]"

definition space_seqs :: "string list" where
  "space_seqs = map (\<lambda>c. [c]) ascii_spaces @
     [[CHR 0xC2, CHR 0x85], [CHR 0xC2, CHR 0xA0], [CHR 0xE1, CHR 0x9A, CHR 0x80]] @
     map (\<lambda>c. [CHR 0xE2, CHR 0x80, c])
       [CHR 0x80, CHR 0x81, CHR 0x82, CHR 0x83, CHR 0x84, CHR 0x85, CHR 0x86, CHR 0x87,
        CHR 0x88, CHR 0x89, CHR 0x8A, CHR 0xA8, CHR 0xA9, CHR 0xAF] @
     [[CHR 0xE2, CHR 0x81, CHR 0x9F], [CHR 0xE3, CHR 0x80, CHR 0x80]]"

text \<open>Strip leading occurrences of the sequences of \<open>ws\<close>, one after the other.\<close>

function strip_left :: "string list \<Rightarrow> string \<Rightarrow> string" where
  "strip_left ws s =
     (case find (\<lambda>w. w \<noteq> [] \<and> has_prefix s w) ws of
        Some w \<Rightarrow> strip_left ws (drop (length w) s)
      | None \<Rightarrow> s)"
  by pat_completeness auto
termination
proof (relation "measure (\<lambda>(ws, s). length s)", goal_cases)
  case 1
  then show ?case by simp
next
  case (2 ws s w)
  then have w: "w \<noteq> [] \<and> has_prefix s w" by (auto simp: find_Some_iff)
  then have "length w \<le> length s" and "w \<noteq> []" by (auto dest: has_prefix_length)
  then show ?case by (cases w) auto
qed

declare strip_left.simps [simp del]

definition trim_space :: "string \<Rightarrow> string" where
  "trim_space s = rev (strip_left (map rev space_seqs) (rev (strip_left space_seqs s)))"

lemma strip_left_suffix: "\<exists>p. s = p @ strip_left ws s"
proof (induction ws s rule: strip_left.induct)
  case (1 ws s)
  show ?case
  proof (cases "find (\<lambda>w. w \<noteq> [] \<and> has_prefix s w) ws")
    case None
    then have "strip_left ws s = s" by (subst strip_left.simps) simp
    then show ?thesis by (metis append_Nil)
  next
    case (Some w)
    then have eq: "strip_left ws s = strip_left ws (drop (length w) s)"
      by (subst strip_left.simps) simp
    from 1 [OF Some] obtain p where "drop (length w) s = p @ strip_left ws (drop (length w) s)"
      by blast
    then have "s = (take (length w) s @ p) @ strip_left ws s"
      using eq by (metis append.assoc append_take_drop_id)
    then show ?thesis by blast
  qed
qed

lemma strip_left_fixed:
  "find (\<lambda>w. w \<noteq> [] \<and> has_prefix (strip_left ws s) w) ws = None"
proof (induction ws s rule: strip_left.induct)
  case (1 ws s)
  show ?case
  proof (cases "find (\<lambda>w. w \<noteq> [] \<and> has_prefix s w) ws")
    case None
    then have "strip_left ws s = s" by (subst strip_left.simps) simp
    with None show ?thesis by simp
  next
    case (Some w)
    then have eq: "strip_left ws s = strip_left ws (drop (length w) s)"
      by (subst strip_left.simps) simp
    with 1 [OF Some] show ?thesis by simp
  qed
qed

lemma strip_left_id: "find (\<lambda>w. w \<noteq> [] \<and> has_prefix s w) ws = None \<Longrightarrow> strip_left ws s = s"
  by (subst strip_left.simps) simp

lemma strip_left_idem [simp]: "strip_left ws (strip_left ws s) = strip_left ws s"
  by (rule strip_left_id [OF strip_left_fixed])

lemma trim_space_factor: "\<exists>a b. s = a @ trim_space s @ b"
proof -
  let ?l = "strip_left space_seqs s"
  obtain a where a: "s = a @ ?l" using strip_left_suffix by blast
  obtain b where b: "rev ?l = b @ strip_left (map rev space_seqs) (rev ?l)"
    using strip_left_suffix by blast
  then have "?l = trim_space s @ rev b"
    by (metis rev_append rev_rev_ident trim_space_def)
  with a have "s = a @ trim_space s @ rev b" by simp
  then show ?thesis by blast
qed

lemma trim_space_length: "length (trim_space s) \<le> length s"
  using trim_space_factor [of s] by (auto dest: arg_cong [where f = length])

lemma trim_space_subset: "set (trim_space s) \<subseteq> set s"
  using trim_space_factor [of s] by (metis Un_commute UnCI set_append subsetI)

lemma has_prefix_trans: "has_prefix t w \<Longrightarrow> has_prefix (t @ u) w"
  by (auto simp: has_prefix_iff)

lemma trim_space_idem [simp]: "trim_space (trim_space s) = trim_space s"
proof -
  let ?l = "strip_left space_seqs s"
  obtain b where b: "rev ?l = b @ strip_left (map rev space_seqs) (rev ?l)"
    using strip_left_suffix by blast
  then have l: "?l = trim_space s @ rev b"
    by (metis rev_append rev_rev_ident trim_space_def)
  have "find (\<lambda>w. w \<noteq> [] \<and> has_prefix ?l w) space_seqs = None" by (rule strip_left_fixed)
  then have "find (\<lambda>w. w \<noteq> [] \<and> has_prefix (trim_space s) w) space_seqs = None"
    unfolding find_None_iff using has_prefix_trans l by metis
  then have "strip_left space_seqs (trim_space s) = trim_space s" by (rule strip_left_id)
  then show ?thesis by (simp add: trim_space_def)
qed

lemma trim_space_Nil [simp]: "trim_space [] = []"
  by (simp add: trim_space_def strip_left.simps space_seqs_def ascii_spaces_def has_prefix_def)

text \<open>A printable ASCII character other than the space starts and ends no white space.\<close>

definition plain_char :: "char \<Rightarrow> bool" where
  "plain_char c = ((33 :: nat) \<le> of_char c \<and> of_char c \<le> (126 :: nat))"

lemma space_seqs_not_plain:
  "w \<in> set space_seqs \<Longrightarrow> w \<noteq> [] \<and> \<not> plain_char (hd w) \<and> \<not> plain_char (last w)"
  by (auto simp: space_seqs_def ascii_spaces_def plain_char_def)

lemma strip_left_plain:
  assumes "\<forall>w \<in> set ws. w \<noteq> [] \<longrightarrow> \<not> plain_char (hd w)" and "s = [] \<or> plain_char (hd s)"
  shows "strip_left ws s = s"
proof (rule strip_left_id)
  show "find (\<lambda>w. w \<noteq> [] \<and> has_prefix s w) ws = None"
    using assms by (fastforce simp: find_None_iff has_prefix_iff prefix_def)
qed

lemma trim_space_plain:
  assumes "plain_char (hd s)" and "plain_char (last s)"
  shows "trim_space s = s"
proof -
  have "strip_left space_seqs s = s"
    using assms space_seqs_not_plain by (intro strip_left_plain) auto
  moreover have "strip_left (map rev space_seqs) (rev s) = rev s"
    using assms space_seqs_not_plain by (intro strip_left_plain) (auto simp: hd_rev)
  ultimately show ?thesis by (simp add: trim_space_def)
qed

end
