(* ===== verification/Go_Utf8.thy ===== *)
theory Go_Utf8
  imports Go_Strings
begin

text \<open>
  UTF-8 as \<open>unicode/utf8\<close> decodes it (an invalid byte is one rune of width 1), ASCII-relevant
  lower-casing, and decimal printing.  Like \<open>Go_Strings\<close> this theory models the language's
  library, not a file of the repository.
\<close>

subsection \<open>Rune widths and rune counts\<close>

definition byte :: "char \<Rightarrow> nat" where
  "byte c = of_char c"

definition between :: "nat \<Rightarrow> nat \<Rightarrow> char \<Rightarrow> bool" where
  "between lo hi c = (lo \<le> byte c \<and> byte c \<le> hi)"

abbreviation is_cont :: "char \<Rightarrow> bool" where
  "is_cont \<equiv> between 128 191"

text \<open>
  The width of the first rune: the lead byte fixes the length and the range of the second byte,
  as in Go's \<open>first\<close> and \<open>acceptRanges\<close> tables; anything else is a \<open>RuneError\<close> of width 1.
\<close>

fun second_range :: "char \<Rightarrow> nat \<times> nat" where
  "second_range c =
     (if byte c = 224 then (160, 191) else if byte c = 237 then (128, 159)
      else if byte c = 240 then (144, 191) else if byte c = 244 then (128, 143)
      else (128, 191))"

definition rune_width :: "string \<Rightarrow> nat" where
  "rune_width s =
     (case s of
        [] \<Rightarrow> 0
      | a # t \<Rightarrow>
          let (lo, hi) = second_range a in
          if between 194 223 a then (case t of b # _ \<Rightarrow> if between lo hi b then 2 else 1 | [] \<Rightarrow> 1)
          else if between 224 239 a then
            (case t of b # c # _ \<Rightarrow> if between lo hi b \<and> is_cont c then 3 else 1 | _ \<Rightarrow> 1)
          else if between 240 244 a then
            (case t of b # c # d # _ \<Rightarrow> if between lo hi b \<and> is_cont c \<and> is_cont d then 4 else 1
             | _ \<Rightarrow> 1)
          else 1)"

lemma rune_width_bounds:
  "s \<noteq> [] \<Longrightarrow> 1 \<le> rune_width s" "rune_width s \<le> length s" "rune_width s \<le> 4"
  by (auto simp: rune_width_def Let_def split: list.splits prod.splits)

function rune_count :: "string \<Rightarrow> nat" where
  "rune_count s = (if s = [] then 0 else Suc (rune_count (drop (rune_width s) s)))"
  by pat_completeness auto
termination
  by (relation "measure length") (use rune_width_bounds(1) in \<open>fastforce+\<close>)

declare rune_count.simps [simp del]

lemma rune_count_Nil [simp]: "rune_count [] = 0"
  by (simp add: rune_count.simps)

lemma rune_count_le: "rune_count s \<le> length s"
proof (induction s rule: rune_count.induct)
  case (1 s)
  show ?case
  proof (cases "s = []")
    case False
    then have "rune_count s = Suc (rune_count (drop (rune_width s) s))"
      by (simp add: rune_count.simps [of s])
    with 1 [OF False] rune_width_bounds(1) [OF False] rune_width_bounds(2) [of s]
    show ?thesis by simp
  qed simp
qed

lemma length_le_rune_count: "length s \<le> 4 * rune_count s"
proof (induction s rule: rune_count.induct)
  case (1 s)
  show ?case
  proof (cases "s = []")
    case False
    then have "rune_count s = Suc (rune_count (drop (rune_width s) s))"
      by (simp add: rune_count.simps [of s])
    with 1 [OF False] rune_width_bounds(3) [of s] show ?thesis by simp
  qed simp
qed

lemma rune_count_ascii: "list_all (\<lambda>c. byte c < 128) s \<Longrightarrow> rune_count s = length s"
proof (induction s)
  case (Cons c s)
  then have "rune_width (c # s) = 1"
    by (auto simp: rune_width_def between_def split: list.splits)
  with Cons show ?case by (subst rune_count.simps) simp
qed simp

subsection \<open>Lower case: \<open>strings.ToLower\<close>\<close>

text \<open>
  Every use in the program compares the result with ASCII text or looks for ASCII letters in it.
  Outside ASCII exactly two runes lower to an ASCII letter, U+0130 and U+212A; every other
  non-ASCII rune lowers to a non-ASCII one, which no such use can tell from itself and which is
  left as it is here.
\<close>

definition lower_byte :: "char \<Rightarrow> char" where
  "lower_byte c = (if between 65 90 c then char_of (byte c + 32) else c)"

fun to_lower :: "string \<Rightarrow> string" where
  "to_lower (a # b # c # s) =
     (if a = CHR 0xC4 \<and> b = CHR 0xB0 then CHR ''i'' # to_lower (c # s)
      else if a = CHR 0xE2 \<and> b = CHR 0x84 \<and> c = CHR 0xAA then CHR ''k'' # to_lower s
      else lower_byte a # to_lower (b # c # s))"
| "to_lower [a, b] =
     (if a = CHR 0xC4 \<and> b = CHR 0xB0 then [CHR ''i''] else [lower_byte a, lower_byte b])"
| "to_lower [a] = [lower_byte a]"
| "to_lower [] = []"

subsection \<open>Decimal numbers\<close>

definition digit :: "nat \<Rightarrow> char" where
  "digit d = char_of (48 + d)"

fun show_nat :: "nat \<Rightarrow> string" where
  "show_nat n = (if n < 10 then [digit n] else show_nat (n div 10) @ [digit (n mod 10)])"

declare show_nat.simps [simp del]

text \<open>Reading the digits back; the inverse that makes \<open>show_nat\<close> injective.\<close>

definition read_nat :: "string \<Rightarrow> nat" where
  "read_nat s = foldl (\<lambda>n c. 10 * n + (byte c - 48)) 0 s"

lemma byte_digit: "d < 10 \<Longrightarrow> byte (digit d) = 48 + d"
  by (simp add: byte_def digit_def)

lemma read_show_nat [simp]: "read_nat (show_nat n) = n"
proof (induction n rule: show_nat.induct)
  case (1 n)
  show ?case
  proof (cases "n < 10")
    case True
    then show ?thesis by (simp add: show_nat.simps [of n] read_nat_def byte_digit)
  next
    case False
    with 1 have "read_nat (show_nat (n div 10)) = n div 10" by simp
    with False show ?thesis
      by (simp add: show_nat.simps [of n] read_nat_def byte_digit)
  qed
qed

lemma show_nat_inj: "show_nat m = show_nat n \<longleftrightarrow> m = n"
  by (metis read_show_nat)

lemma show_nat_digits: "c \<in> set (show_nat n) \<Longrightarrow> 48 \<le> byte c \<and> byte c \<le> 57"
proof (induction n rule: show_nat.induct)
  case (1 n)
  show ?case
  proof (cases "n < 10")
    case True
    with "1.prems" show ?thesis by (simp add: show_nat.simps [of n] byte_digit)
  next
    case False
    with 1 show ?thesis
      by (auto simp: show_nat.simps [of n] byte_digit)
  qed
qed

definition show_int :: "int \<Rightarrow> string" where
  "show_int i = (if i < 0 then CHR ''-'' # show_nat (nat (- i)) else show_nat (nat i))"

text \<open>\<open>strconv.Atoi\<close> on a 64-bit \<open>int\<close>: an optional sign, then digits only, in range.\<close>

definition atoi :: "string \<Rightarrow> int option" where
  "atoi s =
     (let neg = has_prefix s ''-''; ds = (if has_prefix s ''-'' \<or> has_prefix s ''+'' then tl s else s);
          v = int (read_nat ds)
      in if ds = [] \<or> \<not> list_all (between 48 57) ds then None
         else if neg then (if v \<le> 2 ^ 63 then Some (- v) else None)
         else if v < 2 ^ 63 then Some v else None)"

lemma show_nat_ne [simp]: "show_nat n \<noteq> []"
  by (subst show_nat.simps) simp

lemma atoi_show_nat: "n < 2 ^ 63 \<Longrightarrow> atoi (show_nat n) = Some (int n)"
proof -
  assume n: "n < 2 ^ 63"
  obtain c cs where s: "show_nat n = c # cs" by (cases "show_nat n") auto
  then have "48 \<le> byte c" using show_nat_digits [of c n] by simp
  then have "\<not> has_prefix (show_nat n) ''-''" and "\<not> has_prefix (show_nat n) ''+''"
    by (auto simp: s has_prefix_def byte_def)
  moreover have "list_all (between 48 57) (show_nat n)"
    by (auto simp: list_all_iff between_def dest: show_nat_digits)
  moreover have "int n < 2 ^ 63" using n by simp
  ultimately show ?thesis by (simp add: atoi_def)
qed

end
