(* ===== verification/Go_Path.thy ===== *)
theory Go_Path
  imports Go_Strings
begin

text \<open>
  The package \<open>path/filepath\<close> on Unix: lexical cleaning, joining, directory and base names.
  A path is handled as its list of segments between slashes; \<open>clean_segs\<close> is the loop of
  \<open>filepath.Clean\<close> over them, with the segments written so far as a stack.
\<close>

abbreviation slash :: char where
  "slash \<equiv> CHR ''/''"

abbreviation segs :: "string \<Rightarrow> string list" where
  "segs \<equiv> split_on slash"

abbreviation unsegs :: "string list \<Rightarrow> string" where
  "unsegs \<equiv> join_with [slash]"

definition is_abs :: "string \<Rightarrow> bool" where
  "is_abs p = has_prefix p [slash]"

fun clean_segs :: "bool \<Rightarrow> string list \<Rightarrow> string list \<Rightarrow> string list" where
  "clean_segs rooted st [] = rev st"
| "clean_segs rooted st (s # ss) =
     (if s = [] \<or> s = ''.'' then clean_segs rooted st ss
      else if s = ''..'' then
        (case st of
           [] \<Rightarrow> clean_segs rooted (if rooted then [] else [''..'']) ss
         | t # ts \<Rightarrow> if t = ''..'' then clean_segs rooted (''..'' # st) ss
                     else clean_segs rooted ts ss)
      else clean_segs rooted (s # st) ss)"

definition clean :: "string \<Rightarrow> string" where
  "clean p =
     (let out = clean_segs (is_abs p) [] (segs p) in
      if is_abs p then slash # unsegs out
      else if out = [] then ''.'' else unsegs out)"

definition path_join :: "string list \<Rightarrow> string" where
  "path_join ps =
     (let ne = filter (\<lambda>p. p \<noteq> []) ps in if ne = [] then [] else clean (unsegs ne))"

text \<open>\<open>filepath.Dir\<close>: everything before the last separator, cleaned.\<close>

definition path_dir :: "string \<Rightarrow> string" where
  "path_dir p =
     (let ss = segs p in
      if length ss = 1 then ''.''
      else clean (if butlast ss = [[]] then [slash] else unsegs (butlast ss)))"

text \<open>\<open>path.Base\<close>: the last non-empty segment.\<close>

definition path_base :: "string \<Rightarrow> string" where
  "path_base p =
     (if p = [] then ''.''
      else (case filter (\<lambda>s. s \<noteq> []) (segs p) of [] \<Rightarrow> [slash] | ss \<Rightarrow> last ss))"

subsection \<open>What cleaning guarantees\<close>

text \<open>An ordinary name: not empty, not a dot name, no separator.\<close>

definition plain_seg :: "string \<Rightarrow> bool" where
  "plain_seg s = (s \<noteq> [] \<and> s \<noteq> ''.'' \<and> s \<noteq> ''..'' \<and> slash \<notin> set s)"

definition dotdot :: "string list \<Rightarrow> bool" where
  "dotdot ss = list_all (\<lambda>s. s = ''..'') ss"

text \<open>A clean stack: ordinary names on top of parent references, none of these when rooted.\<close>

definition clean_stack :: "bool \<Rightarrow> string list \<Rightarrow> bool" where
  "clean_stack rooted st =
     (\<exists>ns ds. st = ns @ ds \<and> list_all plain_seg ns \<and> dotdot ds \<and> (rooted \<longrightarrow> ds = []))"

lemma plain_seg_dotdot [simp]: "\<not> plain_seg ''..''"
  by (simp add: plain_seg_def)

lemma clean_stack_Nil [simp]: "clean_stack r []"
  by (auto simp: clean_stack_def dotdot_def)

lemma clean_stack_push: "clean_stack r st \<Longrightarrow> plain_seg s \<Longrightarrow> clean_stack r (s # st)"
  unfolding clean_stack_def by (metis append_Cons list.pred_inject(2))

lemma clean_stack_pop:
  assumes "clean_stack r (t # ts)" and "t \<noteq> ''..''"
  shows "clean_stack r ts"
proof -
  obtain ns ds where d: "t # ts = ns @ ds" "list_all plain_seg ns" "dotdot ds" "r \<longrightarrow> ds = []"
    using assms(1) by (auto simp: clean_stack_def)
  with assms(2) show ?thesis
    by (cases ns) (auto simp: clean_stack_def dotdot_def)
qed

lemma clean_stack_up:
  assumes "clean_stack r (''..'' # ts)"
  shows "clean_stack r (''..'' # ''..'' # ts)" and "\<not> r"
proof -
  obtain ns ds where d: "''..'' # ts = ns @ ds" "list_all plain_seg ns" "dotdot ds" "r \<longrightarrow> ds = []"
    using assms by (auto simp: clean_stack_def)
  then have ns: "ns = []" by (cases ns) auto
  with d show nr: "\<not> r" by auto
  from ns d have "dotdot (''..'' # ''..'' # ts)" by (simp add: dotdot_def)
  with nr show "clean_stack r (''..'' # ''..'' # ts)"
    unfolding clean_stack_def by (metis append_Nil list.pred_inject(1))
qed

lemma clean_segs_stack:
  assumes "clean_stack r st" and "\<And>s. s \<in> set ss \<Longrightarrow> slash \<notin> set s"
  shows "\<exists>st'. clean_segs r st ss = rev st' \<and> clean_stack r st'"
  using assms
proof (induction r st ss rule: clean_segs.induct)
  case (1 r st)
  then show ?case by auto
next
  case (2 r st s ss)
  consider "s = [] \<or> s = ''.''" | "s = ''..''" | "plain_seg s"
    using "2.prems"(2) by (auto simp: plain_seg_def)
  then show ?case
  proof cases
    case 1
    with 2 show ?thesis by auto
  next
    case s: 2
    show ?thesis
    proof (cases st)
      case Nil
      have "clean_stack False [''..'']"
        unfolding clean_stack_def by (rule exI [of _ "[]"]) (simp add: dotdot_def)
      then have "clean_stack r (if r then [] else [''..''])" by auto
      with 2(2) [OF _ s Nil] "2.prems" s Nil show ?thesis by auto
    next
      case (Cons t ts)
      with 2 s show ?thesis
        by (auto dest: clean_stack_up(1) clean_stack_pop)
    qed
  next
    case 3
    then have "s \<noteq> [] \<and> s \<noteq> ''.'' \<and> s \<noteq> ''..''" by (auto simp: plain_seg_def)
    with 2 3 show ?thesis by (auto intro: clean_stack_push)
  qed
qed

lemma clean_segs_clean: "\<exists>st. clean_segs r [] (segs p) = rev st \<and> clean_stack r st"
  by (rule clean_segs_stack) (simp_all add: split_on_free)

text \<open>The segments of a cleaned relative path: parent references first, then ordinary names.\<close>

lemma clean_relative:
  assumes "\<not> is_abs p"
  shows "clean p = ''.'' \<or>
    (\<exists>ds ns. segs (clean p) = ds @ ns \<and> dotdot ds \<and> list_all plain_seg ns)"
proof -
  obtain st where st: "clean_segs False [] (segs p) = rev st" "clean_stack False st"
    using clean_segs_clean by blast
  then obtain ns ds where d: "st = ns @ ds" "list_all plain_seg ns" "dotdot ds"
    by (auto simp: clean_stack_def)
  show ?thesis
  proof (cases "st = []")
    case True
    with st assms show ?thesis by (simp add: clean_def)
  next
    case False
    have free: "slash \<notin> set s" if "s \<in> set (rev st)" for s
    proof -
      have "plain_seg s \<or> s = ''..''" using that d by (auto simp: list_all_iff dotdot_def)
      then show ?thesis by (auto simp: plain_seg_def)
    qed
    have "clean p = unsegs (rev st)" using st assms False by (simp add: clean_def)
    then have "segs (clean p) = rev st" using split_join [of "rev st" slash] free False by simp
    with d have "segs (clean p) = rev ds @ rev ns" "dotdot (rev ds)" "list_all plain_seg (rev ns)"
      by (auto simp: dotdot_def)
    then show ?thesis by blast
  qed
qed

lemma segs_ne [simp]: "segs p \<noteq> []"
  by simp

lemma is_abs_segs: "is_abs p \<longleftrightarrow> (\<exists>ss. segs p = [] # ss \<and> p \<noteq> [])"
  by (cases p) (auto simp: is_abs_def has_prefix_def split: list.splits)

lemma clean_not_abs: "\<not> is_abs p \<Longrightarrow> \<not> is_abs (clean p)"
proof -
  assume p: "\<not> is_abs p"
  show ?thesis
  proof (cases "clean p = ''.''")
    case True
    then show ?thesis by (simp add: is_abs_def has_prefix_def)
  next
    case False
    with clean_relative [OF p] obtain ds ns where
      d: "segs (clean p) = ds @ ns" "dotdot ds" "list_all plain_seg ns" by auto
    then have "hd (segs (clean p)) \<noteq> []"
      using segs_ne [of "clean p"] by (cases ds; cases ns) (auto simp: dotdot_def plain_seg_def)
    then show ?thesis by (auto simp: is_abs_segs)
  qed
qed

lemma clean_abs: "is_abs p \<Longrightarrow> is_abs (clean p)"
  by (simp add: clean_def Let_def) (simp add: is_abs_def has_prefix_def)

text \<open>
  The containment fact the sandbox rests on: a cleaned relative path that does not start with
  two dots has no parent reference at all.
\<close>

lemma has_prefix_hd_segs: "hd (segs p) = s \<Longrightarrow> has_prefix p s"
proof -
  assume s: "hd (segs p) = s"
  have "p = unsegs (segs p)" by simp
  also have "\<dots> = s @ (if tl (segs p) = [] then [] else slash # unsegs (tl (segs p)))"
    using s by (cases "segs p"; cases "tl (segs p)") auto
  finally show ?thesis by (metis has_prefix_append)
qed

lemma clean_contained:
  assumes "\<not> is_abs p" and "\<not> has_prefix (clean p) ''..''"
  shows "clean p = ''.'' \<or> list_all plain_seg (segs (clean p))"
proof (cases "clean p = ''.''")
  case False
  with clean_relative [OF assms(1)] obtain ds ns where
    d: "segs (clean p) = ds @ ns" "dotdot ds" "list_all plain_seg ns" by auto
  have "ds = []"
  proof (rule ccontr)
    assume "ds \<noteq> []"
    with d have "hd (segs (clean p)) = ''..''" by (cases ds) (auto simp: dotdot_def)
    then show False using assms(2) has_prefix_hd_segs by blast
  qed
  with d show ?thesis by simp
qed simp

subsection \<open>Joining below a clean root\<close>

lemma clean_segs_append_plain:
  assumes "list_all plain_seg ns"
  shows "clean_segs r st (ns @ ss) = clean_segs r (rev ns @ st) ss"
  using assms by (induction ns arbitrary: st) (auto simp: plain_seg_def)

lemma segs_abs: "segs (slash # p) = [] # segs p"
  by simp

lemma clean_abs_plain:
  assumes "list_all plain_seg ns" and "ns \<noteq> []"
  shows "clean (slash # unsegs ns) = slash # unsegs ns"
proof -
  have "segs (unsegs ns) = ns"
    using assms by (intro split_join) (auto simp: list_all_iff plain_seg_def)
  moreover have "clean_segs True [] ns = ns"
    using clean_segs_append_plain [OF assms(1), of True "[]" "[]"] by simp
  ultimately show ?thesis by (simp add: clean_def is_abs_def has_prefix_def)
qed

text \<open>
  Joining plain names onto an absolute root given by plain names: the result is the root's names
  followed by the new ones, so it lies strictly below the root.
\<close>

lemma join_with_append:
  "xs \<noteq> [] \<Longrightarrow> ys \<noteq> [] \<Longrightarrow> join_with sep (xs @ ys) = join_with sep xs @ sep @ join_with sep ys"
  by (induction sep xs rule: join_with.induct) (auto simp: neq_Nil_conv)

lemma path_join_below:
  assumes r: "list_all plain_seg rs" "rs \<noteq> []" and n: "list_all plain_seg ns" "ns \<noteq> []"
  shows "path_join [slash # unsegs rs, unsegs ns] = slash # unsegs (rs @ ns)"
proof -
  have ne: "unsegs ns \<noteq> []"
    using n by (cases ns; cases "tl ns") (auto simp: plain_seg_def)
  have "path_join [slash # unsegs rs, unsegs ns] = clean (slash # unsegs (rs @ ns))"
    using r n ne by (simp add: path_join_def join_with_append)
  also have "\<dots> = slash # unsegs (rs @ ns)"
    using r n by (intro clean_abs_plain) auto
  finally show ?thesis .
qed

end
