(* ===== verification/Rojo_Prelude.thy ===== *)
theory Rojo_Prelude
  imports Go_Utf8 Go_Path "HOL-Library.AList"
begin

text \<open>
  What every component of the model shares: Go error values with \<open>errors.Is\<close>, results,
  outcomes that may be a panic, event payloads, instants of time, and the development's
  collections of facts.
\<close>

named_theorems op_simps \<open>the equations of the components' operations on their usual branches\<close>
named_theorems inv_intros \<open>preservation lemmas of the components' invariants\<close>

subsection \<open>Error values\<close>

text \<open>The package-level error variables (\<open>errors.New\<close>) of the program and of \<open>context\<close>.\<close>

datatype sentinel =
    ErrJobNotFound | ErrJobAlreadyExists | ErrInvalidJobID
  | ErrTaskRequired | ErrTaskTooShort | ErrTaskTooLong
  | ErrRepoPathMissing | ErrRepoPathRelative | ErrRepoPathTooLong | ErrNullByte
  | ErrQueueFull | ErrJobNotRunning | ErrPanic | ErrMaxRevisionsExceeded
  | ErrCommandNotAllowed | ErrTimeout | ErrNoChecks
  | ErrPathEscape | ErrProtected | ErrTooManyOps | ErrOpTooLarge | ErrEmptyPath | ErrInvalidOp
  | ErrRepoNotFound | ErrNotAGitRepo | ErrPathTraversal | ErrWorktreeNotFound
  | ErrNoOperations | ErrInvalidOperations | ErrEmptyPlan | ErrInvalidPlan | ErrInvalidDecision
  | ErrNoTextContent | ErrTruncated
  | ErrNotExist | ErrInvalidArg | CtxCanceled | CtxDeadlineExceeded

text \<open>
  An error is a sentinel, a formatted error, or \<open>errors.Join\<close> of several.  The text of a
  formatted error is kept unrendered, as its format and arguments; \<open>FW e\<close> is an argument of a
  \<open>%w\<close> verb, which \<open>errors.Is\<close> looks through, \<open>FV e\<close> one of a \<open>%v\<close> or \<open>%s\<close> verb, which it does
  not; \<open>FStr\<close>, \<open>FQ\<close> and \<open>FInt\<close> are string, quoted-string and integer arguments.
\<close>

datatype go_err =
    Sentinel sentinel
  | Errorf string "fmt_arg list"
  | Joined "go_err list"
and fmt_arg = FW go_err | FV go_err | FStr string | FQ string | FInt int

fun err_is :: "go_err \<Rightarrow> sentinel \<Rightarrow> bool"
and arg_is :: "fmt_arg \<Rightarrow> sentinel \<Rightarrow> bool" where
  "err_is (Sentinel a) s = (a = s)"
| "err_is (Errorf f as) s = list_ex (\<lambda>a. arg_is a s) as"
| "err_is (Joined es) s = list_ex (\<lambda>e. err_is e s) es"
| "arg_is (FW e) s = err_is e s"
| "arg_is (FV e) s = False"
| "arg_is (FStr t) s = False"
| "arg_is (FQ t) s = False"
| "arg_is (FInt i) s = False"

text \<open>The values present in a list of optional ones, in order.\<close>

fun somes :: "'a option list \<Rightarrow> 'a list" where
  "somes [] = []"
| "somes (None # xs) = somes xs"
| "somes (Some x # xs) = x # somes xs"

lemma set_somes [simp]: "x \<in> set (somes xs) \<longleftrightarrow> Some x \<in> set xs"
  by (induction xs rule: somes.induct) auto

lemma somes_empty: "somes xs = [] \<longleftrightarrow> set xs \<subseteq> {None}"
  by (induction xs rule: somes.induct) auto

text \<open>\<open>errors.Join\<close>: the non-nil errors, or nil when there is none.\<close>

definition join_errs :: "go_err option list \<Rightarrow> go_err option" where
  "join_errs es =
     (case somes es of [] \<Rightarrow> None | xs \<Rightarrow> Some (Joined xs))"

text \<open>A Go function's \<open>(value, error)\<close> pair where only one of the two is meaningful.\<close>

type_synonym 'a result = "go_err + 'a"

text \<open>What a call may do: return normally, or panic with a value that prints as the string.\<close>

datatype 'a outcome = Return 'a | Panic string

subsection \<open>Payloads and time\<close>

text \<open>
  The \<open>map[string]any\<close> payload of an event, as far as the program builds one; \<open>JErr e\<close> is the
  text of the error \<open>e\<close>.
\<close>

datatype json =
    JStr string | JInt int | JBool bool | JErr go_err
  | JList "json list" | JObj "(string \<times> json) list"

abbreviation JStrs :: "string list \<Rightarrow> json" where
  "JStrs xs \<equiv> JList (map JStr xs)"

text \<open>
  Instants are nanoseconds since Go's zero time, so \<open>IsZero\<close> is \<open>t = 0\<close>; durations are
  differences in nanoseconds.
\<close>

type_synonym time = int
type_synonym duration = int

abbreviation is_zero_time :: "time \<Rightarrow> bool" where
  "is_zero_time t \<equiv> t = 0"

definition second :: duration where
  "second = 1000000000"

definition minute :: duration where
  "minute = 60 * second"

text \<open>\<open>Duration.Milliseconds\<close>: division truncating towards zero.\<close>

definition milliseconds :: "duration \<Rightarrow> int" where
  "milliseconds d = sgn d * (\<bar>d\<bar> div 1000000)"

subsection \<open>Lists as association maps\<close>

text \<open>
  A Go map whose entries are looked up and replaced by key is an association list with distinct
  keys; \<open>aput\<close> replaces an entry in place or adds a new one, \<open>adel\<close> removes one.
\<close>

type_synonym ('k, 'v) amap = "('k \<times> 'v) list"

abbreviation aget :: "('k, 'v) amap \<Rightarrow> 'k \<Rightarrow> 'v option" where
  "aget m k \<equiv> map_of m k"

abbreviation aput :: "'k \<Rightarrow> 'v \<Rightarrow> ('k, 'v) amap \<Rightarrow> ('k, 'v) amap" where
  "aput k v m \<equiv> AList.update k v m"

abbreviation adel :: "'k \<Rightarrow> ('k, 'v) amap \<Rightarrow> ('k, 'v) amap" where
  "adel k m \<equiv> AList.delete k m"

abbreviation akeys :: "('k, 'v) amap \<Rightarrow> 'k list" where
  "akeys m \<equiv> map fst m"

definition avalid :: "('k, 'v) amap \<Rightarrow> bool" where
  "avalid m = distinct (akeys m)"

lemma aget_aput [simp]: "aget (aput k v m) = (aget m)(k \<mapsto> v)"
  by (rule update_conv')

lemma aget_adel [simp]: "aget (adel k m) = (aget m)(k := None)"
  by (rule delete_conv')

lemma avalid_Nil [simp]: "avalid []"
  by (simp add: avalid_def)

lemma avalid_aput [simp]: "avalid m \<Longrightarrow> avalid (aput k v m)"
  by (simp add: avalid_def distinct_update)

lemma avalid_adel [simp]: "avalid m \<Longrightarrow> avalid (adel k m)"
  by (simp add: avalid_def distinct_delete)

lemma akeys_aput_present: "k \<in> set (akeys m) \<Longrightarrow> akeys (aput k v m) = akeys m"
  by (simp add: update_keys)

lemma avalid_aget: "avalid m \<Longrightarrow> (k, v) \<in> set m \<longleftrightarrow> aget m k = Some v"
  by (simp add: avalid_def)

text \<open>The values of a map with distinct keys are exactly what lookups return.\<close>

lemma avalid_values: "avalid m \<Longrightarrow> snd ` set m = ran (aget m)"
  by (force simp: avalid_def ran_def)

end
