(* ===== verification/Error_Text.thy ===== *)
theory Error_Text
  imports Rojo_Prelude
begin

text \<open>
  \<open>Error()\<close>: the text of an error value, rendered from its format and arguments.  It matters where
  the program puts an error's text into data: a check's output, the feedback for a revision, the
  payload of an event.
\<close>

fun sentinel_text :: "sentinel \<Rightarrow> string" where
  "sentinel_text ErrJobNotFound = ''job not found''"
| "sentinel_text ErrJobAlreadyExists = ''job already exists''"
| "sentinel_text ErrInvalidJobID = ''invalid job id''"
| "sentinel_text ErrTaskRequired = ''task is required''"
| "sentinel_text ErrTaskTooShort = ''task is too short''"
| "sentinel_text ErrTaskTooLong = ''task exceeds maximum length''"
| "sentinel_text ErrRepoPathMissing = ''repo_path is required''"
| "sentinel_text ErrRepoPathRelative = ''repo_path must be an absolute path''"
| "sentinel_text ErrRepoPathTooLong = ''repo_path exceeds maximum length''"
| "sentinel_text ErrNullByte = ''field contains a NUL byte''"
| "sentinel_text ErrQueueFull = ''queue is full''"
| "sentinel_text ErrJobNotRunning = ''job is not currently running''"
| "sentinel_text ErrPanic = ''panic while processing job''"
| "sentinel_text ErrMaxRevisionsExceeded = ''max revisions exceeded''"
| "sentinel_text ErrCommandNotAllowed = ''command not in allowlist''"
| "sentinel_text ErrTimeout = ''command timed out''"
| "sentinel_text ErrNoChecks = ''no verification checks configured''"
| "sentinel_text ErrPathEscape = ''path escapes workspace''"
| "sentinel_text ErrProtected = ''path is protected''"
| "sentinel_text ErrTooManyOps = ''too many operations in one attempt''"
| "sentinel_text ErrOpTooLarge = ''operation exceeds max size''"
| "sentinel_text ErrEmptyPath = ''path is empty''"
| "sentinel_text ErrInvalidOp = ''invalid operation kind''"
| "sentinel_text ErrRepoNotFound = ''repository path does not exist''"
| "sentinel_text ErrNotAGitRepo = ''path is not a git repository''"
| "sentinel_text ErrPathTraversal = ''path escapes repository root''"
| "sentinel_text ErrWorktreeNotFound = ''worktree not found''"
| "sentinel_text ErrNoOperations = ''implementor proposed no operations''"
| "sentinel_text ErrInvalidOperations = ''implementor returned invalid operations''"
| "sentinel_text ErrEmptyPlan = ''planner returned empty plan''"
| "sentinel_text ErrInvalidPlan = ''planner returned invalid plan''"
| "sentinel_text ErrInvalidDecision = ''reviewer returned invalid decision''"
| "sentinel_text ErrNoTextContent = ''model returned no text content''"
| "sentinel_text ErrTruncated = ''model output was cut off at the token limit''"
| "sentinel_text ErrNotExist = ''file does not exist''"
| "sentinel_text ErrInvalidArg = ''invalid argument''"
| "sentinel_text CtxCanceled = ''context canceled''"
| "sentinel_text CtxDeadlineExceeded = ''context deadline exceeded''"

definition hex_digit :: "nat \<Rightarrow> char" where
  "hex_digit n = (if n < 10 then digit n else char_of (87 + n))"

text \<open>\<open>%q\<close>: ASCII as \<open>strconv.Quote\<close> writes it; bytes of non-ASCII runes are taken as printable.\<close>

definition quote_char :: "char \<Rightarrow> string" where
  "quote_char c =
     (if c = CHR 0x22 then [CHR 0x5C, CHR 0x22]
      else if c = CHR 0x5C then [CHR 0x5C, CHR 0x5C]
      else if c = CHR 0x07 then CHR 0x5C # ''a''
      else if c = CHR 0x08 then CHR 0x5C # ''b''
      else if c = CHR 0x0C then CHR 0x5C # ''f''
      else if c = CHR 0x0A then CHR 0x5C # ''n''
      else if c = CHR 0x0D then CHR 0x5C # ''r''
      else if c = CHR 0x09 then CHR 0x5C # ''t''
      else if c = CHR 0x0B then CHR 0x5C # ''v''
      else if byte c < 32 \<or> byte c = 127
        then CHR 0x5C # CHR ''x'' # [hex_digit (byte c div 16), hex_digit (byte c mod 16)]
      else [c])"

definition quote :: "string \<Rightarrow> string" where
  "quote s = CHR 0x22 # concat (map quote_char s) @ [CHR 0x22]"

text \<open>Every \<open>%\<close> in the program's formats starts a one-letter verb that takes the next argument.\<close>

fun sprintf :: "string \<Rightarrow> string list \<Rightarrow> string" where
  "sprintf [] as = []"
| "sprintf [c] as = [c]"
| "sprintf (c # v # f) as =
     (if c = CHR ''%'' then
        (case as of a # as' \<Rightarrow> a @ sprintf f as' | [] \<Rightarrow> ''%!'' @ v # ''(MISSING)'' @ sprintf f [])
      else c # sprintf (v # f) as)"

fun err_text :: "go_err \<Rightarrow> string"
and arg_text :: "fmt_arg \<Rightarrow> string" where
  "err_text (Sentinel s) = sentinel_text s"
| "err_text (Errorf f as) = sprintf f (map arg_text as)"
| "err_text (Joined es) = join_with [CHR 0x0A] (map err_text es)"
| "arg_text (FW e) = err_text e"
| "arg_text (FV e) = err_text e"
| "arg_text (FStr s) = s"
| "arg_text (FQ s) = quote s"
| "arg_text (FInt i) = show_int i"

text \<open>Wrapping an error keeps both what \<open>errors.Is\<close> finds and the wrapped text.\<close>

lemma err_text_wrap: "err_text (Errorf ''%w'' [FW e]) = err_text e"
  by simp

subsection \<open>Durations: \<open>time.Duration.String\<close>\<close>

text \<open>
  The last \<open>n\<close> decimal digits of \<open>v\<close>, and the fraction they stand for: its point and its digits
  without the trailing zeros, or nothing when all are zero.
\<close>

fun last_digits :: "nat \<Rightarrow> int \<Rightarrow> string" where
  "last_digits 0 v = []"
| "last_digits (Suc n) v = last_digits n (v div 10) @ [digit (nat (v mod 10))]"

definition show_fraction :: "nat \<Rightarrow> int \<Rightarrow> string" where
  "show_fraction n v =
     (let kept = rev (dropWhile (\<lambda>c. c = CHR ''0'') (rev (last_digits n v)))
      in if kept = [] then [] else CHR ''.'' # kept)"

definition show_magnitude :: "int \<Rightarrow> string" where
  "show_magnitude u =
     (if u < 1000 then show_int u @ ''ns''
      else if u < 1000000 then show_int (u div 1000) @ show_fraction 3 u @ [CHR 0xC2, CHR 0xB5, CHR ''s'']
      else if u < 1000000000 then show_int (u div 1000000) @ show_fraction 6 u @ ''ms''
      else
        let secs = u div 1000000000; mins = secs div 60; hours = mins div 60;
            tail = show_int (secs mod 60) @ show_fraction 9 u @ ''s''
        in if mins = 0 then tail
           else if hours = 0 then show_int (mins mod 60) @ ''m'' @ tail
           else show_int hours @ ''h'' @ show_int (mins mod 60) @ ''m'' @ tail)"

definition show_duration :: "duration \<Rightarrow> string" where
  "show_duration d =
     (if d = 0 then ''0s'' else if d < 0 then CHR ''-'' # show_magnitude (- d) else show_magnitude d)"

end
