(* ===== verification/Implementor.thy ===== *)
theory Implementor
  imports Error_Text
begin

text \<open>
  \<open>internal/agents/implementor/implementor.go\<close>: applying a model's file operations to a worktree.
  The filesystem maps absolute paths, as lists of segments, to directories, regular files and
  symbolic links.  The operations of \<open>os.Root\<close> are modelled as the standard library documents
  them: a path is resolved one segment at a time below the root, links are followed as long as
  they stay below it, and anything that would leave it is refused.  Every call may also fail for
  reasons of its own, as the \<open>root_env\<close> says.
\<close>

subsection \<open>The filesystem and \<open>os.Root\<close>\<close>

datatype node = Dir | Reg string | Link string

type_synonym tree = "(string list, node) amap"

datatype root_call = RootOpen | RootMkdirAll | RootWriteFile | RootOpenFile | RootWriteString | RootRemove

record root_env =
  re_fail :: "root_call \<Rightarrow> string \<Rightarrow> go_err option"
  re_wrote :: nat

definition steady_root :: root_env where
  "steady_root = \<lparr>re_fail = (\<lambda>_ _. None), re_wrote = 0\<rparr>"

definition escapes_err :: go_err where
  "escapes_err = Errorf ''path escapes from parent'' []"

definition max_links :: nat where
  "max_links = 255"

text \<open>
  \<open>resolve n t root cur ss\<close>: \<open>cur\<close> is the directory below \<open>root\<close> reached so far, \<open>ss\<close> the segments
  to go and \<open>n\<close> the number of links that may still be followed.  The result is the place, below the
  root, of the file the path names, which need not exist.
\<close>

function resolve :: "nat \<Rightarrow> tree \<Rightarrow> string list \<Rightarrow> string list \<Rightarrow> string list \<Rightarrow> string list result" where
  "resolve n t root cur [] = Inr cur"
| "resolve n t root cur (s # ss) =
     (if s = [] \<or> s = ''.'' then resolve n t root cur ss
      else if s = ''..'' then
        (if cur = [] then Inl escapes_err else resolve n t root (butlast cur) ss)
      else case aget t (root @ cur @ [s]) of
        None \<Rightarrow> if ss = [] then Inr (cur @ [s]) else Inl (Sentinel ErrNotExist)
      | Some Dir \<Rightarrow> resolve n t root (cur @ [s]) ss
      | Some (Reg c) \<Rightarrow> if ss = [] then Inr (cur @ [s]) else Inl (Errorf ''not a directory'' [])
      | Some (Link tgt) \<Rightarrow>
          if n = 0 then Inl (Errorf ''too many levels of symbolic links'' [])
          else if is_abs tgt then Inl escapes_err
          else resolve (n - 1) t root cur (segs tgt @ ss))"
  by pat_completeness auto
termination
  by (relation "measures [\<lambda>(n, t, root, cur, ss). n, \<lambda>(n, t, root, cur, ss). length ss]") auto

definition root_put :: "tree \<Rightarrow> string list \<Rightarrow> string list \<Rightarrow> string \<Rightarrow> tree" where
  "root_put t root rel c = aput (root @ rel) (Reg c) t"

definition root_mkdir :: "tree \<Rightarrow> string list \<Rightarrow> string list \<Rightarrow> tree result" where
  "root_mkdir t root ss =
     (case resolve max_links t root [] ss of
        Inl e \<Rightarrow> Inl e
      | Inr rel \<Rightarrow>
          if rel = [] then Inr t
          else (case aget t (root @ rel) of
             None \<Rightarrow> Inr (aput (root @ rel) Dir t)
           | Some Dir \<Rightarrow> Inr t
           | Some _ \<Rightarrow> Inl (Errorf ''not a directory'' [])))"

text \<open>\<open>Root.MkdirAll\<close>: one directory after the other along the path.\<close>

fun mkdir_prefixes :: "tree \<Rightarrow> string list \<Rightarrow> string list \<Rightarrow> string list \<Rightarrow> tree \<times> go_err option" where
  "mkdir_prefixes t root pre [] = (t, None)"
| "mkdir_prefixes t root pre (s # ss) =
     (case root_mkdir t root (pre @ [s]) of
        Inl e \<Rightarrow> (t, Some e)
      | Inr t' \<Rightarrow> mkdir_prefixes t' root (pre @ [s]) ss)"

definition root_mkdir_all :: "root_env \<Rightarrow> string list \<Rightarrow> string \<Rightarrow> tree \<Rightarrow> tree \<times> go_err option" where
  "root_mkdir_all env root dir t =
     (case re_fail env RootMkdirAll dir of
        Some e \<Rightarrow> (t, Some e)
      | None \<Rightarrow> mkdir_prefixes t root [] (segs dir))"

definition root_write_file :: "root_env \<Rightarrow> string list \<Rightarrow> string \<Rightarrow> string \<Rightarrow> tree \<Rightarrow> tree \<times> go_err option" where
  "root_write_file env root rel c t =
     (case resolve max_links t root [] (segs rel) of
        Inl e \<Rightarrow> (t, Some e)
      | Inr p \<Rightarrow>
          if p = [] \<or> aget t (root @ p) = Some Dir then (t, Some (Errorf ''is a directory'' []))
          else (case re_fail env RootOpenFile rel of
             Some e \<Rightarrow> (t, Some e)
           | None \<Rightarrow>
               (case re_fail env RootWriteFile rel of
                  Some e \<Rightarrow> (root_put t root p (take (re_wrote env) c), Some e)
                | None \<Rightarrow> (root_put t root p c, None))))"

text \<open>
  \<open>Root.OpenFile\<close> with \<open>O_APPEND|O_CREATE|O_WRONLY\<close>: the place of the file, created if missing.
\<close>

definition root_open_append :: "root_env \<Rightarrow> string list \<Rightarrow> string \<Rightarrow> tree \<Rightarrow> tree \<times> string list result" where
  "root_open_append env root rel t =
     (case resolve max_links t root [] (segs rel) of
        Inl e \<Rightarrow> (t, Inl e)
      | Inr p \<Rightarrow>
          if p = [] \<or> aget t (root @ p) = Some Dir then (t, Inl (Errorf ''is a directory'' []))
          else (case re_fail env RootOpenFile rel of
             Some e \<Rightarrow> (t, Inl e)
           | None \<Rightarrow>
               (case aget t (root @ p) of
                  None \<Rightarrow> (root_put t root p [], Inr p)
                | Some _ \<Rightarrow> (t, Inr p))))"

definition contents :: "tree \<Rightarrow> string list \<Rightarrow> string" where
  "contents t p = (case aget t p of Some (Reg c) \<Rightarrow> c | _ \<Rightarrow> [])"

text \<open>\<open>Root.Remove\<close> resolves the parent, removes the name itself and never follows it.\<close>

definition root_remove :: "root_env \<Rightarrow> string list \<Rightarrow> string \<Rightarrow> tree \<Rightarrow> tree \<times> go_err option" where
  "root_remove env root rel t =
     (if last (segs rel) \<in> {[], ''.'', ''..''} then (t, Some (Sentinel ErrInvalidArg))
      else case resolve max_links t root [] (butlast (segs rel)) of
        Inl e \<Rightarrow> (t, Some e)
      | Inr d \<Rightarrow>
          let p = root @ d @ [last (segs rel)] in
          case re_fail env RootRemove rel of
            Some e \<Rightarrow> (t, Some e)
          | None \<Rightarrow>
              (case aget t p of
                 None \<Rightarrow> (t, Some (Sentinel ErrNotExist))
               | Some Dir \<Rightarrow>
                   if list_ex (\<lambda>q. q \<noteq> p \<and> take (length p) q = p) (akeys t)
                   then (t, Some (Errorf ''directory not empty'' [])) else (adel p t, None)
               | Some _ \<Rightarrow> (adel p t, None)))"

subsection \<open>Operations and the policy on paths\<close>

record operation =
  op_kind :: string
  op_path :: string
  op_content :: string

definition op_write :: string where
  "op_write = ''write''"

definition op_append :: string where
  "op_append = ''append''"

definition op_delete :: string where
  "op_delete = ''delete''"

definition max_ops_per_attempt :: nat where
  "max_ops_per_attempt = 50"

definition max_op_size_bytes :: int where
  "max_op_size_bytes = 1048576"

definition protected_paths :: "string list" where
  "protected_paths = [''.git'', ''.env'']"

definition protected_seg :: "string \<Rightarrow> bool" where
  "protected_seg s =
     list_ex (\<lambda>p. to_lower s = p \<or> has_prefix (to_lower s) (p @ ''.'')) protected_paths"

definition check_protected :: "string \<Rightarrow> go_err option" where
  "check_protected cleaned =
     (if list_ex protected_seg (segs cleaned)
      then Some (Errorf ''%w: %s'' [FW (Sentinel ErrProtected), FStr cleaned]) else None)"

definition resolve_path :: "string \<Rightarrow> string result" where
  "resolve_path rel =
     (if trim_space rel = [] then Inl (Sentinel ErrEmptyPath)
      else if CHR 0x00 \<in> set rel
        then Inl (Errorf ''%w: path contains a NUL byte'' [FW (Sentinel ErrPathEscape)])
      else let cleaned = clean rel in
        if has_prefix cleaned ''..'' \<or> is_abs cleaned then Inl (Sentinel ErrPathEscape)
        else case check_protected cleaned of Some e \<Rightarrow> Inl e | None \<Rightarrow> Inr cleaned)"

definition is_insecure_path :: "go_err \<Rightarrow> bool" where
  "is_insecure_path e = contains_str (err_text e) ''escapes from parent''"

definition escape_err :: "go_err \<Rightarrow> go_err" where
  "escape_err e =
     (if err_is e ErrInvalidArg \<or> is_insecure_path e
      then Errorf ''%w: %v'' [FW (Sentinel ErrPathEscape), FV e] else e)"

subsection \<open>\<open>Apply\<close>\<close>

definition apply_one :: "root_env \<Rightarrow> string list \<Rightarrow> operation \<Rightarrow> tree \<Rightarrow> tree \<times> go_err option" where
  "apply_one env root op1 t =
     (case resolve_path (op_path op1) of
        Inl e \<Rightarrow> (t, Some e)
      | Inr rel \<Rightarrow>
          if int (length (op_content op1)) > max_op_size_bytes then (t, Some (Sentinel ErrOpTooLarge))
          else if op_kind op1 = op_write then
            (let dir = path_dir rel;
                 (t1, e1) = (if dir \<noteq> ''.'' then root_mkdir_all env root dir t else (t, None))
             in case e1 of
                  Some e \<Rightarrow> (t1, Some (escape_err e))
                | None \<Rightarrow>
                    (case root_write_file env root rel (op_content op1) t1 of
                       (t2, e2) \<Rightarrow> (t2, map_option escape_err e2)))
          else if op_kind op1 = op_append then
            (case root_open_append env root rel t of
               (t1, Inl e) \<Rightarrow> (t1, Some (escape_err e))
             | (t1, Inr p) \<Rightarrow>
                 (case re_fail env RootWriteString rel of
                    Some e \<Rightarrow> (root_put t1 root p
                        (contents t1 (root @ p) @ take (re_wrote env) (op_content op1)), Some e)
                  | None \<Rightarrow> (root_put t1 root p (contents t1 (root @ p) @ op_content op1), None)))
          else if op_kind op1 = op_delete then
            (case root_remove env root rel t of
               (t1, Some e) \<Rightarrow> (t1, if err_is e ErrNotExist then None else Some (escape_err e))
             | (t1, None) \<Rightarrow> (t1, None))
          else (t, Some (Errorf ''%w: %q'' [FW (Sentinel ErrInvalidOp), FQ (op_kind op1)])))"

fun apply_from :: "root_env \<Rightarrow> string list \<Rightarrow> nat \<Rightarrow> operation list \<Rightarrow> tree \<Rightarrow> tree \<times> go_err option" where
  "apply_from env root i [] t = (t, None)"
| "apply_from env root i (op1 # ops) t =
     (case apply_one env root op1 t of
        (t1, Some e) \<Rightarrow>
          (t1, Some (Errorf ''op %d (%s %s): %w'' [FInt (int i), FStr (op_kind op1), FStr (op_path op1), FW e]))
      | (t1, None) \<Rightarrow> apply_from env root (Suc i) ops t1)"

text \<open>The segments of an absolute workspace path.\<close>

definition root_segs :: "string \<Rightarrow> string list" where
  "root_segs ws = filter (\<lambda>s. s \<noteq> []) (segs (clean ws))"

definition apply_ops :: "root_env \<Rightarrow> string \<Rightarrow> operation list \<Rightarrow> tree \<Rightarrow> tree \<times> go_err option" where
  "apply_ops env ws ops t =
     (if ops = [] then (t, None)
      else if length ops > max_ops_per_attempt
        then (t, Some (Errorf ''%w: %d ops (max %d)'' [FW (Sentinel ErrTooManyOps),
               FInt (int (length ops)), FInt (int max_ops_per_attempt)]))
      else if aget t (root_segs ws) \<noteq> Some Dir
        then (t, Some (Errorf ''open workspace root: %w'' [FW (Sentinel ErrNotExist)]))
      else case re_fail env RootOpen ws of
        Some e \<Rightarrow> (t, Some (Errorf ''open workspace root: %w'' [FW e]))
      | None \<Rightarrow> apply_from env (root_segs ws) 0 ops t)"

end
