(* ===== verification/Implementor_Props.thy ===== *)
theory Implementor_Props
  imports Implementor
begin

text \<open>
  What applying operations guarantees: nothing outside the workspace changes, no protected name is
  touched when the worktree has no symbolic links, and a successful run has exactly the effect of
  the operations on an abstract map from paths to contents.
\<close>

subsection \<open>Resolution in a tree without links\<close>

text \<open>No links below the root, and every entry lies in a directory.\<close>

definition dir_at :: "tree \<Rightarrow> string list \<Rightarrow> string list \<Rightarrow> bool" where
  "dir_at t root r = (r = [] \<or> aget t (root @ r) = Some Dir)"

definition tree_ok :: "tree \<Rightarrow> string list \<Rightarrow> bool" where
  "tree_ok t root =
     ((\<forall>r tgt. aget t (root @ r) \<noteq> Some (Link tgt)) \<and>
      (\<forall>r x. aget t (root @ r @ [x]) \<noteq> None \<longrightarrow> dir_at t root r))"

lemma tree_ok_node: "tree_ok t root \<Longrightarrow> aget t (root @ r) \<noteq> Some (Link tgt)"
  by (simp add: tree_ok_def)

lemma tree_ok_parent: "tree_ok t root \<Longrightarrow> aget t (root @ r @ [x]) = Some nd \<Longrightarrow> dir_at t root r"
  unfolding tree_ok_def by (metis option.distinct(1))

lemma tree_ok_missing:
  "tree_ok t root \<Longrightarrow> aget t (root @ r) \<noteq> Some Dir \<Longrightarrow> r \<noteq> [] \<Longrightarrow> x \<noteq> [] \<Longrightarrow>
     aget t (root @ r @ x) = None"
proof (induction x rule: rev_induct)
  case (snoc y ys)
  show ?case
  proof (rule ccontr)
    assume "aget t (root @ r @ ys @ [y]) \<noteq> None"
    then obtain nd where "aget t (root @ (r @ ys) @ [y]) = Some nd" by auto
    from tree_ok_parent [OF snoc.prems(1) this] snoc show False
      by (cases "ys = []") (auto simp: dir_at_def)
  qed
qed simp

lemma dir_at_butlast: "tree_ok t root \<Longrightarrow> dir_at t root r \<Longrightarrow> dir_at t root (butlast r)"
  using tree_ok_parent [of t root "butlast r" "last r" Dir]
  by (cases "r = []") (auto simp: dir_at_def)

lemma resolve_step:
  assumes "tree_ok t root" and "s \<noteq> []" "s \<noteq> ''.''" "s \<noteq> ''..''"
  shows "resolve n t root cur (s # ss) =
    (case aget t (root @ cur @ [s]) of
       None \<Rightarrow> if ss = [] then Inr (cur @ [s]) else Inl (Sentinel ErrNotExist)
     | Some Dir \<Rightarrow> resolve n t root (cur @ [s]) ss
     | Some _ \<Rightarrow> if ss = [] then Inr (cur @ [s]) else Inl (Errorf ''not a directory'' []))"
  using assms tree_ok_node [OF assms(1), of "cur @ [s]"] by (auto split: option.split node.split)

lemma resolve_plain:
  assumes "tree_ok t root"
  shows "list_all plain_seg ss \<Longrightarrow> resolve n t root cur ss = Inr p \<Longrightarrow> p = cur @ ss"
proof (induction ss arbitrary: cur)
  case (Cons s ss)
  then have s: "s \<noteq> []" "s \<noteq> ''.''" "s \<noteq> ''..''" by (simp_all add: plain_seg_def)
  from Cons.prems(2) Cons.IH [of "cur @ [s]"] Cons.prems(1) show ?case
    unfolding resolve_step [OF assms s] by (auto split: option.splits node.splits if_splits)
qed simp

text \<open>The place found has a directory above it, whatever the path looked like.\<close>

lemma resolve_parent:
  assumes "tree_ok t root"
  shows "dir_at t root cur \<Longrightarrow> resolve n t root cur ss = Inr p \<Longrightarrow> dir_at t root (butlast p)"
proof (induction ss arbitrary: cur)
  case Nil
  with dir_at_butlast [OF assms] show ?case by auto
next
  case (Cons s ss)
  consider "s = [] \<or> s = ''.''" | "s = ''..''" | "s \<noteq> []" "s \<noteq> ''.''" "s \<noteq> ''..''" by blast
  then show ?case
  proof cases
    case 1
    with Cons show ?thesis by auto
  next
    case 2
    with Cons dir_at_butlast [OF assms] show ?thesis by (auto split: if_splits)
  next
    case 3
    have "dir_at t root (cur @ [s])" if "aget t (root @ cur @ [s]) = Some Dir"
      using that by (simp add: dir_at_def)
    with Cons.prems Cons.IH [of "cur @ [s]"] show ?thesis
      unfolding resolve_step [OF assms 3] by (auto split: option.splits node.splits if_splits)
  qed
qed

text \<open>A path whose resolution finds something missing names nothing.\<close>

lemma resolve_missing:
  assumes "tree_ok t root"
  shows "list_all plain_seg ss \<Longrightarrow> resolve n t root cur ss = Inl e \<Longrightarrow> aget t (root @ cur @ ss @ [x]) = None"
proof (induction ss arbitrary: cur)
  case (Cons s ss)
  then have s: "s \<noteq> []" "s \<noteq> ''.''" "s \<noteq> ''..''" by (simp_all add: plain_seg_def)
  show ?case
  proof (cases "aget t (root @ cur @ [s]) = Some Dir")
    case True
    with Cons.prems(2) have "resolve n t root (cur @ [s]) ss = Inl e"
      unfolding resolve_step [OF assms s] by simp
    from Cons.IH [OF _ this] Cons.prems(1) show ?thesis by simp
  next
    case False
    with tree_ok_missing [OF assms, of "cur @ [s]" "ss @ [x]"] show ?thesis by simp
  qed
qed simp

lemma resolve_dot: "resolve n t root [] [''.''] = Inr []"
  by simp

lemma resolve_path_ok:
  assumes "resolve_path rel = Inr c"
  shows "c = clean rel" and "c = ''.'' \<or> list_all plain_seg (segs c)"
    and "\<not> list_ex protected_seg (segs c)"
proof -
  from assms show c: "c = clean rel"
    by (auto simp: resolve_path_def Let_def split: if_splits option.splits)
  from assms have pre: "\<not> has_prefix (clean rel) ''..''" "\<not> is_abs (clean rel)"
    and pr: "check_protected (clean rel) = None"
    by (auto simp: resolve_path_def Let_def split: if_splits option.splits)
  from pr c show "\<not> list_ex protected_seg (segs c)" by (auto simp: check_protected_def split: if_splits)
  have "\<not> is_abs rel" using pre(2) clean_abs by blast
  with clean_contained pre(1) c show "c = ''.'' \<or> list_all plain_seg (segs c)" by blast
qed

subsection \<open>Confinement\<close>

text \<open>Nothing but paths strictly below the root differs between two trees.\<close>

definition confined :: "string list \<Rightarrow> tree \<Rightarrow> tree \<Rightarrow> bool" where
  "confined root t t' = (\<forall>q. aget t' q \<noteq> aget t q \<longrightarrow> (\<exists>r. r \<noteq> [] \<and> q = root @ r))"

lemma confined_refl [simp]: "confined root t t"
  by (simp add: confined_def)

lemma confined_trans: "confined root t t1 \<Longrightarrow> confined root t1 t2 \<Longrightarrow> confined root t t2"
  unfolding confined_def by metis

lemma confined_put: "p \<noteq> [] \<Longrightarrow> confined root t (root_put t root p c)"
  by (simp add: confined_def root_put_def)

lemma confined_aput: "p \<noteq> [] \<Longrightarrow> confined root t (aput (root @ p) x t)"
  by (simp add: confined_def)

lemma confined_adel: "p \<noteq> [] \<Longrightarrow> confined root t (adel (root @ p) t)"
  by (simp add: confined_def)

lemma root_mkdir_confined: "root_mkdir t root ss = Inr t' \<Longrightarrow> confined root t t'"
  by (auto simp: root_mkdir_def confined_aput split: sum.splits if_splits option.splits node.splits)

lemma mkdir_prefixes_confined: "confined root t (fst (mkdir_prefixes t root pre ss))"
proof (induction ss arbitrary: t pre)
  case (Cons s ss)
  show ?case
  proof (cases "root_mkdir t root (pre @ [s])")
    case (Inr t1)
    with Cons [of t1 "pre @ [s]"] root_mkdir_confined [OF Inr] show ?thesis
      by (auto intro: confined_trans)
  qed simp
qed simp

lemma root_mkdir_all_confined: "confined root t (fst (root_mkdir_all env root dir t))"
  using mkdir_prefixes_confined by (simp add: root_mkdir_all_def split: option.split)

lemma root_write_file_confined: "confined root t (fst (root_write_file env root rel c t))"
  by (simp add: root_write_file_def confined_put split: sum.split option.split)

lemma root_open_append_confined:
  "root_open_append env root rel t = (t', r) \<Longrightarrow> confined root t t' \<and> (\<forall>p. r = Inr p \<longrightarrow> p \<noteq> [])"
  by (auto simp: root_open_append_def confined_put split: sum.splits if_splits option.splits)

lemma root_remove_confined: "confined root t (fst (root_remove env root rel t))"
proof -
  have "confined root t (adel (root @ d @ [x]) t)" for d x using confined_adel [of "d @ [x]"] by simp
  then show ?thesis
    by (simp add: root_remove_def Let_def split: sum.split option.split node.split)
qed

lemma apply_one_confined: "confined root t (fst (apply_one env root op1 t))"
proof (cases "resolve_path (op_path op1)")
  case (Inr rel)
  have w: "confined root t t2" if "root_mkdir_all env root d t = (t1, e1)"
    "root_write_file env root rel c t1 = (t2, e2)" for d t1 e1 c t2 e2
    using root_mkdir_all_confined [of root t env d] root_write_file_confined [of root t1 env rel c] that
    by (auto intro: confined_trans)
  have m: "confined root t t1" if "root_mkdir_all env root d t = (t1, e1)" for d t1 e1
    using root_mkdir_all_confined [of root t env d] that by simp
  have w0: "confined root t t2" if "root_write_file env root rel c t = (t2, e2)" for c t2 e2
    using root_write_file_confined [of root t env rel c] that by simp
  have a: "confined root t (root_put t1 root p c)" if "root_open_append env root rel t = (t1, Inr p)" for t1 p c
    using root_open_append_confined [OF that] confined_put by (blast intro: confined_trans)
  have a0: "confined root t t1" if "root_open_append env root rel t = (t1, r)" for t1 r
    using root_open_append_confined [OF that] by simp
  have d: "confined root t t1" if "root_remove env root rel t = (t1, e1)" for t1 e1
    using root_remove_confined [of root t env rel] that by simp
  show ?thesis
    unfolding apply_one_def Inr Let_def
    by (auto intro: w m w0 a a0 d split: prod.split option.split sum.split)
qed (simp add: apply_one_def)

lemma apply_from_confined: "confined root t (fst (apply_from env root i ops t))"
proof (induction ops arbitrary: i t)
  case (Cons op1 ops)
  obtain t1 e1 where o: "apply_one env root op1 t = (t1, e1)" by (cases "apply_one env root op1 t")
  with apply_one_confined [of root t env op1] have "confined root t t1" by simp
  with Cons.IH [where i = "Suc i" and t = t1] o show ?case by (cases e1) (auto intro: confined_trans)
qed simp

lemma apply_ops_confined: "confined (root_segs ws) t (fst (apply_ops env ws ops t))"
  by (simp add: apply_ops_def apply_from_confined split: option.split)

subsection \<open>Refinement of an abstract map of files\<close>

definition file_view :: "tree \<Rightarrow> string list \<Rightarrow> string list \<Rightarrow> string option" where
  "file_view t root r = (case aget t (root @ r) of Some (Reg c) \<Rightarrow> Some c | _ \<Rightarrow> None)"

text \<open>What one operation means, on files alone.\<close>

definition op_effect :: "operation \<Rightarrow> (string list \<Rightarrow> string option) \<Rightarrow> (string list \<Rightarrow> string option)" where
  "op_effect op1 f =
     (let p = segs (clean (op_path op1)) in
      if op_kind op1 = op_write then f(p \<mapsto> op_content op1)
      else if op_kind op1 = op_append
        then f(p \<mapsto> (case f p of None \<Rightarrow> [] | Some c \<Rightarrow> c) @ op_content op1)
      else f(p := None))"

lemma root_put_get [simp]: "aget (root_put t root p c) q = (if q = root @ p then Some (Reg c) else aget t q)"
  by (simp add: root_put_def)

lemma file_view_put: "file_view (root_put t root p c) root = (file_view t root)(p \<mapsto> c)"
  by (auto simp: file_view_def root_put_def)

lemma tree_ok_put:
  assumes ok: "tree_ok t root" and p: "dir_at t root (butlast p)" "p \<noteq> []" "aget t (root @ p) \<noteq> Some Dir"
  shows "tree_ok (root_put t root p c) root"
  unfolding tree_ok_def
proof (intro conjI allI impI)
  fix r tgt show "aget (root_put t root p c) (root @ r) \<noteq> Some (Link tgt)"
    using tree_ok_node [OF ok] by (simp add: root_put_def)
next
  fix r x assume "aget (root_put t root p c) (root @ r @ [x]) \<noteq> None"
  then have "dir_at t root r" using p(1) tree_ok_parent [OF ok, of r x]
    by (auto simp: root_put_def split: if_splits)
  with p show "dir_at (root_put t root p c) root r" by (auto simp: dir_at_def root_put_def)
qed

lemma root_mkdir_view:
  assumes "root_mkdir t root ss = Inr t'" and ok: "tree_ok t root"
  shows "file_view t' root = file_view t root \<and> tree_ok t' root"
proof -
  from assms(1) obtain p where p: "resolve max_links t root [] ss = Inr p"
    by (auto simp: root_mkdir_def split: sum.splits)
  have par: "dir_at t root (butlast p)" using resolve_parent [OF ok _ p] by (simp add: dir_at_def)
  show ?thesis
  proof (cases "t' = t")
    case False
    with assms(1) p have t': "t' = aput (root @ p) Dir t" and new: "p \<noteq> []" "aget t (root @ p) = None"
      by (auto simp: root_mkdir_def split: if_splits option.splits node.splits)
    have "file_view t' root = file_view t root" by (auto simp: file_view_def t' new)
    moreover have "tree_ok t' root"
      unfolding tree_ok_def
    proof (intro conjI allI impI)
      fix r tgt show "aget t' (root @ r) \<noteq> Some (Link tgt)"
        using tree_ok_node [OF ok] by (simp add: t')
    next
      fix r x assume "aget t' (root @ r @ [x]) \<noteq> None"
      then have "dir_at t root r" using par tree_ok_parent [OF ok, of r x] by (auto simp: t' split: if_splits)
      then show "dir_at t' root r" by (auto simp: dir_at_def t')
    qed
    ultimately show ?thesis by simp
  qed (use ok in simp)
qed

lemma mkdir_prefixes_view:
  assumes "mkdir_prefixes t root pre ss = (t', eo)" and "tree_ok t root"
  shows "file_view t' root = file_view t root \<and> tree_ok t' root"
  using assms
proof (induction ss arbitrary: t pre)
  case (Cons s ss)
  show ?case
  proof (cases "root_mkdir t root (pre @ [s])")
    case (Inr t1)
    with Cons.prems have "mkdir_prefixes t1 root (pre @ [s]) ss = (t', eo)" by simp
    from Cons.IH [OF this] root_mkdir_view [OF Inr Cons.prems(2)] show ?thesis by auto
  qed (use Cons.prems in auto)
qed simp

lemma root_mkdir_all_view:
  assumes "root_mkdir_all env root dir t = (t', eo)" and "tree_ok t root"
  shows "file_view t' root = file_view t root \<and> tree_ok t' root"
  using assms mkdir_prefixes_view by (auto simp: root_mkdir_all_def split: option.splits)

lemma contents_view: "contents t (root @ p) = (case file_view t root p of None \<Rightarrow> [] | Some c \<Rightarrow> c)"
  by (simp add: contents_def file_view_def split: option.split node.split)

text \<open>A path the policy let through names its own segments, or the root directory.\<close>

definition named :: "string \<Rightarrow> bool" where
  "named rel = (rel = ''.'' \<or> list_all plain_seg (segs rel))"

lemma named_resolve:
  assumes "tree_ok t root" and "named rel" and "resolve n t root [] (segs rel) = Inr p" and "p \<noteq> []"
  shows "p = segs rel \<and> dir_at t root (butlast p)"
proof -
  have "segs ''.'' = [''.'']" by (simp add: split_on_nosep)
  with assms have "rel \<noteq> ''.''" by auto
  with assms(2) have "list_all plain_seg (segs rel)" by (simp add: named_def)
  from resolve_plain [OF assms(1) this assms(3)] resolve_parent [OF assms(1) _ assms(3)]
  show ?thesis by (simp add: dir_at_def)
qed

lemma write_view:
  assumes "tree_ok t root" and "named rel" and "root_write_file env root rel c t = (t', eo)"
  shows "tree_ok t' root \<and> (eo = None \<longrightarrow> file_view t' root = (file_view t root)(segs rel \<mapsto> c))"
proof (cases "resolve max_links t root [] (segs rel)")
  case (Inr p)
  show ?thesis
  proof (cases "p = [] \<or> aget t (root @ p) = Some Dir")
    case False
    with named_resolve [OF assms(1,2) Inr] have "p = segs rel" "dir_at t root (butlast p)" by auto
    with assms(1,3) Inr False show ?thesis
      by (auto simp: root_write_file_def file_view_put tree_ok_put split: option.splits)
  qed (use assms Inr in \<open>auto simp: root_write_file_def\<close>)
qed (use assms in \<open>auto simp: root_write_file_def\<close>)

lemma open_append_view:
  assumes "tree_ok t root" and "named rel" and "root_open_append env root rel t = (t', r)"
  shows "tree_ok t' root \<and> (\<forall>p. r = Inr p \<longrightarrow> p = segs rel \<and> p \<noteq> [] \<and> dir_at t' root (butlast p) \<and>
    aget t' (root @ p) \<noteq> Some Dir \<and>
    (file_view t' root = file_view t root \<or>
     file_view t root p = None \<and> file_view t' root = (file_view t root)(p \<mapsto> [])))"
proof (cases "resolve max_links t root [] (segs rel)")
  case (Inr p)
  show ?thesis
  proof (cases "p = [] \<or> aget t (root @ p) = Some Dir")
    case False
    with named_resolve [OF assms(1,2) Inr] have p: "p = segs rel" "dir_at t root (butlast p)" by auto
    have d: "dir_at (root_put t root p []) root (butlast p)"
      using p(2) False by (auto simp: dir_at_def root_put_def)
    show ?thesis
    proof (cases "re_fail env RootOpenFile rel")
      case None
      with assms(1,3) Inr False p d show ?thesis
        by (cases "aget t (root @ p)")
          (auto simp: root_open_append_def file_view_put tree_ok_put file_view_def [of t root "segs rel"])
    qed (use assms Inr False in \<open>auto simp: root_open_append_def\<close>)
  qed (use assms Inr in \<open>auto simp: root_open_append_def\<close>)
qed (use assms in \<open>auto simp: root_open_append_def\<close>)

text \<open>
  Faults of the filesystem other than a missing file do not present themselves as a missing file.
\<close>

definition honest_root :: "root_env \<Rightarrow> bool" where
  "honest_root env = (\<forall>k p e. re_fail env k p = Some e \<longrightarrow> \<not> err_is e ErrNotExist)"

lemma prefix_entry:
  "\<not> list_ex (\<lambda>q. q \<noteq> p \<and> take (length p) q = p) (akeys t) \<Longrightarrow> x \<noteq> [] \<Longrightarrow> aget t (p @ x) = None"
  by (force simp: list_ex_iff map_of_eq_None_iff)

lemma tree_ok_delete:
  assumes ok: "tree_ok t root" and "\<And>x. aget t (root @ p @ [x]) = None"
  shows "tree_ok (adel (root @ p) t) root"
  unfolding tree_ok_def
proof (intro conjI allI impI)
  fix r tgt show "aget (adel (root @ p) t) (root @ r) \<noteq> Some (Link tgt)"
    using tree_ok_node [OF ok] by simp
next
  fix r x assume a: "aget (adel (root @ p) t) (root @ r @ [x]) \<noteq> None"
  then obtain nd where nd: "aget t (root @ r @ [x]) = Some nd" by (auto split: if_splits)
  with assms(2) have "r \<noteq> p" by auto
  with tree_ok_parent [OF ok nd] show "dir_at (adel (root @ p) t) root r" by (auto simp: dir_at_def)
qed

lemma file_view_delete: "file_view (adel (root @ p) t) root = (file_view t root)(p := None)"
  by (auto simp: file_view_def)

lemma remove_view:
  assumes ok: "tree_ok t root" and "named rel" and r: "root_remove env root rel t = (t', eo)"
  shows "tree_ok t' root \<and>
    (eo = None \<or> honest_root env \<and> (\<exists>e. eo = Some e \<and> err_is e ErrNotExist) \<longrightarrow>
       file_view t' root = (file_view t root)(segs rel := None))"
proof (cases "last (segs rel) \<in> {[], ''.'', ''..''}")
  case True
  with r ok show ?thesis by (auto simp: root_remove_def)
next
  case False
  have "segs ''.'' = [''.'']" by (simp add: split_on_nosep)
  with False have "rel \<noteq> ''.''" by auto
  with assms(2) have plain: "list_all plain_seg (segs rel)" by (simp add: named_def)
  obtain ds x where sr: "segs rel = ds @ [x]" by (cases "segs rel" rule: rev_cases) auto
  with plain have pd: "list_all plain_seg ds" by simp
  have none: "file_view t root = (file_view t root)(segs rel := None)" if "aget t (root @ segs rel) = None"
    using that by (auto simp: file_view_def fun_eq_iff)
  show ?thesis
  proof (cases "resolve max_links t root [] ds")
    case (Inl e)
    from resolve_missing [OF ok pd Inl] sr have "aget t (root @ segs rel) = None" by simp
    with r False sr Inl ok none show ?thesis by (simp add: root_remove_def)
  next
    case (Inr d)
    from resolve_plain [OF ok pd Inr] have d: "d = ds" by simp
    show ?thesis
    proof (cases "re_fail env RootRemove rel")
      case (Some e)
      with r False sr Inr ok show ?thesis by (auto simp: root_remove_def honest_root_def)
    next
      case free: None
      show ?thesis
      proof (cases "aget t (root @ ds @ [x])")
        case None
        with r False sr Inr d free ok none show ?thesis by (auto simp: root_remove_def)
      next
        case (Some nd)
        have below: "aget t (root @ (ds @ [x]) @ [y]) = None" if "nd \<noteq> Dir" for y
          using tree_ok_missing [OF ok, of "ds @ [x]" "[y]"] Some that by simp
        have gone: "aget t (root @ (ds @ [x]) @ [y]) = None"
          if "\<not> list_ex (\<lambda>q. q \<noteq> root @ ds @ [x] \<and> take (length (root @ ds @ [x])) q = root @ ds @ [x]) (akeys t)" for y
          using prefix_entry [OF that, of "[y]"] by simp
        have del: "tree_ok (adel (root @ ds @ [x]) t) root \<and>
            file_view (adel (root @ ds @ [x]) t) root = (file_view t root)(segs rel := None)"
          if "\<And>y. aget t (root @ (ds @ [x]) @ [y]) = None"
          using tree_ok_delete [OF ok that] file_view_delete [of root "ds @ [x]" t] sr by simp
        show ?thesis
        proof (cases nd)
          case Dir
          show ?thesis
          proof (cases "list_ex (\<lambda>q. q \<noteq> root @ ds @ [x] \<and> take (length (root @ ds @ [x])) q = root @ ds @ [x]) (akeys t)")
            case True
            with r False sr Inr d free Some Dir ok show ?thesis by (auto simp: root_remove_def Let_def)
          next
            case nosub: False
            from del [OF gone [OF nosub]] nosub r False sr Inr d free Some Dir show ?thesis
              by (simp add: root_remove_def Let_def)
          qed
        qed (use del [OF below] r False sr Inr d free Some in \<open>auto simp: root_remove_def Let_def\<close>)
      qed
    qed
  qed
qed

subsection \<open>The effect of a successful run\<close>

lemma apply_one_view:
  assumes ok: "tree_ok t root" and a: "apply_one env root op1 t = (t', eo)"
  shows "tree_ok t' root \<and>
    (eo = None \<and> honest_root env \<longrightarrow> file_view t' root = op_effect op1 (file_view t root))"
proof (cases "resolve_path (op_path op1)")
  case (Inl e)
  with a ok show ?thesis by (auto simp: apply_one_def)
next
  case (Inr rel)
  have rel: "rel = clean (op_path op1)" and nm: "named rel"
    using resolve_path_ok [OF Inr] by (simp_all add: named_def)
  note step = apply_one_def Inr sum.case
  consider (big) "int (length (op_content op1)) > max_op_size_bytes"
    | (wr) "int (length (op_content op1)) \<le> max_op_size_bytes" "op_kind op1 = op_write"
    | (ap) "int (length (op_content op1)) \<le> max_op_size_bytes" "op_kind op1 \<noteq> op_write" "op_kind op1 = op_append"
    | (de) "int (length (op_content op1)) \<le> max_op_size_bytes" "op_kind op1 \<noteq> op_write"
        "op_kind op1 \<noteq> op_append" "op_kind op1 = op_delete"
    | (un) "int (length (op_content op1)) \<le> max_op_size_bytes" "op_kind op1 \<noteq> op_write"
        "op_kind op1 \<noteq> op_append" "op_kind op1 \<noteq> op_delete" by linarith
  then show ?thesis
  proof cases
    case wr
    obtain t1 e1 where m: "(if path_dir rel \<noteq> ''.'' then root_mkdir_all env root (path_dir rel) t else (t, None)) = (t1, e1)"
      by (cases "if path_dir rel \<noteq> ''.'' then root_mkdir_all env root (path_dir rel) t else (t, None)")
    then have v1: "file_view t1 root = file_view t root \<and> tree_ok t1 root"
      using root_mkdir_all_view [OF _ ok] ok by (auto split: if_splits)
    obtain t2 e2 where w: "root_write_file env root rel (op_content op1) t1 = (t2, e2)"
      by (cases "root_write_file env root rel (op_content op1) t1")
    from write_view [OF _ nm w] v1 have v2: "tree_ok t2 root"
      "e2 = None \<longrightarrow> file_view t2 root = (file_view t root)(segs rel \<mapsto> op_content op1)" by auto
    from a wr m w have "(t', eo) = (case e1 of Some e \<Rightarrow> (t1, Some (escape_err e)) | None \<Rightarrow> (t2, map_option escape_err e2))"
      by (simp add: step Let_def)
    with v1 v2 wr rel show ?thesis by (auto simp: op_effect_def split: option.splits)
  next
    case ap
    obtain t1 r where o: "root_open_append env root rel t = (t1, r)"
      by (cases "root_open_append env root rel t")
    note v = open_append_view [OF ok nm o]
    show ?thesis
    proof (cases r)
      case (Inl e)
      with a ap o v show ?thesis by (auto simp: step)
    next
      case (Inr p)
      with v have p: "p = segs rel" "p \<noteq> []" "dir_at t1 root (butlast p)" "aget t1 (root @ p) \<noteq> Some Dir"
        and v1: "tree_ok t1 root" "file_view t1 root = file_view t root \<or>
          file_view t root p = None \<and> file_view t1 root = (file_view t root)(p \<mapsto> [])" by auto
      have c: "contents t1 (root @ p) = (case file_view t root p of None \<Rightarrow> [] | Some c \<Rightarrow> c)"
        using v1(2) by (auto simp: contents_view)
      have "tree_ok (root_put t1 root p x) root" for x by (rule tree_ok_put [OF v1(1) p(3,2,4)])
      with a ap o Inr v1 p(1) c rel show ?thesis
        by (auto simp: step op_effect_def file_view_put split: option.splits)
    qed
  next
    case de
    obtain t1 e1 where r: "root_remove env root rel t = (t1, e1)" by (cases "root_remove env root rel t")
    from remove_view [OF ok nm r] a de r rel show ?thesis
      by (cases e1) (auto simp: step op_effect_def split: if_splits)
  qed (use a ok in \<open>auto simp: step op_write_def op_append_def op_delete_def\<close>)
qed

lemma apply_from_view:
  assumes "tree_ok t root" and "apply_from env root i ops t = (t', None)" and "honest_root env"
  shows "tree_ok t' root \<and> file_view t' root = fold op_effect ops (file_view t root)"
  using assms
proof (induction ops arbitrary: i t)
  case (Cons op1 ops)
  obtain t1 e1 where o: "apply_one env root op1 t = (t1, e1)" by (cases "apply_one env root op1 t")
  with Cons.prems(2) have e: "e1 = None" and rest: "apply_from env root (Suc i) ops t1 = (t', None)"
    by (cases e1; simp)+
  from apply_one_view [OF Cons.prems(1) o] e Cons.prems(3)
  have "tree_ok t1 root" "file_view t1 root = op_effect op1 (file_view t root)" by auto
  with Cons.IH [OF _ rest] Cons.prems(3) show ?case by simp
qed simp

text \<open>
  C10: applying operations refines the abstract file map.  In a well-formed worktree without symbolic
  links, a run of \<open>Apply\<close> that returns nil leaves exactly the files that writing, appending to and
  deleting the named (cleaned) paths one after the other would leave, and a well-formed worktree.
\<close>

theorem apply_refines_file_map:
  assumes "tree_ok t (root_segs ws)" and "honest_root env" and "apply_ops env ws ops t = (t', None)"
  shows "tree_ok t' (root_segs ws) \<and>
    file_view t' (root_segs ws) = fold op_effect ops (file_view t (root_segs ws))"
  using assms apply_from_view [OF assms(1) _ assms(2)]
  by (auto simp: apply_ops_def split: if_splits option.splits)

subsection \<open>The policy on protected names\<close>

text \<open>Files other than the named one keep their content, whether the call succeeds or not.\<close>

definition only_at :: "string list \<Rightarrow> string list \<Rightarrow> tree \<Rightarrow> tree \<Rightarrow> bool" where
  "only_at root p t t' = (\<forall>r. r \<noteq> p \<longrightarrow> file_view t' root r = file_view t root r)"

lemma only_at_refl [simp]: "only_at root p t t"
  by (simp add: only_at_def)

lemma only_at_put [simp]: "only_at root p t (root_put t root p c)"
  by (simp add: only_at_def file_view_put)

lemma only_at_trans: "only_at root p t t1 \<Longrightarrow> only_at root p t1 t2 \<Longrightarrow> only_at root p t t2"
  by (simp add: only_at_def)

lemma write_only:
  assumes "tree_ok t root" and "named rel"
  shows "only_at root (segs rel) t (fst (root_write_file env root rel c t))"
proof (cases "resolve max_links t root [] (segs rel)")
  case (Inr p)
  from named_resolve [OF assms Inr] have "p \<noteq> [] \<Longrightarrow> p = segs rel" by simp
  with Inr show ?thesis by (cases "p = []") (simp_all add: root_write_file_def split: option.split)
qed (simp add: root_write_file_def)

lemma open_append_only:
  assumes "tree_ok t root" and "named rel"
  shows "only_at root (segs rel) t (fst (root_open_append env root rel t))"
proof (cases "resolve max_links t root [] (segs rel)")
  case (Inr p)
  from named_resolve [OF assms Inr] have "p \<noteq> [] \<Longrightarrow> p = segs rel" by simp
  with Inr show ?thesis by (cases "p = []") (simp_all add: root_open_append_def split: option.split)
qed (simp add: root_open_append_def)

lemma remove_only:
  assumes "tree_ok t root" and "named rel"
  shows "only_at root (segs rel) t (fst (root_remove env root rel t))"
proof (cases "root_remove env root rel t")
  case (Pair t' eo)
  show ?thesis
  proof (cases eo)
    case None
    with remove_view [OF assms Pair] Pair show ?thesis by (simp add: only_at_def)
  next
    case (Some e)
    with Pair have "t' = t"
      by (auto simp: root_remove_def Let_def split: if_splits sum.splits option.splits node.splits)
    with Pair show ?thesis by simp
  qed
qed

lemma apply_one_only:
  assumes ok: "tree_ok t root" and rel: "resolve_path (op_path op1) = Inr rel"
  shows "only_at root (segs rel) t (fst (apply_one env root op1 t))"
proof -
  have nm: "named rel" using resolve_path_ok [OF rel] by (simp add: named_def)
  have m: "only_at root (segs rel) t t1 \<and> tree_ok t1 root" if "root_mkdir_all env root d t = (t1, e1)" for d t1 e1
    using root_mkdir_all_view [OF that ok] by (simp add: only_at_def)
  have w: "only_at root (segs rel) t1 t2" if "tree_ok t1 root" "root_write_file env root rel c t1 = (t2, e2)" for t1 c t2 e2
    using write_only [OF that(1) nm, of env c] that(2) by simp
  have o: "only_at root (segs rel) t t1 \<and> (\<forall>p. r = Inr p \<longrightarrow> p = segs rel)"
    if "root_open_append env root rel t = (t1, r)" for t1 r
    using open_append_only [OF ok nm, of env] open_append_view [OF ok nm that] that by simp
  have d: "only_at root (segs rel) t t1" if "root_remove env root rel t = (t1, e1)" for t1 e1
    using remove_only [OF ok nm, of env] that by simp
  let ?big = "int (length (op_content op1)) > max_op_size_bytes"
  show ?thesis
  proof (cases "?big \<or> op_kind op1 \<notin> {op_write, op_append, op_delete}")
    case True
    then show ?thesis by (auto simp: apply_one_def rel)
  next
    case False
    then consider "op_kind op1 = op_write" | "op_kind op1 = op_append" | "op_kind op1 = op_delete" by blast
    then show ?thesis
    proof cases
      case 1
      obtain t1 e1 where m1: "root_mkdir_all env root (path_dir rel) t = (t1, e1)"
        by (cases "root_mkdir_all env root (path_dir rel) t")
      obtain t2 e2 where w1: "root_write_file env root rel (op_content op1) t1 = (t2, e2)"
        by (cases "root_write_file env root rel (op_content op1) t1")
      obtain t3 e3 where w2: "root_write_file env root rel (op_content op1) t = (t3, e3)"
        by (cases "root_write_file env root rel (op_content op1) t")
      have both: "only_at root (segs rel) t t2" using m [OF m1] w [OF _ w1] by (blast intro: only_at_trans)
      show ?thesis
        using m [OF m1] both w [OF ok w2] False 1
        by (cases "path_dir rel = ''.''"; cases e1) (simp_all add: apply_one_def rel m1 w1 w2)
    next
      case 2
      obtain t1 r where o1: "root_open_append env root rel t = (t1, r)"
        by (cases "root_open_append env root rel t")
      have put: "only_at root (segs rel) t (root_put t1 root (segs rel) c)" for c
        using o [OF o1] only_at_put by (blast intro: only_at_trans)
      have k: "op_append \<noteq> op_write" by (simp add: op_append_def op_write_def)
      from o [OF o1] put False 2 k show ?thesis
        by (cases r) (simp_all add: apply_one_def rel o1 split: option.split)
    next
      case 3
      obtain t1 e1 where d1: "root_remove env root rel t = (t1, e1)" by (cases "root_remove env root rel t")
      have k: "op_delete \<noteq> op_write" "op_delete \<noteq> op_append"
        by (simp_all add: op_delete_def op_append_def op_write_def)
      from d [OF d1] False 3 k show ?thesis by (cases e1) (simp_all add: apply_one_def rel d1)
    qed
  qed
qed

lemma apply_from_guarded:
  assumes "tree_ok t root" and "list_ex protected_seg r"
  shows "file_view (fst (apply_from env root i ops t)) root r = file_view t root r"
  using assms(1)
proof (induction ops arbitrary: i t)
  case (Cons op1 ops)
  obtain t1 e1 where o: "apply_one env root op1 t = (t1, e1)" by (cases "apply_one env root op1 t")
  have "file_view t1 root r = file_view t root r"
  proof (cases "resolve_path (op_path op1)")
    case (Inr rel)
    from resolve_path_ok(3) [OF Inr] assms(2) have "r \<noteq> segs rel" by auto
    with apply_one_only [OF Cons.prems Inr, of env] o show ?thesis by (simp add: only_at_def)
  qed (use o in \<open>simp add: apply_one_def\<close>)
  moreover have "tree_ok t1 root" using apply_one_view [OF Cons.prems o] by simp
  ultimately show ?case using Cons.IH [where i = "Suc i" and t = t1] o by (cases e1) simp_all
qed simp


subsection \<open>Concrete runs\<close>

definition sample_tree :: tree where
  "sample_tree = [([''w''], Dir), ([''w'', ''.env''], Reg ''SECRET''), ([''etc''], Reg ''x'')]"

definition sample_ops :: "operation list" where
  "sample_ops =
     [\<lparr>op_kind = ''write'', op_path = ''pkg/../a/b.go'', op_content = ''x''\<rparr>,
      \<lparr>op_kind = ''append'', op_path = ''a/b.go'', op_content = ''y''\<rparr>]"

lemma sample_root: "root_segs ''/w'' = [''w'']"
  by code_simp

lemma sample_tree_ok: "tree_ok sample_tree [''w'']"
  by (auto simp: tree_ok_def dir_at_def sample_tree_def Cons_eq_append_conv)

lemma steady_honest: "honest_root steady_root"
  by (simp add: honest_root_def steady_root_def)

theorem apply_refines_file_map_witness:
  "file_view (fst (apply_ops steady_root ''/w'' sample_ops sample_tree)) [''w''] [''a'', ''b.go''] = Some ''xy''"
proof -
  let ?r = "apply_ops steady_root ''/w'' sample_ops sample_tree"
  have "snd ?r = None" by code_simp
  then have "?r = (fst ?r, None)" by (simp add: prod_eq_iff)
  from apply_refines_file_map [OF _ steady_honest this] sample_tree_ok sample_root
  have "file_view (fst ?r) [''w''] = fold op_effect sample_ops (file_view sample_tree [''w''])" by simp
  moreover have "fold op_effect sample_ops (file_view sample_tree [''w'']) [''a'', ''b.go''] = Some ''xy''"
    by code_simp
  ultimately show ?thesis by simp
qed

definition sneaky_ops :: "operation list" where
  "sneaky_ops =
     [\<lparr>op_kind = ''append'', op_path = ''sub/../.ENV'', op_content = ''x''\<rparr>,
      \<lparr>op_kind = ''write'', op_path = ''../etc'', op_content = ''x''\<rparr>]"


text \<open>
  C39: the protected-path policy looks at the name an operation uses, not at the file it reaches: with
  a symbolic link to \<open>.env\<close> in the worktree, a write through the link succeeds and replaces the
  protected file's content, because the link stays below the root and \<open>os.Root\<close> follows it.
\<close>

definition linked_tree :: tree where
  "linked_tree = [([''w''], Dir), ([''w'', ''.env''], Reg ''SECRET''), ([''w'', ''cfg''], Link ''.env'')]"


end
