(* ===== verification/Jobs.thy ===== *)
theory Jobs
  imports Rojo_Prelude "HOL-Library.List_Lexorder" "HOL-Library.Char_ord"
begin

text \<open>
  The package \<open>internal/jobs\<close>: the job record, its state machine, the validation of a
  submission, the repository interface and the in-memory repository.
\<close>

subsection \<open>Statuses and transitions (\<open>status.go\<close>, \<open>transitions.go\<close>)\<close>

datatype job_status =
    StatusQueued | StatusPlanning | StatusPreparingWorkspace | StatusImplementing
  | StatusVerifying | StatusReviewing | StatusWaitingForRevision
  | StatusCompleted | StatusFailed | StatusCancelled

fun status_string :: "job_status \<Rightarrow> string" where
  "status_string StatusQueued = ''queued''"
| "status_string StatusPlanning = ''planning''"
| "status_string StatusPreparingWorkspace = ''preparing_workspace''"
| "status_string StatusImplementing = ''implementing''"
| "status_string StatusVerifying = ''verifying''"
| "status_string StatusReviewing = ''reviewing''"
| "status_string StatusWaitingForRevision = ''waiting_for_revision''"
| "status_string StatusCompleted = ''completed''"
| "status_string StatusFailed = ''failed''"
| "status_string StatusCancelled = ''cancelled''"

fun legal_transitions :: "job_status \<Rightarrow> job_status list" where
  "legal_transitions StatusQueued = [StatusPlanning, StatusCancelled, StatusFailed]"
| "legal_transitions StatusPlanning = [StatusPreparingWorkspace, StatusFailed, StatusCancelled]"
| "legal_transitions StatusPreparingWorkspace = [StatusImplementing, StatusFailed, StatusCancelled]"
| "legal_transitions StatusImplementing = [StatusVerifying, StatusFailed, StatusCancelled]"
| "legal_transitions StatusVerifying = [StatusReviewing, StatusFailed, StatusCancelled]"
| "legal_transitions StatusReviewing =
     [StatusCompleted, StatusWaitingForRevision, StatusFailed, StatusCancelled]"
| "legal_transitions StatusWaitingForRevision = [StatusImplementing, StatusFailed, StatusCancelled]"
| "legal_transitions StatusCompleted = []"
| "legal_transitions StatusFailed = []"
| "legal_transitions StatusCancelled = []"

definition can_transition :: "job_status \<Rightarrow> job_status \<Rightarrow> bool" where
  "can_transition from_s to_s = list_ex (\<lambda>allowed. allowed = to_s) (legal_transitions from_s)"

text \<open>The three statuses with no way out.\<close>

definition terminal :: "job_status \<Rightarrow> bool" where
  "terminal s = (s \<in> {StatusCompleted, StatusFailed, StatusCancelled})"

lemma can_transition_iff [simp]: "can_transition a b \<longleftrightarrow> b \<in> set (legal_transitions a)"
  by (auto simp: can_transition_def list_ex_iff)

lemma terminal_simps [simp]:
  "terminal StatusCompleted" "terminal StatusFailed" "terminal StatusCancelled"
  "\<not> terminal StatusQueued" "\<not> terminal StatusPlanning" "\<not> terminal StatusPreparingWorkspace"
  "\<not> terminal StatusImplementing" "\<not> terminal StatusVerifying" "\<not> terminal StatusReviewing"
  "\<not> terminal StatusWaitingForRevision"
  by (simp_all add: terminal_def)

lemma terminal_iff_stuck: "terminal s \<longleftrightarrow> legal_transitions s = []"
  by (cases s) simp_all

lemma nonterminal_can_fail: "\<not> terminal s \<Longrightarrow> can_transition s StatusFailed"
  by (cases s) simp_all

lemma nonterminal_can_cancel: "\<not> terminal s \<Longrightarrow> can_transition s StatusCancelled"
  by (cases s) simp_all

lemma never_back_to_queued: "\<not> can_transition s StatusQueued"
  by (cases s) simp_all

lemma status_string_inj: "status_string a = status_string b \<longleftrightarrow> a = b"
  by (cases a; cases b) simp_all

text \<open>Who may precede a status: the table read backwards.\<close>

lemma before_completed: "can_transition s StatusCompleted \<longleftrightarrow> s = StatusReviewing"
  by (cases s) simp_all

lemma before_reviewing: "can_transition s StatusReviewing \<longleftrightarrow> s = StatusVerifying"
  by (cases s) simp_all

lemma before_verifying: "can_transition s StatusVerifying \<longleftrightarrow> s = StatusImplementing"
  by (cases s) simp_all

text \<open>
  A history is a list of statuses in which each may follow the one before.  The next lemma says
  what every history that ends in \<open>completed\<close> looks like: the five work steps in order, then
  any number of full revision rounds.
\<close>

fun legal_history :: "job_status list \<Rightarrow> bool" where
  "legal_history (a # b # ss) = (can_transition a b \<and> legal_history (b # ss))"
| "legal_history ss = True"

definition revision_round :: "job_status list" where
  "revision_round =
     [StatusWaitingForRevision, StatusImplementing, StatusVerifying, StatusReviewing]"

lemma reviewing_suffix:
  assumes "legal_history (StatusReviewing # ss)" and "last (StatusReviewing # ss) = StatusCompleted"
  shows "\<exists>k. ss = concat (replicate k revision_round) @ [StatusCompleted]"
  using assms
proof (induction "length ss" arbitrary: ss rule: less_induct)
  case less
  obtain a t where ss: "ss = a # t" using less.prems(2) by (cases ss) auto
  with less.prems have a: "a \<in> set (legal_transitions StatusReviewing)" and t: "legal_history (a # t)"
    and l: "last (a # t) = StatusCompleted" by auto
  show ?case
  proof (cases "a = StatusWaitingForRevision")
    case False
    with a l t have "t = []" and "a = StatusCompleted" by (cases t; auto)+
    with ss show ?thesis by (intro exI [of _ 0]) simp
  next
    case True
    with t l obtain b t2 where t2: "t = b # t2" by (cases t) auto
    with t l True have b: "b = StatusImplementing" and h2: "legal_history (b # t2)"
      and l2: "last (b # t2) = StatusCompleted" by (cases t2; auto)+
    then obtain c t3 where t3: "t2 = c # t3" by (cases t2) auto
    with h2 l2 b have c: "c = StatusVerifying" and h3: "legal_history (c # t3)"
      and l3: "last (c # t3) = StatusCompleted" by (cases t3; auto)+
    then obtain d t4 where t4: "t3 = d # t4" by (cases t3) auto
    with h3 l3 c have d: "d = StatusReviewing" and h4: "legal_history (d # t4)"
      and l4: "last (d # t4) = StatusCompleted" by (cases t4; auto)+
    have "\<exists>k. t4 = concat (replicate k revision_round) @ [StatusCompleted]"
      using less.hyps [of t4] h4 l4 d ss t2 t3 t4 by simp
    then obtain k where "t4 = concat (replicate k revision_round) @ [StatusCompleted]" by blast
    with ss True t2 b t3 c t4 d
    have "ss = concat (replicate (Suc k) revision_round) @ [StatusCompleted]"
      by (simp add: revision_round_def)
    then show ?thesis by blast
  qed
qed

text \<open>
  C3: the only way to \<open>completed\<close>.  Every history the transition table allows from \<open>queued\<close> to
  \<open>completed\<close> goes through planning, workspace preparation, implementation, verification and review
  in that order, and then through any number of full revision rounds, each of which ends with
  verification and review again.
\<close>

theorem completed_history:
  assumes h: "legal_history (StatusQueued # ss)" and l: "last (StatusQueued # ss) = StatusCompleted"
  shows "\<exists>k. ss = [StatusPlanning, StatusPreparingWorkspace, StatusImplementing, StatusVerifying,
                   StatusReviewing] @ concat (replicate k revision_round) @ [StatusCompleted]"
proof -
  have step: "\<exists>t. r = b # t \<and> legal_history (b # t) \<and> last (b # t) = StatusCompleted"
    if prems: "legal_history (a # r)" "last (a # r) = StatusCompleted"
      "set (legal_transitions a) \<subseteq> {b, StatusFailed, StatusCancelled}" "a \<noteq> StatusCompleted"
    for a b r
  proof -
    obtain x t where r: "r = x # t" using prems by (cases r) auto
    with prems have x: "x \<in> {b, StatusFailed, StatusCancelled}" and t: "legal_history (x # t)"
      and lt: "last (x # t) = StatusCompleted" by auto
    then have "x = b" by (cases t) auto
    with r t lt show ?thesis by auto
  qed
  obtain t1 where "ss = StatusPlanning # t1" "legal_history (StatusPlanning # t1)"
    "last (StatusPlanning # t1) = StatusCompleted" using step [OF h l] by auto
  moreover from step [OF this(2,3), of StatusPreparingWorkspace] obtain t2 where
    "t1 = StatusPreparingWorkspace # t2" "legal_history (StatusPreparingWorkspace # t2)"
    "last (StatusPreparingWorkspace # t2) = StatusCompleted" by auto
  moreover from step [OF this(2,3), of StatusImplementing] obtain t3 where
    "t2 = StatusImplementing # t3" "legal_history (StatusImplementing # t3)"
    "last (StatusImplementing # t3) = StatusCompleted" by auto
  moreover from step [OF this(2,3), of StatusVerifying] obtain t4 where
    "t3 = StatusVerifying # t4" "legal_history (StatusVerifying # t4)"
    "last (StatusVerifying # t4) = StatusCompleted" by auto
  moreover from step [OF this(2,3), of StatusReviewing] obtain t5 where
    "t4 = StatusReviewing # t5" "legal_history (StatusReviewing # t5)"
    "last (StatusReviewing # t5) = StatusCompleted" by auto
  moreover from reviewing_suffix [OF this(2,3)] obtain k where
    "t5 = concat (replicate k revision_round) @ [StatusCompleted]" by blast
  ultimately show ?thesis by auto
qed

theorem completed_history_witness:
  "legal_history ([StatusQueued, StatusPlanning, StatusPreparingWorkspace, StatusImplementing,
     StatusVerifying, StatusReviewing] @ revision_round @ [StatusCompleted]) \<and>
   (\<exists>k. [StatusPlanning, StatusPreparingWorkspace, StatusImplementing, StatusVerifying, StatusReviewing] @
       revision_round @ [StatusCompleted] =
     [StatusPlanning, StatusPreparingWorkspace, StatusImplementing, StatusVerifying, StatusReviewing] @
       concat (replicate k revision_round) @ [StatusCompleted])"
proof -
  let ?ss = "[StatusPlanning, StatusPreparingWorkspace, StatusImplementing, StatusVerifying, StatusReviewing] @
      revision_round @ [StatusCompleted]"
  have h: "legal_history (StatusQueued # ?ss)" by (simp add: revision_round_def)
  have l: "last (StatusQueued # ?ss) = StatusCompleted" by (simp add: revision_round_def)
  from completed_history [OF h l] h show ?thesis by simp
qed

subsection \<open>Jobs (\<open>job.go\<close>)\<close>

record job =
  job_id :: string
  task :: string
  repo_path :: string
  status :: job_status
  created_at :: time
  updated_at :: time

text \<open>
  \<open>Job.Transition\<close>, with the clock reading as an argument: the job itself is changed only when
  the table allows the move.
\<close>

definition transition :: "time \<Rightarrow> job_status \<Rightarrow> job \<Rightarrow> go_err option \<times> job" where
  "transition now next_s j =
     (if \<not> can_transition (status j) next_s
      then (Some (Errorf ''illegal transition for job %s: %s -> %s''
              [FStr (job_id j), FStr (status_string (status j)), FStr (status_string next_s)]), j)
      else (None, j\<lparr>status := next_s, updated_at := now\<rparr>))"

lemma transition_ok [op_simps]:
  "can_transition (status j) s \<Longrightarrow> transition now s j = (None, j\<lparr>status := s, updated_at := now\<rparr>)"
  by (simp add: transition_def)

lemma transition_err [op_simps]:
  "\<not> can_transition (status j) s \<Longrightarrow>
     \<exists>e. transition now s j = (Some e, j)"
  by (simp add: transition_def)

lemma transition_job_id [simp]: "job_id (snd (transition now s j)) = job_id j"
  by (simp add: transition_def)

lemma transition_fail_terminal: "terminal (status (snd (transition now StatusFailed j)))"
  by (cases "status j") (simp_all add: transition_def)

lemma transition_cancel_terminal: "terminal (status (snd (transition now StatusCancelled j)))"
  by (cases "status j") (simp_all add: transition_def)

text \<open>
  C36: terminal means final, and nothing else is stuck.  A job in a terminal status refuses every
  transition and stays as it is; any other job can be failed and cancelled at any time, and either
  leaves it terminal with its identity, task and creation time unchanged.
\<close>

theorem transition_terminal_law:
  "if terminal (status j)
   then (\<forall>s now. snd (transition now s j) = j \<and> fst (transition now s j) \<noteq> None)
   else (\<forall>now. transition now StatusFailed j = (None, j\<lparr>status := StatusFailed, updated_at := now\<rparr>) \<and>
               transition now StatusCancelled j = (None, j\<lparr>status := StatusCancelled, updated_at := now\<rparr>))"
  using terminal_iff_stuck [of "status j"] nonterminal_can_fail [of "status j"]
    nonterminal_can_cancel [of "status j"]
  by (auto simp: transition_def)

subsection \<open>Submissions (\<open>request.go\<close>)\<close>

record new_job_request =
  req_task :: string
  req_repo_path :: string

definition max_task_length :: nat where
  "max_task_length = 4000"

definition min_task_length :: nat where
  "min_task_length = 4"

definition max_repo_path_length :: nat where
  "max_repo_path_length = 4096"

text \<open>
  \<open>NewJobRequest.Validate\<close> normalises the request in place, so the result is the normalised
  request together with the error, or nil.
\<close>

definition validate :: "new_job_request \<Rightarrow> new_job_request \<times> go_err option" where
  "validate r0 =
     (let r = r0\<lparr>req_task := trim_space (req_task r0),
                 req_repo_path := trim_space (req_repo_path r0)\<rparr>;
          n = rune_count (req_task r)
      in (r,
        if req_task r = [] then Some (Sentinel ErrTaskRequired)
        else if CHR 0x00 \<in> set (req_task r) \<or> CHR 0x00 \<in> set (req_repo_path r)
          then Some (Sentinel ErrNullByte)
        else if n < min_task_length then Some (Sentinel ErrTaskTooShort)
        else if n > max_task_length then Some (Sentinel ErrTaskTooLong)
        else if req_repo_path r = [] then Some (Sentinel ErrRepoPathMissing)
        else if length (req_repo_path r) > max_repo_path_length
          then Some (Sentinel ErrRepoPathTooLong)
        else if \<not> is_abs (req_repo_path r) then Some (Sentinel ErrRepoPathRelative)
        else None))"

text \<open>What the rest of the program may rely on in an accepted request.\<close>

definition well_formed_request :: "new_job_request \<Rightarrow> bool" where
  "well_formed_request r =
     (trim_space (req_task r) = req_task r \<and> trim_space (req_repo_path r) = req_repo_path r \<and>
      min_task_length \<le> rune_count (req_task r) \<and> rune_count (req_task r) \<le> max_task_length \<and>
      length (req_repo_path r) \<le> max_repo_path_length \<and> is_abs (req_repo_path r) \<and>
      CHR 0x00 \<notin> set (req_task r) \<and> CHR 0x00 \<notin> set (req_repo_path r))"

lemma validate_normalises:
  "fst (validate r) = r\<lparr>req_task := trim_space (req_task r), req_repo_path := trim_space (req_repo_path r)\<rparr>"
  by (simp add: validate_def Let_def)

text \<open>
  Validation accepts exactly the well-formed submissions.  After \<open>Validate\<close> the request is the
  trimmed one, and the result is nil just when the task has 4 to 4000 characters, the repository path
  is absolute and at most 4096 bytes long, and neither contains a NUL byte.
\<close>

lemma validate_accepts_iff:
  "snd (validate r) = None \<longleftrightarrow> well_formed_request (fst (validate r))"
  unfolding validate_def well_formed_request_def Let_def
  by (auto simp: not_less min_task_length_def is_abs_def has_prefix_def)

end
