(* ===== verification/Job_Repository.thy ===== *)
theory Job_Repository
  imports Jobs "HOL-Library.Multiset"
begin

text \<open>
  The repository interface of \<open>internal/jobs/repository.go\<close> as a locale, the listing order
  (newest first, ties by id), and the in-memory repository, which interprets the locale.  The
  filesystem store of \<open>File_Store\<close> interprets it again.
\<close>

subsection \<open>The listing order\<close>

text \<open>The comparison function both repositories pass to \<open>sort.Slice\<close>.\<close>

definition job_before :: "job \<Rightarrow> job \<Rightarrow> bool" where
  "job_before a b =
     (if created_at a = created_at b then job_id a < job_id b
      else created_at a > created_at b)"

text \<open>
  The same order as a linear order on keys, so that the library's sorting applies: a key is
  smaller when its job is newer.
\<close>

datatype job_key = Job_Key (key_time: time) (key_id: string)

definition key_of :: "job \<Rightarrow> job_key" where
  "key_of j = Job_Key (created_at j) (job_id j)"

instantiation job_key :: linorder
begin

definition less_job_key :: "job_key \<Rightarrow> job_key \<Rightarrow> bool" where
  "less_job_key a b =
     (key_time a > key_time b \<or> key_time a = key_time b \<and> key_id a < key_id b)"

definition less_eq_job_key :: "job_key \<Rightarrow> job_key \<Rightarrow> bool" where
  "less_eq_job_key a b =
     (key_time a > key_time b \<or> key_time a = key_time b \<and> key_id a \<le> key_id b)"

instance
  by standard (auto simp: less_job_key_def less_eq_job_key_def job_key.expand)

end

lemma job_before_key: "job_before a b \<longleftrightarrow> key_of a < key_of b"
  by (auto simp: job_before_def key_of_def less_job_key_def)

text \<open>
  \<open>sort.Slice\<close> sorts in an unspecified, unstable way; on jobs with distinct ids the result is
  determined by the comparison alone (\<open>sort_jobs_unique\<close>), so the library's sort stands for it.
\<close>

definition sort_jobs :: "job list \<Rightarrow> job list" where
  "sort_jobs js = sort_key key_of js"

definition newest_first :: "job list \<Rightarrow> bool" where
  "newest_first js = sorted_wrt (\<lambda>a b. \<not> job_before b a) js"

lemma newest_first_sorted: "newest_first js \<longleftrightarrow> sorted (map key_of js)"
  by (simp add: newest_first_def sorted_map job_before_key not_less)

lemma newest_first_sort_jobs [simp]: "newest_first (sort_jobs js)"
  by (simp add: newest_first_sorted sort_jobs_def)

lemma set_sort_jobs [simp]: "set (sort_jobs js) = set js"
  by (simp add: sort_jobs_def)

lemma mset_sort_jobs: "mset (sort_jobs js) = mset js"
  by (simp add: sort_jobs_def)

lemma length_sort_jobs [simp]: "length (sort_jobs js) = length js"
  by (simp add: sort_jobs_def)

lemma key_of_inj_on: "distinct (map job_id js) \<Longrightarrow> inj_on key_of (set js)"
  by (rule inj_onI) (auto simp: key_of_def distinct_map dest: inj_onD)

lemma sort_jobs_unique:
  assumes "distinct (map job_id js)" and "mset ys = mset js" and "newest_first ys"
  shows "ys = sort_jobs js"
  unfolding sort_jobs_def
  using assms by (metis key_of_inj_on newest_first_sorted sort_key_inj_key_eq)

subsection \<open>The interface\<close>

text \<open>
  \<open>jobs.JobRepository\<close>: \<open>Create\<close>, \<open>Get\<close>, \<open>Update\<close> and \<open>List\<close> over a hidden state, with
  the map from ids to jobs that a client sees.  An operation that returns an error leaves the
  view as it was.
\<close>

locale job_repository =
  fixes create :: "job \<Rightarrow> 'r \<Rightarrow> 'r \<times> go_err option"
    and get :: "string \<Rightarrow> 'r \<Rightarrow> job result"
    and update :: "job \<Rightarrow> 'r \<Rightarrow> 'r \<times> go_err option"
    and list_all_jobs :: "'r \<Rightarrow> job list"
    and invar :: "'r \<Rightarrow> bool"
    and view :: "'r \<Rightarrow> string \<Rightarrow> job option"
  assumes get_view: "invar r \<Longrightarrow>
      get k r = (case view r k of None \<Rightarrow> Inl (Sentinel ErrJobNotFound) | Some j \<Rightarrow> Inr j)"
    and create_ok: "invar r \<Longrightarrow> create j r = (r', None) \<Longrightarrow>
      invar r' \<and> view r (job_id j) = None \<and> view r' = (view r)(job_id j \<mapsto> j)"
    and create_err: "invar r \<Longrightarrow> create j r = (r', Some e) \<Longrightarrow> invar r' \<and> view r' = view r"
    and update_ok: "invar r \<Longrightarrow> update j r = (r', None) \<Longrightarrow>
      invar r' \<and> view r (job_id j) \<noteq> None \<and> view r' = (view r)(job_id j \<mapsto> j)"
    and update_err: "invar r \<Longrightarrow> update j r = (r', Some e) \<Longrightarrow> invar r' \<and> view r' = view r"
    and update_missing: "invar r \<Longrightarrow> view r (job_id j) = None \<Longrightarrow>
      update j r = (r, Some (Sentinel ErrJobNotFound))"
    and view_key: "invar r \<Longrightarrow> view r k = Some j \<Longrightarrow> job_id j = k"
    and list_view: "invar r \<Longrightarrow> set (list_all_jobs r) = ran (view r)"
    and list_distinct: "invar r \<Longrightarrow> distinct (map job_id (list_all_jobs r))"
    and list_newest: "invar r \<Longrightarrow> newest_first (list_all_jobs r)"
begin

lemma get_after_create:
  "invar r \<Longrightarrow> create j r = (r', None) \<Longrightarrow> get (job_id j) r' = Inr j"
  using create_ok [of r j r'] by (simp add: get_view)

lemma get_after_update:
  "invar r \<Longrightarrow> update j r = (r', None) \<Longrightarrow> get (job_id j) r' = Inr j"
  using update_ok [of r j r'] by (simp add: get_view)

lemma update_frame:
  "invar r \<Longrightarrow> update j r = (r', eo) \<Longrightarrow> k \<noteq> job_id j \<Longrightarrow> view r' k = view r k"
  by (cases eo) (auto dest: update_ok update_err)

lemma update_invar: "invar r \<Longrightarrow> update j r = (r', eo) \<Longrightarrow> invar r'"
  by (cases eo) (auto dest: update_ok update_err)

lemma create_invar: "invar r \<Longrightarrow> create j r = (r', eo) \<Longrightarrow> invar r'"
  by (cases eo) (auto dest: create_ok create_err)

lemma update_dom:
  assumes "invar r" and "update j r = (r', eo)"
  shows "dom (view r') = dom (view r)"
proof (cases eo)
  case None
  with assms update_ok [of r j r'] show ?thesis by auto
next
  case (Some e)
  with assms update_err [of r j r' e] show ?thesis by simp
qed

lemma create_duplicate:
  "invar r \<Longrightarrow> view r (job_id j) \<noteq> None \<Longrightarrow> snd (create j r) \<noteq> None"
  using create_ok [of r j "fst (create j r)"] by (metis prod.collapse)

lemma list_complete: "invar r \<Longrightarrow> j \<in> set (list_all_jobs r) \<longleftrightarrow> view r (job_id j) = Some j"
  by (auto simp: list_view ran_def dest: view_key)

text \<open>The listing is determined by what the client can see, not by how the state holds it.\<close>

lemma list_determined:
  assumes "invar r" and "distinct (map job_id js)" and "set js = ran (view r)" and "newest_first js"
  shows "js = list_all_jobs r"
proof -
  have d: "distinct (list_all_jobs r)" "distinct js"
    using assms list_distinct by (auto simp: distinct_map)
  have "mset js = mset (list_all_jobs r)"
    using d assms(1,3) list_view [of r] set_eq_iff_mset_eq_distinct by metis
  with assms show ?thesis
    by (metis list_distinct list_newest sort_jobs_unique)
qed

end

subsection \<open>The in-memory repository\<close>

record mem_repo =
  mem_jobs :: "(string, job) amap"

definition new_mem_repo :: mem_repo where
  "new_mem_repo = \<lparr>mem_jobs = []\<rparr>"

definition mem_create :: "job \<Rightarrow> mem_repo \<Rightarrow> mem_repo \<times> go_err option" where
  "mem_create j r =
     (if aget (mem_jobs r) (job_id j) \<noteq> None then (r, Some (Sentinel ErrJobAlreadyExists))
      else (r\<lparr>mem_jobs := aput (job_id j) j (mem_jobs r)\<rparr>, None))"

definition mem_get :: "string \<Rightarrow> mem_repo \<Rightarrow> job result" where
  "mem_get k r =
     (case aget (mem_jobs r) k of None \<Rightarrow> Inl (Sentinel ErrJobNotFound) | Some j \<Rightarrow> Inr j)"

definition mem_update :: "job \<Rightarrow> mem_repo \<Rightarrow> mem_repo \<times> go_err option" where
  "mem_update j r =
     (if aget (mem_jobs r) (job_id j) = None then (r, Some (Sentinel ErrJobNotFound))
      else (r\<lparr>mem_jobs := aput (job_id j) j (mem_jobs r)\<rparr>, None))"

definition mem_list :: "mem_repo \<Rightarrow> job list" where
  "mem_list r = sort_jobs (map snd (mem_jobs r))"

text \<open>Every job is filed under its own id, once.\<close>

definition keyed :: "(string, job) amap \<Rightarrow> bool" where
  "keyed m = (avalid m \<and> list_all (\<lambda>(k, j). job_id j = k) m)"

lemma keyed_Nil [simp]: "keyed []"
  by (simp add: keyed_def)

lemma keyed_avalid: "keyed m \<Longrightarrow> avalid m"
  by (simp add: keyed_def)

lemma keyed_aget: "keyed m \<Longrightarrow> aget m k = Some j \<Longrightarrow> job_id j = k"
  by (auto simp: keyed_def list_all_iff dest: map_of_SomeD)

lemma keyed_aput [simp]:
  assumes "keyed m" shows "keyed (aput (job_id j) j m)"
proof -
  have "set (aput (job_id j) j m) \<subseteq> insert (job_id j, j) (set m)"
    by (induction m) auto
  with assms show ?thesis by (auto simp: keyed_def list_all_iff)
qed

lemma keyed_ids: "keyed m \<Longrightarrow> map job_id (map snd m) = akeys m"
  by (induction m) (auto simp: keyed_def avalid_def)

lemma keyed_distinct: "keyed m \<Longrightarrow> distinct (map job_id (map snd m))"
  by (simp only: keyed_ids) (simp add: keyed_def avalid_def)

lemma distinct_ids_sort: "distinct (map job_id (sort_jobs js)) \<longleftrightarrow> distinct (map job_id js)"
  by (metis mset_map mset_sort_jobs mset_eq_imp_distinct_iff)

lemmas keyed_listing = keyed_distinct keyed_avalid avalid_values distinct_ids_sort

interpretation mem: job_repository mem_create mem_get mem_update mem_list
    "\<lambda>r. keyed (mem_jobs r)" "\<lambda>r. aget (mem_jobs r)"
proof (unfold_locales, goal_cases)
  case (1 r k)
  show ?case by (simp add: mem_get_def)
next
  case (8 r)
  then show ?case by (simp add: mem_list_def keyed_listing)
next
  case (9 r)
  then show ?case using keyed_distinct by (simp add: mem_list_def distinct_ids_sort)
next
  case (10 r)
  show ?case by (simp add: mem_list_def)
qed (auto simp: mem_create_def mem_update_def keyed_aget split: if_splits)

end
