(* ===== verification/Event_Bus.thy ===== *)
theory Event_Bus
  imports Rojo_Prelude
begin

text \<open>
  \<open>internal/events/events.go\<close>: events, subscriptions and the in-process bus.  A subscription is
  a pointer that the bus and its client share, so subscriptions live in a heap and are named by
  addresses; a buffered Go channel is the list of its queued events, a capacity and a closed
  flag.  Sending on a closed channel panics, as in Go.
\<close>

subsection \<open>Events\<close>

datatype event_type =
    TypeJobCreated | TypeJobStarted | TypeJobCompleted | TypeJobFailed | TypeJobCancelled
  | TypeStepStarted | TypeStepCompleted
  | TypePlanCreated | TypeWorkspaceCreated | TypeImplementationCompleted
  | TypeVerificationCompleted | TypeFanoutCompleted | TypeDiffCaptured
  | TypeReviewStarted | TypeReviewCompleted | TypeRevisionRequested

fun event_type_string :: "event_type \<Rightarrow> string" where
  "event_type_string TypeJobCreated = ''job.created''"
| "event_type_string TypeJobStarted = ''job.started''"
| "event_type_string TypeJobCompleted = ''job.completed''"
| "event_type_string TypeJobFailed = ''job.failed''"
| "event_type_string TypeJobCancelled = ''job.cancelled''"
| "event_type_string TypeStepStarted = ''step.started''"
| "event_type_string TypeStepCompleted = ''step.completed''"
| "event_type_string TypePlanCreated = ''plan.created''"
| "event_type_string TypeWorkspaceCreated = ''workspace.created''"
| "event_type_string TypeImplementationCompleted = ''implementation.completed''"
| "event_type_string TypeVerificationCompleted = ''verification.completed''"
| "event_type_string TypeFanoutCompleted = ''fanout.completed''"
| "event_type_string TypeDiffCaptured = ''diff.captured''"
| "event_type_string TypeReviewStarted = ''review.started''"
| "event_type_string TypeReviewCompleted = ''review.completed''"
| "event_type_string TypeRevisionRequested = ''revision.requested''"

record event =
  ev_job_id :: string
  ev_type :: event_type
  ev_payload :: "(string \<times> json) list"
  ev_created_at :: time

definition stamp :: "time \<Rightarrow> event \<Rightarrow> event" where
  "stamp now e = (if is_zero_time (ev_created_at e) then e\<lparr>ev_created_at := now\<rparr> else e)"

lemma stamp_simps [simp]:
  "ev_job_id (stamp now e) = ev_job_id e" "ev_type (stamp now e) = ev_type e"
  "ev_payload (stamp now e) = ev_payload e"
  by (simp_all add: stamp_def)

lemma stamp_nonzero: "now \<noteq> 0 \<Longrightarrow> ev_created_at (stamp now e) \<noteq> 0"
  by (simp add: stamp_def)

lemma stamp_stamp [simp]: "now \<noteq> 0 \<Longrightarrow> stamp later (stamp now e) = stamp now e"
  by (simp add: stamp_def)

subsection \<open>The bus\<close>

record subscription =
  sub_job_id :: string
  sub_chan :: "event list"
  sub_cap :: nat
  sub_closed :: bool

record bus =
  bus_heap :: "(nat, subscription) amap"
  bus_next :: nat
  bus_subs :: "(string, nat list) amap"
  bus_drop_cb :: bool
  bus_drop_calls :: "string list"

definition new_in_process_bus :: bus where
  "new_in_process_bus =
     \<lparr>bus_heap = [], bus_next = 0, bus_subs = [], bus_drop_cb = False, bus_drop_calls = []\<rparr>"

definition on_drop :: "bus \<Rightarrow> bus" where
  "on_drop b = b\<lparr>bus_drop_cb := True\<rparr>"

definition subs_of :: "bus \<Rightarrow> string \<Rightarrow> nat list" where
  "subs_of b k = (case aget (bus_subs b) k of None \<Rightarrow> [] | Some as \<Rightarrow> as)"

text \<open>One non-blocking send: \<open>select { case sub.C <- e: default: drops++ }\<close>.\<close>

definition try_send :: "event \<Rightarrow> subscription \<Rightarrow> (subscription \<times> bool) outcome" where
  "try_send e s =
     (if sub_closed s then Panic ''send on closed channel''
      else if length (sub_chan s) < sub_cap s then Return (s\<lparr>sub_chan := sub_chan s @ [e]\<rparr>, True)
      else Return (s, False))"

text \<open>The loop over the job's subscribers, with the number of drops so far.\<close>

fun fan_out :: "event \<Rightarrow> nat list \<Rightarrow> (nat, subscription) amap \<Rightarrow> nat \<Rightarrow>
    ((nat, subscription) amap \<times> nat) outcome" where
  "fan_out e [] h drops = Return (h, drops)"
| "fan_out e (a # as) h drops =
     (case aget h a of
        None \<Rightarrow> Panic ''nil pointer dereference''
      | Some s \<Rightarrow>
          (case try_send e s of
             Panic r \<Rightarrow> Panic r
           | Return (s', sent) \<Rightarrow>
               fan_out e as (aput a s' h) (if sent then drops else Suc drops)))"

definition bus_publish :: "time \<Rightarrow> event \<Rightarrow> bus \<Rightarrow> bus outcome" where
  "bus_publish now e0 b =
     (let e = stamp now e0 in
      case fan_out e (subs_of b (ev_job_id e)) (bus_heap b) 0 of
        Panic r \<Rightarrow> Panic r
      | Return (h, drops) \<Rightarrow>
          Return (b\<lparr>bus_heap := h,
            bus_drop_calls := bus_drop_calls b @
              (if bus_drop_cb b then replicate drops (ev_job_id e) else [])\<rparr>))"

definition bus_subscribe :: "string \<Rightarrow> int \<Rightarrow> bus \<Rightarrow> bus \<times> nat" where
  "bus_subscribe k buffer b =
     (let cap = (if buffer \<le> 0 then 16 else nat buffer); a = bus_next b;
          s = \<lparr>sub_job_id = k, sub_chan = [], sub_cap = cap, sub_closed = False\<rparr>
      in (b\<lparr>bus_heap := aput a s (bus_heap b), bus_next := Suc a,
            bus_subs := aput k (subs_of b k @ [a]) (bus_subs b)\<rparr>, a))"

definition bus_unsubscribe :: "nat \<Rightarrow> bus \<Rightarrow> bus" where
  "bus_unsubscribe a b =
     (case aget (bus_heap b) a of
        None \<Rightarrow> b
      | Some s \<Rightarrow>
          let k = sub_job_id s;
              subs = (case aget (bus_subs b) k of
                        None \<Rightarrow> bus_subs b
                      | Some as \<Rightarrow>
                          (case removeAll a as of
                             [] \<Rightarrow> adel k (bus_subs b)
                           | as' \<Rightarrow> aput k as' (bus_subs b)));
              s' = (if sub_closed s then s else s\<lparr>sub_closed := True\<rparr>)
          in b\<lparr>bus_subs := subs, bus_heap := aput a s' (bus_heap b)\<rparr>)"

text \<open>What a subscriber's receive from \<open>sub.C\<close> finds.\<close>

datatype received = Got event | Closed_Chan | Would_Block

definition bus_receive :: "nat \<Rightarrow> bus \<Rightarrow> bus \<times> received" where
  "bus_receive a b =
     (case aget (bus_heap b) a of
        None \<Rightarrow> (b, Would_Block)
      | Some s \<Rightarrow>
          (case sub_chan s of
             e # es \<Rightarrow> (b\<lparr>bus_heap := aput a (s\<lparr>sub_chan := es\<rparr>) (bus_heap b)\<rparr>, Got e)
           | [] \<Rightarrow> (b, if sub_closed s then Closed_Chan else Would_Block)))"

subsection \<open>The bus invariant\<close>

text \<open>
  A registered subscriber is allocated, open and registered under its own job, once; buffers never
  exceed their capacity; addresses not yet handed out are not in the heap.
\<close>

definition bus_inv :: "bus \<Rightarrow> bool" where
  "bus_inv b =
     ((\<forall>k a. a \<in> set (subs_of b k) \<longrightarrow>
         (\<exists>s. aget (bus_heap b) a = Some s \<and> \<not> sub_closed s \<and> sub_job_id s = k)) \<and>
      (\<forall>k. distinct (subs_of b k)) \<and>
      (\<forall>a s. aget (bus_heap b) a = Some s \<longrightarrow>
         a < bus_next b \<and> length (sub_chan s) \<le> sub_cap s \<and> 0 < sub_cap s))"

lemma bus_invD:
  assumes "bus_inv b"
  shows "a \<in> set (subs_of b k) \<Longrightarrow>
      \<exists>s. aget (bus_heap b) a = Some s \<and> \<not> sub_closed s \<and> sub_job_id s = k"
    and "distinct (subs_of b k)"
    and "aget (bus_heap b) a = Some s \<Longrightarrow>
      a < bus_next b \<and> length (sub_chan s) \<le> sub_cap s \<and> 0 < sub_cap s"
  using assms unfolding bus_inv_def by blast+

lemma subs_of_update [simp]:
  "subs_of (b\<lparr>bus_heap := h\<rparr>) k = subs_of b k"
  "subs_of (b\<lparr>bus_drop_calls := d\<rparr>) k = subs_of b k"
  "subs_of (b\<lparr>bus_next := n\<rparr>) k = subs_of b k"
  by (simp_all add: subs_of_def)

lemma new_bus_inv [inv_intros]: "bus_inv new_in_process_bus"
  by (simp add: bus_inv_def new_in_process_bus_def subs_of_def)

lemma on_drop_inv [inv_intros]: "bus_inv b \<Longrightarrow> bus_inv (on_drop b)"
  by (simp add: bus_inv_def on_drop_def subs_of_def)

text \<open>What one subscription looks like after an event was offered to it.\<close>

definition offered :: "event \<Rightarrow> subscription \<Rightarrow> subscription" where
  "offered e s =
     (if length (sub_chan s) < sub_cap s then s\<lparr>sub_chan := sub_chan s @ [e]\<rparr> else s)"

definition is_full :: "subscription \<Rightarrow> bool" where
  "is_full s = (sub_cap s \<le> length (sub_chan s))"

lemma offered_simps [simp]:
  "sub_closed (offered e s) = sub_closed s" "sub_job_id (offered e s) = sub_job_id s"
  "sub_cap (offered e s) = sub_cap s"
  by (simp_all add: offered_def)

lemma offered_bound: "length (sub_chan s) \<le> sub_cap s \<Longrightarrow> length (sub_chan (offered e s)) \<le> sub_cap s"
  by (simp add: offered_def)

text \<open>
  The loop, when every address is allocated and open: it returns, each listed subscription was
  offered the event once, the others are as before, and the count is the number of full buffers.
\<close>

lemma fan_out_open:
  assumes "distinct as" and "\<And>a. a \<in> set as \<Longrightarrow> \<exists>s. aget h a = Some s \<and> \<not> sub_closed s"
  shows "\<exists>h'. fan_out e as h d =
      Return (h', d + length (filter (\<lambda>a. is_full (the (aget h a))) as)) \<and>
      (\<forall>a. aget h' a = (if a \<in> set as then map_option (offered e) (aget h a) else aget h a))"
  using assms
proof (induction as arbitrary: h d)
  case Nil
  then show ?case by simp
next
  case (Cons a as)
  obtain s where s: "aget h a = Some s" "\<not> sub_closed s" using Cons.prems(2) by auto
  let ?h = "aput a (offered e s) h"
  have same: "aget ?h x = aget h x" if "x \<in> set as" for x using that Cons.prems(1) by auto
  then have filt: "filter (\<lambda>x. is_full (the (aget ?h x))) as
      = filter (\<lambda>x. is_full (the (aget h x))) as"
    by (intro filter_cong) auto
  have "\<exists>sx. aget ?h x = Some sx \<and> \<not> sub_closed sx" if "x \<in> set as" for x
    using that Cons.prems(2) [of x] same [OF that] by simp
  from Cons.IH [of ?h "if is_full s then Suc d else d"] this Cons.prems(1)
  obtain h' where h': "fan_out e as ?h (if is_full s then Suc d else d) =
      Return (h', (if is_full s then Suc d else d) +
        length (filter (\<lambda>x. is_full (the (aget ?h x))) as))"
    and upd: "\<And>x. aget h' x = (if x \<in> set as then map_option (offered e) (aget ?h x) else aget ?h x)"
    by auto
  have send: "try_send e s = Return (offered e s, \<not> is_full s)"
    using s by (simp add: try_send_def offered_def is_full_def)
  have "fan_out e (a # as) h d =
      Return (h', d + length (filter (\<lambda>x. is_full (the (aget h x))) (a # as)))"
    using h' [unfolded filt] s by (cases "is_full s") (simp_all add: send)
  moreover have "aget h' x =
      (if x \<in> set (a # as) then map_option (offered e) (aget h x) else aget h x)" for x
    using upd [of x] s Cons.prems(1) by auto
  ultimately show ?case by blast
qed

lemma publish_result:
  assumes "bus_inv b"
  shows "\<exists>h. bus_publish now e b =
      Return (b\<lparr>bus_heap := h, bus_drop_calls := bus_drop_calls b @
        (if bus_drop_cb b then replicate (length (filter (\<lambda>a. is_full (the (aget (bus_heap b) a)))
           (subs_of b (ev_job_id e)))) (ev_job_id e) else [])\<rparr>) \<and>
      (\<forall>a. aget h a = (if a \<in> set (subs_of b (ev_job_id e))
         then map_option (offered (stamp now e)) (aget (bus_heap b) a) else aget (bus_heap b) a))"
proof -
  have "\<exists>s. aget (bus_heap b) a = Some s \<and> \<not> sub_closed s"
    if "a \<in> set (subs_of b (ev_job_id e))" for a
    using bus_invD(1) [OF assms that] by blast
  from fan_out_open [OF bus_invD(2) [OF assms] this, of "ev_job_id e" "stamp now e" 0]
  show ?thesis by (auto simp: bus_publish_def Let_def)
qed

lemma publish_inv [inv_intros]:
  assumes inv: "bus_inv b" and "bus_publish now e b = Return b'"
  shows "bus_inv b'"
proof -
  obtain h where b': "b' = b\<lparr>bus_heap := h, bus_drop_calls := bus_drop_calls b'\<rparr>"
    and h: "\<And>a. aget h a = (if a \<in> set (subs_of b (ev_job_id e))
         then map_option (offered (stamp now e)) (aget (bus_heap b) a) else aget (bus_heap b) a)"
    using publish_result [OF inv, of now e] assms(2) by auto
  have subs: "subs_of b' k = subs_of b k" for k by (subst b') simp
  have heap: "bus_heap b' = h" "bus_next b' = bus_next b" by (subst b', simp)+
  show ?thesis
    unfolding bus_inv_def subs heap
  proof (intro conjI allI impI)
    fix k a assume "a \<in> set (subs_of b k)"
    from bus_invD(1) [OF inv this]
    show "\<exists>s. aget h a = Some s \<and> \<not> sub_closed s \<and> sub_job_id s = k" by (auto simp: h)
  next
    fix k show "distinct (subs_of b k)" by (rule bus_invD(2) [OF inv])
  next
    fix a s assume "aget h a = Some s"
    then obtain s0 where s0: "aget (bus_heap b) a = Some s0" "s = s0 \<or> s = offered (stamp now e) s0"
      by (auto simp: h split: if_splits)
    with bus_invD(3) [OF inv s0(1)]
    show "a < bus_next b" "length (sub_chan s) \<le> sub_cap s" "0 < sub_cap s"
      by (auto intro: offered_bound)
  qed
qed

lemma subscribe_inv [inv_intros]:
  assumes inv: "bus_inv b"
  shows "bus_inv (fst (bus_subscribe k n b))"
proof -
  let ?a = "bus_next b"
  have fresh: "aget (bus_heap b) ?a = None"
    using bus_invD(3) [OF inv] by (metis less_irrefl not_None_eq)
  have new: "?a \<notin> set (subs_of b k')" for k' using bus_invD(1) [OF inv] fresh by force
  have subs: "subs_of (fst (bus_subscribe k n b)) k' =
      (if k' = k then subs_of b k @ [?a] else subs_of b k')" for k'
    by (simp add: bus_subscribe_def Let_def subs_of_def)
  let ?s = "\<lparr>sub_job_id = k, sub_chan = [], sub_cap = (if n \<le> 0 then 16 else nat n),
      sub_closed = False\<rparr>"
  have heap: "aget (bus_heap (fst (bus_subscribe k n b))) x =
      (if x = ?a then Some ?s else aget (bus_heap b) x)" for x
    by (simp add: bus_subscribe_def Let_def)
  have nxt: "bus_next (fst (bus_subscribe k n b)) = Suc ?a"
    by (simp add: bus_subscribe_def Let_def)
  show ?thesis
    unfolding bus_inv_def subs heap nxt
  proof (intro conjI allI impI)
    fix k' a assume a: "a \<in> set (if k' = k then subs_of b k @ [?a] else subs_of b k')"
    then consider "a = ?a" "k' = k" | "a \<in> set (subs_of b k')" by (auto split: if_splits)
    then show "\<exists>s. (if a = ?a then Some ?s else aget (bus_heap b) a) = Some s \<and>
        \<not> sub_closed s \<and> sub_job_id s = k'"
    proof cases
      case 2
      with new have "a \<noteq> ?a" by blast
      with bus_invD(1) [OF inv 2] show ?thesis by simp
    qed simp
  next
    fix k' show "distinct (if k' = k then subs_of b k @ [?a] else subs_of b k')"
      using bus_invD(2) [OF inv] new by simp
  next
    fix a s assume "(if a = ?a then Some ?s else aget (bus_heap b) a) = Some s"
    then show "a < Suc ?a" "length (sub_chan s) \<le> sub_cap s" "0 < sub_cap s"
      using bus_invD(3) [OF inv, of a s] by (auto split: if_splits)
  qed
qed

lemma unsubscribe_subs:
  assumes inv: "bus_inv b" and s: "aget (bus_heap b) a = Some s"
  shows "subs_of (bus_unsubscribe a b) k = removeAll a (subs_of b k)"
proof (cases "k = sub_job_id s")
  case True
  then show ?thesis
    by (auto simp: bus_unsubscribe_def s Let_def subs_of_def split: option.splits list.splits)
next
  case False
  have "a \<notin> set (subs_of b k)" using bus_invD(1) [OF inv] s False by force
  then have "removeAll a (subs_of b k) = subs_of b k" by simp
  moreover have "subs_of (bus_unsubscribe a b) k = subs_of b k"
    using False
    by (auto simp: bus_unsubscribe_def s Let_def subs_of_def split: option.splits list.splits)
  ultimately show ?thesis by simp
qed

lemma unsubscribe_inv [inv_intros]:
  assumes inv: "bus_inv b"
  shows "bus_inv (bus_unsubscribe a b)"
proof (cases "aget (bus_heap b) a")
  case None
  with inv show ?thesis by (simp add: bus_unsubscribe_def)
next
  case (Some s)
  have heap: "aget (bus_heap (bus_unsubscribe a b)) x =
      (if x = a then Some (s\<lparr>sub_closed := True\<rparr>) else aget (bus_heap b) x)" for x
    by (simp add: bus_unsubscribe_def Some Let_def)
  have nxt: "bus_next (bus_unsubscribe a b) = bus_next b"
    by (simp add: bus_unsubscribe_def Some Let_def)
  show ?thesis
    unfolding bus_inv_def unsubscribe_subs [OF inv Some] heap nxt
    using bus_invD [OF inv] Some by (auto simp: distinct_removeAll)
qed

lemma receive_inv [inv_intros]:
  assumes inv: "bus_inv b"
  shows "bus_inv (fst (bus_receive a b))"
proof (cases "aget (bus_heap b) a")
  case None
  with inv show ?thesis by (simp add: bus_receive_def)
next
  case (Some s)
  show ?thesis
  proof (cases "sub_chan s")
    case Nil
    with Some inv show ?thesis by (simp add: bus_receive_def)
  next
    case (Cons e es)
    have len: "length es < sub_cap s" using bus_invD(3) [OF inv Some] Cons by simp
    have heap: "aget (bus_heap (fst (bus_receive a b))) x =
        (if x = a then Some (s\<lparr>sub_chan := es\<rparr>) else aget (bus_heap b) x)" for x
      by (simp add: bus_receive_def Some Cons)
    have rest: "subs_of (fst (bus_receive a b)) k = subs_of b k"
        "bus_next (fst (bus_receive a b)) = bus_next b" for k
      by (simp_all add: bus_receive_def Some Cons)
    show ?thesis
      unfolding bus_inv_def heap rest
    proof (intro conjI allI impI)
      fix k x assume "x \<in> set (subs_of b k)"
      from bus_invD(1) [OF inv this]
      show "\<exists>t. (if x = a then Some (s\<lparr>sub_chan := es\<rparr>) else aget (bus_heap b) x) = Some t \<and>
          \<not> sub_closed t \<and> sub_job_id t = k" using Some by auto
    next
      fix k show "distinct (subs_of b k)" by (rule bus_invD(2) [OF inv])
    next
      fix x t assume "(if x = a then Some (s\<lparr>sub_chan := es\<rparr>) else aget (bus_heap b) x) = Some t"
      then show "x < bus_next b" "length (sub_chan t) \<le> sub_cap t" "0 < sub_cap t"
        using bus_invD(3) [OF inv, of x t] bus_invD(3) [OF inv Some] len
        by (auto split: if_splits)
    qed
  qed
qed

subsection \<open>Any use of the bus\<close>

datatype bus_op =
    Do_Publish time event | Do_Subscribe string int | Do_Unsubscribe nat | Do_Receive nat | Do_On_Drop

fun bus_do :: "bus_op \<Rightarrow> bus \<Rightarrow> bus outcome" where
  "bus_do (Do_Publish now e) b = bus_publish now e b"
| "bus_do (Do_Subscribe k n) b = Return (fst (bus_subscribe k n b))"
| "bus_do (Do_Unsubscribe a) b = Return (bus_unsubscribe a b)"
| "bus_do (Do_Receive a) b = Return (fst (bus_receive a b))"
| "bus_do Do_On_Drop b = Return (on_drop b)"

fun bus_run :: "bus_op list \<Rightarrow> bus \<Rightarrow> bus outcome" where
  "bus_run [] b = Return b"
| "bus_run (x # xs) b = (case bus_do x b of Panic r \<Rightarrow> Panic r | Return b' \<Rightarrow> bus_run xs b')"

lemma bus_publish_returns: "bus_inv b \<Longrightarrow> \<exists>b'. bus_publish now e b = Return b' \<and> bus_inv b'"
  using publish_result [of b now e] publish_inv by blast

lemma bus_do_inv: "bus_inv b \<Longrightarrow> \<exists>b'. bus_do x b = Return b' \<and> bus_inv b'"
  using bus_publish_returns [of b]
  by (cases x) (auto intro: subscribe_inv unsubscribe_inv receive_inv on_drop_inv)

lemma bus_run_inv: "bus_inv b \<Longrightarrow> \<exists>b'. bus_run xs b = Return b' \<and> bus_inv b'"
proof (induction xs arbitrary: b)
  case (Cons x xs)
  from bus_do_inv [OF Cons.prems, of x] obtain b1 where "bus_do x b = Return b1" "bus_inv b1" by blast
  with Cons.IH [of b1] show ?case by simp
qed simp

text \<open>
  The bus never panics and a publish reaches whom it should.  After any sequence of subscriptions,
  disconnects (repeated ones too), receives and publishes, a publish returns; every live subscriber
  of the job whose buffer has room gets the stamped event at the end of its buffer, a full one and
  everyone else is left exactly as it was, and the drop callback is called once per full buffer.
\<close>

lemma publish_delivers:
  "\<exists>b b'. bus_run ops new_in_process_bus = Return b \<and> bus_publish now e b = Return b' \<and>
     (\<forall>a. aget (bus_heap b') a =
        (if a \<in> set (subs_of b (ev_job_id e))
         then map_option (offered (stamp now e)) (aget (bus_heap b) a) else aget (bus_heap b) a)) \<and>
     bus_drop_calls b' = bus_drop_calls b @
        (if bus_drop_cb b then replicate (length (filter (\<lambda>a. is_full (the (aget (bus_heap b) a)))
           (subs_of b (ev_job_id e)))) (ev_job_id e) else [])"
proof -
  from bus_run_inv [OF new_bus_inv] obtain b where b: "bus_run ops new_in_process_bus = Return b" "bus_inv b"
    by blast
  from publish_result [OF b(2), of now e] b(1) show ?thesis by fastforce
qed

end
