(* ===== verification/File_Store.thy ===== *)
theory File_Store
  imports Job_Repository Event_Bus
begin

text \<open>
  \<open>internal/storage/filestore\<close>: jobs, event logs and artifacts as files, one directory per job.

  The disk maps a job directory's name to its files; a file has its bytes and a flag that says
  whether they have been synced.  Every system call can fail: an \<open>os_env\<close> says which ones do
  during one operation, how many bytes a failing write got through, and the random suffix of a
  temporary file.  The JSON codec of the standard library is an argument (\<open>json_codec\<close>).
  \<open>write_job\<close> is modelled as the list of disk states it goes through, so that a crash at any
  point is a member of that list with some unsynced bytes lost.
\<close>

subsection \<open>Files, system calls, the codec\<close>

record fnode =
  fbytes :: bytes
  synced :: bool

type_synonym dir = "(string, fnode) amap"

record fsys =
  fs_dirs :: "(string, dir) amap"
  fs_locked :: bool

datatype os_call =
    OsMkdirAll | OsLock | OsReadDir | OsReadFile | OsCreateTemp | OsWrite | OsSync | OsClose
  | OsRename | OsOpenLog | OsAppendLog | OsWriteFile

record os_env =
  os_fail :: "os_call \<Rightarrow> go_err option"
  os_wrote :: nat
  os_suffix :: string

definition no_faults :: os_env where
  "no_faults = \<lparr>os_fail = (\<lambda>_. None), os_wrote = 0, os_suffix = ''0''\<rparr>"

record json_codec =
  enc_job :: "job \<Rightarrow> bytes option"
  dec_job :: "bytes \<Rightarrow> job option"
  enc_event :: "event \<Rightarrow> bytes option"
  dec_event :: "bytes \<Rightarrow> event option"

definition job_file :: string where
  "job_file = ''job.json''"

definition events_file :: string where
  "events_file = ''events.jsonl''"

abbreviation newline :: char where
  "newline \<equiv> CHR 0x0A"

record store =
  st_fs :: fsys
  st_index :: "(string, job) amap"

definition wrap :: "string \<Rightarrow> go_err \<Rightarrow> go_err" where
  "wrap msg e = Errorf msg [FW e]"

lemma err_is_wrap [simp]: "err_is (wrap m e) s = err_is e s"
  by (simp add: wrap_def)

definition get_file :: "fsys \<Rightarrow> string \<Rightarrow> string \<Rightarrow> fnode option" where
  "get_file fs k n = (case aget (fs_dirs fs) k of None \<Rightarrow> None | Some d \<Rightarrow> aget d n)"

definition the_dir :: "fsys \<Rightarrow> string \<Rightarrow> dir" where
  "the_dir fs k = (case aget (fs_dirs fs) k of None \<Rightarrow> [] | Some d \<Rightarrow> d)"

definition put_dir :: "string \<Rightarrow> dir \<Rightarrow> fsys \<Rightarrow> fsys" where
  "put_dir k d fs = fs\<lparr>fs_dirs := aput k d (fs_dirs fs)\<rparr>"

definition mkdir :: "string \<Rightarrow> fsys \<Rightarrow> fsys" where
  "mkdir k fs = put_dir k (the_dir fs k) fs"

definition put_file :: "string \<Rightarrow> string \<Rightarrow> fnode \<Rightarrow> fsys \<Rightarrow> fsys" where
  "put_file k n f fs = put_dir k (aput n f (the_dir fs k)) fs"

definition del_file :: "string \<Rightarrow> string \<Rightarrow> fsys \<Rightarrow> fsys" where
  "del_file k n fs = put_dir k (adel n (the_dir fs k)) fs"

lemma get_file_simps [simp]:
  "get_file (mkdir k fs) k' n' = get_file fs k' n'"
  "get_file (put_file k n f fs) k' n' = (if k' = k \<and> n' = n then Some f else get_file fs k' n')"
  "get_file (del_file k n fs) k' n' = (if k' = k \<and> n' = n then None else get_file fs k' n')"
  by (auto simp: get_file_def mkdir_def put_file_def del_file_def put_dir_def the_dir_def
      split: option.splits)

lemma locked_simps [simp]:
  "fs_locked (mkdir k fs) = fs_locked fs" "fs_locked (put_file k n f fs) = fs_locked fs"
  "fs_locked (del_file k n fs) = fs_locked fs"
  by (simp_all add: mkdir_def put_file_def del_file_def put_dir_def)

subsection \<open>Identifiers and paths\<close>

definition valid_job_id :: "string \<Rightarrow> bool" where
  "valid_job_id k =
     (if k = [] \<or> length k > 128 then False
      else \<not> contains_any k [CHR ''/'', CHR 0x5C, CHR ''.''] \<and> CHR 0x00 \<notin> set k)"

definition job_dir :: "string \<Rightarrow> string \<Rightarrow> string" where
  "job_dir dir k = path_join [dir, ''jobs'', k]"

lemma valid_job_id_chars:
  assumes "valid_job_id k"
  shows "CHR ''/'' \<notin> set k" and "CHR ''.'' \<notin> set k"
  using assms unfolding valid_job_id_def contains_any_def list_ex_iff
  by (simp_all split: if_splits) blast+

lemma valid_job_id_plain:
  assumes "valid_job_id k"
  shows "plain_seg k"
proof -
  from assms have "k \<noteq> []" by (simp add: valid_job_id_def split: if_splits)
  moreover from valid_job_id_chars(2) [OF assms] have "k \<noteq> ''.''" "k \<noteq> ''..''" by force+
  ultimately show ?thesis using valid_job_id_chars(1) [OF assms] by (simp add: plain_seg_def)
qed

lemma valid_job_id_bounds: "valid_job_id k \<Longrightarrow> k \<noteq> [] \<and> length k \<le> 128 \<and> CHR 0x00 \<notin> set k"
  by (auto simp: valid_job_id_def split: if_splits)

definition artifact_name_ok :: "string \<Rightarrow> bool" where
  "artifact_name_ok n = (\<not> (n = [] \<or> contains_any n [CHR ''/'', CHR 0x5C] \<or> contains_str n ''..''))"

subsection \<open>Reading and writing the job record\<close>

definition read_job :: "json_codec \<Rightarrow> fsys \<Rightarrow> string \<Rightarrow> job option" where
  "read_job c fs k =
     (case get_file fs k job_file of None \<Rightarrow> None | Some f \<Rightarrow> dec_job c (fbytes f))"

text \<open>
  \<open>os.CreateTemp(dir, "job.json.tmp*")\<close>: a name with that prefix which no file of the directory
  has; a random suffix that is taken is retried, here by padding it.
\<close>

definition temp_name :: "os_env \<Rightarrow> dir \<Rightarrow> string" where
  "temp_name env d =
     (let n = job_file @ ''.tmp'' @ os_suffix env in
      if n \<notin> set (akeys d) then n
      else n @ replicate (Suc (sum_list (map length (akeys d)))) CHR ''0'')"

lemma temp_name_neq [simp]:
  "temp_name env d \<noteq> job_file" "job_file \<noteq> temp_name env d" "temp_name env d \<noteq> events_file"
  "events_file \<noteq> temp_name env d" "events_file \<noteq> job_file" "job_file \<noteq> events_file"
  by (simp_all add: temp_name_def Let_def job_file_def events_file_def)

lemma temp_name_fresh: "temp_name env d \<notin> set (akeys d)"
proof
  assume t: "temp_name env d \<in> set (akeys d)"
  then have "length (temp_name env d) \<le> sum_list (map length (akeys d))"
    by (intro member_le_sum_list) (force, simp)
  with t show False by (simp add: temp_name_def Let_def split: if_splits)
qed

lemma temp_name_get [simp]: "get_file fs k (temp_name env (the_dir fs k)) = None"
  by (simp add: get_file_def the_dir_def map_of_eq_None_iff temp_name_fresh [simplified] split: option.split)

text \<open>
  \<open>writeJob\<close>: the disk states it leaves behind after each system call, in order (the last one is
  the final state), and its error.  The deferred \<open>os.Remove\<close> of the temporary file is the last
  state of every path on which the file was created and not renamed.
\<close>

definition write_job_trace ::
    "json_codec \<Rightarrow> os_env \<Rightarrow> job \<Rightarrow> fsys \<Rightarrow> fsys list \<times> go_err option" where
  "write_job_trace c env j fs =
     (let k = job_id j; fs1 = mkdir k fs; tmp = temp_name env (the_dir fs k) in
      case os_fail env OsMkdirAll of
        Some e \<Rightarrow> ([fs], Some (wrap ''create job dir: %w'' e))
      | None \<Rightarrow>
        (case enc_job c j of
           None \<Rightarrow> ([fs, fs1], Some (Errorf ''encode job %s'' [FStr k]))
         | Some b \<Rightarrow>
           if os_fail env OsCreateTemp \<noteq> None
           then ([fs, fs1], Some (Errorf ''create temp job file'' []))
           else
             let fs2 = put_file k tmp \<lparr>fbytes = [], synced = False\<rparr> fs1;
                 part = put_file k tmp \<lparr>fbytes = take (os_wrote env) b, synced = False\<rparr> fs1;
                 fs3 = put_file k tmp \<lparr>fbytes = b, synced = False\<rparr> fs1;
                 fs4 = put_file k tmp \<lparr>fbytes = b, synced = True\<rparr> fs1;
                 gone = del_file k tmp fs1;
                 done = del_file k tmp (put_file k job_file \<lparr>fbytes = b, synced = True\<rparr> fs1)
             in case os_fail env OsWrite of
                  Some e \<Rightarrow> ([fs, fs1, fs2, part, gone], Some (wrap ''write job: %w'' e))
                | None \<Rightarrow>
                  (case os_fail env OsSync of
                     Some e \<Rightarrow> ([fs, fs1, fs2, fs3, gone], Some (wrap ''sync job: %w'' e))
                   | None \<Rightarrow>
                     (case os_fail env OsClose of
                        Some e \<Rightarrow> ([fs, fs1, fs2, fs3, fs4, gone], Some (wrap ''close job: %w'' e))
                      | None \<Rightarrow>
                        (case os_fail env OsRename of
                           Some e \<Rightarrow> ([fs, fs1, fs2, fs3, fs4, gone], Some (wrap ''commit job: %w'' e))
                         | None \<Rightarrow> ([fs, fs1, fs2, fs3, fs4, done], None))))))"

definition write_job :: "json_codec \<Rightarrow> os_env \<Rightarrow> job \<Rightarrow> fsys \<Rightarrow> fsys \<times> go_err option" where
  "write_job c env j fs =
     (case write_job_trace c env j fs of (tr, eo) \<Rightarrow> (last tr, eo))"

text \<open>
  What the store may look like after a crash: every file that was not synced holds some prefix of
  its bytes, synced files are intact, the kernel has released the lock.
\<close>

definition crash_file :: "fnode \<Rightarrow> fnode \<Rightarrow> bool" where
  "crash_file f f' = (if synced f then f' = f else has_prefix (fbytes f) (fbytes f'))"

definition crash_of :: "fsys \<Rightarrow> fsys \<Rightarrow> bool" where
  "crash_of fs fs' =
     (\<not> fs_locked fs' \<and>
      list_all2 (\<lambda>(k, d) (k', d'). k = k' \<and>
        list_all2 (\<lambda>(n, f) (n', f'). n = n' \<and> crash_file f f') d d') (fs_dirs fs) (fs_dirs fs'))"

subsection \<open>Opening the store\<close>

definition load_dir :: "json_codec \<Rightarrow> fsys \<Rightarrow> string \<Rightarrow> (string, job) amap \<Rightarrow> (string, job) amap" where
  "load_dir c fs k idx =
     (case read_job c fs k of None \<Rightarrow> idx | Some j \<Rightarrow> aput (job_id j) j idx)"

text \<open>\<open>os.ReadDir\<close> returns the entries sorted by name.\<close>

definition load_index :: "json_codec \<Rightarrow> fsys \<Rightarrow> (string, job) amap" where
  "load_index c fs = fold (load_dir c fs) (sort (akeys (fs_dirs fs))) []"

definition fs_new :: "json_codec \<Rightarrow> os_env \<Rightarrow> fsys \<Rightarrow> store result" where
  "fs_new c env fs =
     (case os_fail env OsMkdirAll of
        Some e \<Rightarrow> Inl (wrap ''create data dir: %w'' e)
      | None \<Rightarrow>
        if fs_locked fs \<or> os_fail env OsLock \<noteq> None
        then Inl (Errorf ''data dir is already in use by another rojo process'' [])
        else
          (case os_fail env OsReadDir of
             Some e \<Rightarrow> Inl (wrap ''read data dir: %w'' e)
           | None \<Rightarrow> Inr \<lparr>st_fs = fs\<lparr>fs_locked := True\<rparr>, st_index = load_index c fs\<rparr>))"

definition fs_close :: "store \<Rightarrow> fsys" where
  "fs_close s = (st_fs s)\<lparr>fs_locked := False\<rparr>"

definition fs_loaded :: "store \<Rightarrow> nat" where
  "fs_loaded s = length (st_index s)"

subsection \<open>The job repository\<close>

definition fs_create :: "json_codec \<Rightarrow> os_env \<Rightarrow> job \<Rightarrow> store \<Rightarrow> store \<times> go_err option" where
  "fs_create c env j s =
     (if \<not> valid_job_id (job_id j)
      then (s, Some (Errorf ''%w: %q'' [FW (Sentinel ErrInvalidJobID), FQ (job_id j)]))
      else if aget (st_index s) (job_id j) \<noteq> None then (s, Some (Sentinel ErrJobAlreadyExists))
      else (case write_job c env j (st_fs s) of
              (fs, Some e) \<Rightarrow> (s\<lparr>st_fs := fs\<rparr>, Some e)
            | (fs, None) \<Rightarrow>
                (s\<lparr>st_fs := fs, st_index := aput (job_id j) j (st_index s)\<rparr>, None)))"

definition fs_get :: "string \<Rightarrow> store \<Rightarrow> job result" where
  "fs_get k s =
     (case aget (st_index s) k of None \<Rightarrow> Inl (Sentinel ErrJobNotFound) | Some j \<Rightarrow> Inr j)"

definition fs_update :: "json_codec \<Rightarrow> os_env \<Rightarrow> job \<Rightarrow> store \<Rightarrow> store \<times> go_err option" where
  "fs_update c env j s =
     (if aget (st_index s) (job_id j) = None then (s, Some (Sentinel ErrJobNotFound))
      else (case write_job c env j (st_fs s) of
              (fs, Some e) \<Rightarrow> (s\<lparr>st_fs := fs\<rparr>, Some e)
            | (fs, None) \<Rightarrow>
                (s\<lparr>st_fs := fs, st_index := aput (job_id j) j (st_index s)\<rparr>, None)))"

definition fs_list :: "store \<Rightarrow> job list" where
  "fs_list s = sort_jobs (map snd (st_index s))"

subsection \<open>Event logs\<close>

definition log_bytes :: "store \<Rightarrow> string \<Rightarrow> bytes" where
  "log_bytes s k = (case get_file (st_fs s) k events_file of None \<Rightarrow> [] | Some f \<Rightarrow> fbytes f)"

definition fs_append :: "json_codec \<Rightarrow> os_env \<Rightarrow> event \<Rightarrow> store \<Rightarrow> store \<times> go_err option" where
  "fs_append c env e s =
     (let k = ev_job_id e; s1 = s\<lparr>st_fs := mkdir k (st_fs s)\<rparr> in
      if \<not> valid_job_id k
      then (s, Some (Errorf ''%w: %q'' [FW (Sentinel ErrInvalidJobID), FQ k]))
      else case os_fail env OsMkdirAll of
        Some x \<Rightarrow> (s, Some (wrap ''create job dir: %w'' x))
      | None \<Rightarrow>
        (case enc_event c e of
           None \<Rightarrow> (s1, Some (Errorf ''encode event'' []))
         | Some line \<Rightarrow>
           (case os_fail env OsOpenLog of
              Some x \<Rightarrow> (s1, Some (wrap ''open event log: %w'' x))
            | None \<Rightarrow>
              (case os_fail env OsAppendLog of
                 Some x \<Rightarrow>
                   (s1\<lparr>st_fs := put_file k events_file
                        \<lparr>fbytes = log_bytes s k @ take (os_wrote env) (line @ [newline]), synced = False\<rparr>
                        (st_fs s1)\<rparr>, Some (wrap ''append event: %w'' x))
               | None \<Rightarrow>
                   (s1\<lparr>st_fs := put_file k events_file
                        \<lparr>fbytes = log_bytes s k @ line @ [newline], synced = False\<rparr>
                        (st_fs s1)\<rparr>, None)))))"

definition parse_log :: "json_codec \<Rightarrow> bytes \<Rightarrow> event list" where
  "parse_log c bs =
     List.map_filter (\<lambda>line. if trim_space line = [] then None else dec_event c line)
       (split_on newline bs)"

definition fs_history :: "json_codec \<Rightarrow> os_env \<Rightarrow> string \<Rightarrow> store \<Rightarrow> event list result" where
  "fs_history c env k s =
     (if \<not> valid_job_id k
      then Inl (Errorf ''%w: %q'' [FW (Sentinel ErrInvalidJobID), FQ k])
      else case get_file (st_fs s) k events_file of
        None \<Rightarrow> Inr []
      | Some f \<Rightarrow>
          (case os_fail env OsReadFile of
             Some e \<Rightarrow> Inl (wrap ''read event log: %w'' e)
           | None \<Rightarrow> Inr (parse_log c (fbytes f))))"

subsection \<open>Artifacts and the health probe\<close>

definition fs_write_artifact :: "os_env \<Rightarrow> string \<Rightarrow> string \<Rightarrow> bytes \<Rightarrow> store \<Rightarrow> store \<times> go_err option" where
  "fs_write_artifact env k n data s =
     (let s1 = s\<lparr>st_fs := mkdir k (st_fs s)\<rparr> in
      if \<not> valid_job_id k
      then (s, Some (Errorf ''%w: %q'' [FW (Sentinel ErrInvalidJobID), FQ k]))
      else if \<not> artifact_name_ok n then (s, Some (Errorf ''invalid artifact name %q'' [FQ n]))
      else case os_fail env OsMkdirAll of
        Some e \<Rightarrow> (s, Some (wrap ''create job dir: %w'' e))
      | None \<Rightarrow>
        (case os_fail env OsWriteFile of
           Some e \<Rightarrow>
             (s1\<lparr>st_fs := put_file k n \<lparr>fbytes = take (os_wrote env) data, synced = False\<rparr> (st_fs s1)\<rparr>,
              Some (wrap ''write artifact: %w'' e))
         | None \<Rightarrow>
             (s1\<lparr>st_fs := put_file k n \<lparr>fbytes = data, synced = False\<rparr> (st_fs s1)\<rparr>, None)))"

definition fs_read_artifact :: "os_env \<Rightarrow> string \<Rightarrow> string \<Rightarrow> store \<Rightarrow> bytes result" where
  "fs_read_artifact env k n s =
     (if \<not> valid_job_id k
      then Inl (Errorf ''%w: %q'' [FW (Sentinel ErrInvalidJobID), FQ k])
      else if \<not> artifact_name_ok n then Inl (Errorf ''invalid artifact name %q'' [FQ n])
      else case os_fail env OsReadFile of
        Some e \<Rightarrow> Inl e
      | None \<Rightarrow>
          (case get_file (st_fs s) k n of
             None \<Rightarrow> Inl (Sentinel ErrNotExist)
           | Some f \<Rightarrow> Inr (fbytes f)))"

text \<open>\<open>Health\<close> creates, writes, closes and removes a probe file of its own: no job file changes.\<close>

definition fs_health :: "os_env \<Rightarrow> go_err option" where
  "fs_health env =
     (if os_fail env OsCreateTemp \<noteq> None then Some (Errorf ''data dir is not writable'' [])
      else if os_fail env OsWrite \<noteq> None then Some (Errorf ''data dir is not writable'' [])
      else if os_fail env OsClose \<noteq> None then Some (Errorf ''data dir write could not be completed'' [])
      else None)"

end
