(* ===== verification/File_Store_Props.thy ===== *)
theory File_Store_Props
  imports File_Store
begin

text \<open>
  What the filesystem store guarantees: it is a job repository (an interpretation of the
  interface locale), its index agrees with the disk, a crash in the middle of a write leaves
  every job either as it was or as it was about to be, reopening rebuilds the index, event
  histories are append-only, and no identifier leaves the data directory.
\<close>

subsection \<open>The store as a job repository\<close>

interpretation fs: job_repository "fs_create c env" fs_get "fs_update c env" fs_list
    "\<lambda>s. keyed (st_index s)" "\<lambda>s. aget (st_index s)" for c env
proof (unfold_locales, goal_cases)
  case (1 r k)
  show ?case by (simp add: fs_get_def)
next
  case (8 r)
  then show ?case by (simp add: fs_list_def keyed_listing)
next
  case (9 r)
  then show ?case using keyed_distinct by (simp add: fs_list_def distinct_ids_sort)
next
  case (10 r)
  show ?case by (simp add: fs_list_def)
qed (auto simp: fs_create_def fs_update_def keyed_aget
      split: if_splits prod.splits option.splits)

subsection \<open>What a write leaves on disk\<close>

lemma trace_ne [simp]: "fst (write_job_trace c env j fs) \<noteq> []"
  by (simp add: write_job_trace_def Let_def split: option.split)

lemma trace_cases:
  assumes "fs' \<in> set (fst (write_job_trace c env j fs))"
    and "get_file fs' k n \<noteq> get_file fs k n"
  shows "k = job_id j \<and> (n = temp_name env (the_dir fs k) \<or>
    n = job_file \<and> (\<exists>b. enc_job c j = Some b \<and>
       get_file fs' k n = Some \<lparr>fbytes = b, synced = True\<rparr>))"
  using assms
  by (auto simp: write_job_trace_def Let_def split: option.splits if_splits)

lemma trace_final:
  assumes "write_job_trace c env j fs = (tr, eo)"
  shows "get_file (last tr) k n =
    (if k = job_id j \<and> n = job_file \<and> eo = None
     then map_option (\<lambda>b. \<lparr>fbytes = b, synced = True\<rparr>) (enc_job c j)
     else get_file fs k n)"
  using assms
  by (auto simp: write_job_trace_def Let_def split: option.splits if_splits)

lemma trace_ok_enc: "write_job_trace c env j fs = (tr, None) \<Longrightarrow> \<exists>b. enc_job c j = Some b"
  by (auto simp: write_job_trace_def Let_def split: option.splits if_splits)

lemma trace_locked:
  "fs' \<in> set (fst (write_job_trace c env j fs)) \<Longrightarrow> fs_locked fs' = fs_locked fs"
  by (auto simp: write_job_trace_def Let_def split: option.splits if_splits)

lemma write_job_ok:
  assumes "write_job c env j fs = (fs', None)"
  shows "\<exists>b. enc_job c j = Some b \<and> (\<forall>k n. get_file fs' k n =
    (if k = job_id j \<and> n = job_file then Some \<lparr>fbytes = b, synced = True\<rparr> else get_file fs k n))"
proof -
  obtain tr where tr: "write_job_trace c env j fs = (tr, None)" and fs': "fs' = last tr"
    using assms by (auto simp: write_job_def split: prod.splits)
  from trace_ok_enc [OF tr] obtain b where "enc_job c j = Some b" by blast
  with trace_final [OF tr] fs' show ?thesis by auto
qed

lemma write_job_err:
  assumes "write_job c env j fs = (fs', Some e)"
  shows "get_file fs' k n = get_file fs k n"
  using assms trace_final [of c env j fs] by (auto simp: write_job_def split: prod.splits)

subsection \<open>The index mirrors the disk\<close>

text \<open>
  Every indexed job is on disk, synced, as bytes that decode to it; and every job record on disk
  lies in the directory named by its own id.
\<close>

definition durable :: "json_codec \<Rightarrow> fsys \<Rightarrow> job \<Rightarrow> bool" where
  "durable c fs j =
     (\<exists>b. get_file fs (job_id j) job_file = Some \<lparr>fbytes = b, synced = True\<rparr> \<and> dec_job c b = Some j)"

definition index_inv :: "json_codec \<Rightarrow> store \<Rightarrow> bool" where
  "index_inv c s =
     (keyed (st_index s) \<and> (\<forall>k j. aget (st_index s) k = Some j \<longrightarrow> durable c (st_fs s) j))"

definition json_exact :: "json_codec \<Rightarrow> job \<Rightarrow> bool" where
  "json_exact c j = (\<exists>b. enc_job c j = Some b \<and> dec_job c b = Some j)"

lemma index_invD: "index_inv c s \<Longrightarrow> aget (st_index s) k = Some j \<Longrightarrow> durable c (st_fs s) j"
  by (auto simp: index_inv_def)

lemma write_job_durable:
  assumes "write_job c env j fs = (fs', None)" and "json_exact c j"
  shows "durable c fs' j"
  using write_job_ok [OF assms(1)] assms(2) by (auto simp: durable_def json_exact_def)

lemma write_job_durable_frame:
  assumes "write_job c env j fs = (fs', eo)" and "durable c fs j'" and "eo = None \<longrightarrow> job_id j' \<noteq> job_id j"
  shows "durable c fs' j'"
proof (cases eo)
  case None
  with assms write_job_ok [of c env j fs fs'] show ?thesis by (auto simp: durable_def)
next
  case (Some e)
  with assms(1) have "get_file fs' (job_id j') job_file = get_file fs (job_id j') job_file"
    by (simp add: write_job_err)
  with assms(2) show ?thesis by (simp add: durable_def)
qed

lemma write_job_index_inv:
  assumes inv: "index_inv c s" and w: "write_job c env j (st_fs s) = (fs', None)"
    and x: "json_exact c j"
  shows "index_inv c (s\<lparr>st_fs := fs', st_index := aput (job_id j) j (st_index s)\<rparr>)"
  unfolding index_inv_def
proof (intro conjI allI impI, goal_cases)
  case 1
  with inv show ?case by (simp add: index_inv_def)
next
  case (2 k j')
  show ?case
  proof (cases "k = job_id j")
    case True
    with 2 write_job_durable [OF w x] show ?thesis by simp
  next
    case False
    with 2 have j': "aget (st_index s) k = Some j'" by simp
    moreover from j' inv have "job_id j' = k" by (auto simp: index_inv_def keyed_aget)
    ultimately show ?thesis
      using write_job_durable_frame [OF w index_invD [OF inv j']] False by simp
  qed
qed

lemma write_job_failed_index_inv:
  assumes "index_inv c s" and "write_job c env j (st_fs s) = (fs', Some e)"
  shows "index_inv c (s\<lparr>st_fs := fs'\<rparr>)"
  using assms write_job_durable_frame [OF assms(2)]
  by (auto simp: index_inv_def)

lemma fs_create_index_inv [inv_intros]:
  "index_inv c s \<Longrightarrow> json_exact c j \<Longrightarrow> index_inv c (fst (fs_create c env j s))"
  by (auto simp: fs_create_def write_job_index_inv write_job_failed_index_inv
      split: prod.split option.split)

lemma fs_update_index_inv [inv_intros]:
  "index_inv c s \<Longrightarrow> json_exact c j \<Longrightarrow> index_inv c (fst (fs_update c env j s))"
  by (auto simp: fs_update_def write_job_index_inv write_job_failed_index_inv
      split: prod.split option.split)

lemma durable_frame:
  assumes "\<And>k. get_file fs' k job_file = get_file fs k job_file"
  shows "durable c fs' j = durable c fs j"
  using assms by (simp add: durable_def)

lemma fs_append_job_files:
  "get_file (st_fs (fst (fs_append c env e s))) k job_file = get_file (st_fs s) k job_file"
  "st_index (fst (fs_append c env e s)) = st_index s"
  by (auto simp: fs_append_def Let_def split: option.split)

lemma fs_append_index_inv [inv_intros]: "index_inv c s \<Longrightarrow> index_inv c (fst (fs_append c env e s))"
  using durable_frame [OF fs_append_job_files(1)]
  by (auto simp: index_inv_def fs_append_job_files)

lemma fs_write_artifact_files:
  "n \<noteq> m \<Longrightarrow> get_file (st_fs (fst (fs_write_artifact env k n data s))) k' m = get_file (st_fs s) k' m"
  "st_index (fst (fs_write_artifact env k n data s)) = st_index s"
  by (auto simp: fs_write_artifact_def Let_def split: option.split)

lemma fs_write_artifact_index_inv [inv_intros]:
  "index_inv c s \<Longrightarrow> n \<noteq> job_file \<Longrightarrow> index_inv c (fst (fs_write_artifact env k n data s))"
  using durable_frame [OF fs_write_artifact_files(1)]
  by (auto simp: index_inv_def fs_write_artifact_files)

subsection \<open>Crashes\<close>

lemma crash_list_lookup:
  assumes "list_all2 (\<lambda>(k, a) (k', b). k = k' \<and> R a b) m m'"
  shows "rel_option R (aget m k) (aget m' k)"
  using assms by (induction m m' rule: list_all2_induct) auto

lemma crash_get_file:
  assumes "crash_of fs fs'"
  shows "rel_option crash_file (get_file fs k n) (get_file fs' k n)"
proof -
  have "list_all2 (\<lambda>(k, d) (k', d'). k = k' \<and>
      list_all2 (\<lambda>(n, f) (n', f'). n = n' \<and> crash_file f f') d d') (fs_dirs fs) (fs_dirs fs')"
    using assms by (simp add: crash_of_def)
  from crash_list_lookup [OF this, of k] show ?thesis
    by (auto simp: get_file_def rel_option_iff split: option.splits
        dest: crash_list_lookup [where k = n])
qed

lemma crash_synced:
  assumes "crash_of fs fs'" and "get_file fs k n = Some f" and "synced f"
  shows "get_file fs' k n = Some f"
  using crash_get_file [OF assms(1), of k n] assms(2,3)
  by (auto simp: crash_file_def rel_option_iff split: option.splits)

lemma crash_durable: "crash_of fs fs' \<Longrightarrow> durable c fs j \<Longrightarrow> durable c fs' j"
  by (auto simp: durable_def dest: crash_synced)

lemma durable_read: "durable c fs j \<Longrightarrow> read_job c fs (job_id j) = Some j"
  by (auto simp: durable_def read_job_def)

text \<open>
  The atomicity of \<open>writeJob\<close>: whatever system call fails and whenever the machine stops, the
  written job's record is the old one or the new one, and every other job's record is intact.
\<close>

lemma crash_atomic:
  assumes inv: "index_inv c s" and x: "json_exact c j"
    and old: "aget (st_index s) k = Some j0"
    and step: "fs' \<in> set (fst (write_job_trace c env j (st_fs s)))" and crash: "crash_of fs' fs''"
  shows "read_job c fs'' k = Some j0 \<or> k = job_id j \<and> read_job c fs'' k = Some j"
proof -
  have j0: "job_id j0 = k" using inv old by (auto simp: index_inv_def keyed_aget)
  show ?thesis
  proof (cases "get_file fs' k job_file = get_file (st_fs s) k job_file")
    case True
    then have "durable c fs' j0"
      using index_invD [OF inv old] j0 by (auto simp: durable_def)
    then have "read_job c fs'' (job_id j0) = Some j0"
      using crash durable_read crash_durable by blast
    with j0 show ?thesis by simp
  next
    case False
    from trace_cases [OF step False] obtain b where
      k: "k = job_id j" and b: "enc_job c j = Some b"
        "get_file fs' k job_file = Some \<lparr>fbytes = b, synced = True\<rparr>" by auto
    with x have "durable c fs' j" by (auto simp: durable_def json_exact_def)
    then have "read_job c fs'' (job_id j) = Some j"
      using crash durable_read crash_durable by blast
    with k show ?thesis by simp
  qed
qed

subsection \<open>Reopening\<close>

text \<open>Job records lie in the directory named by their own id.\<close>

definition filed :: "json_codec \<Rightarrow> fsys \<Rightarrow> bool" where
  "filed c fs = (\<forall>k j. read_job c fs k = Some j \<longrightarrow> job_id j = k)"

lemma load_fold:
  assumes "filed c fs"
  shows "aget (fold (load_dir c fs) ks idx) k =
    (if k \<in> set ks \<and> read_job c fs k \<noteq> None then read_job c fs k else aget idx k)"
proof (induction ks arbitrary: idx)
  case Nil
  then show ?case by simp
next
  case (Cons a ks)
  have "aget (load_dir c fs a idx) k = (if k = a \<and> read_job c fs a \<noteq> None then read_job c fs k else aget idx k)"
    using assms by (auto simp: load_dir_def filed_def split: option.split)
  with Cons show ?case by auto
qed

lemma read_job_dir: "read_job c fs k \<noteq> None \<Longrightarrow> k \<in> set (akeys (fs_dirs fs))"
  by (auto simp: read_job_def get_file_def split: option.splits dest: map_of_SomeD
      intro: image_eqI [rotated])

lemma load_index_read: "filed c fs \<Longrightarrow> aget (load_index c fs) k = read_job c fs k"
  using read_job_dir [of c fs k]
  by (cases "read_job c fs k") (simp_all add: load_index_def load_fold)

lemma load_fold_keyed: "keyed idx \<Longrightarrow> keyed (fold (load_dir c fs) ks idx)"
  by (induction ks arbitrary: idx) (auto simp: load_dir_def split: option.split)

lemma load_index_keyed: "keyed (load_index c fs)"
  by (simp add: load_index_def load_fold_keyed)

lemma fs_new_index:
  assumes "fs_new c env fs = Inr s"
  shows "keyed (st_index s)" and "filed c fs \<Longrightarrow> aget (st_index s) k = read_job c fs k"
    and "fs_locked (st_fs s)" and "\<not> fs_locked fs" and "fs_dirs (st_fs s) = fs_dirs fs"
  using assms
  by (auto simp: fs_new_def load_index_keyed load_index_read split: option.splits if_splits)

lemma fs_new_succeeds:
  "\<not> fs_locked fs \<Longrightarrow> fs_new c no_faults fs =
     Inr \<lparr>st_fs = fs\<lparr>fs_locked := True\<rparr>, st_index = load_index c fs\<rparr>"
  by (simp add: fs_new_def no_faults_def)

subsection \<open>Event histories\<close>

text \<open>What \<open>json.Marshal\<close> documents of its output: one line, not blank, that decodes again.\<close>

definition event_line :: "json_codec \<Rightarrow> event \<Rightarrow> event \<Rightarrow> bool" where
  "event_line c e e' =
     (case enc_event c e of
        None \<Rightarrow> False
      | Some l \<Rightarrow> newline \<notin> set l \<and> trim_space l \<noteq> [] \<and> dec_event c l = Some e')"

text \<open>Every append so far was complete: the log is empty or ends with its newline.\<close>

definition log_whole :: "bytes \<Rightarrow> bool" where
  "log_whole bs = (bs = [] \<or> last bs = newline)"

lemma parse_log_Nil [simp]: "parse_log c [] = []"
  by (simp add: parse_log_def map_filter_simps)

lemma map_filter_append [simp]:
  "List.map_filter f (xs @ ys) = List.map_filter f xs @ List.map_filter f ys"
  by (simp add: List.map_filter_def)

lemma parse_log_sep: "parse_log c (a @ newline # b) = parse_log c a @ parse_log c b"
  by (simp add: parse_log_def split_on_append_sep)

lemma parse_log_line:
  "enc_event c e = Some l \<Longrightarrow> event_line c e e' \<Longrightarrow> parse_log c (l @ [newline]) = [e']"
  using parse_log_sep [of c l "[]"]
  by (simp add: event_line_def) (simp add: parse_log_def split_on_nosep map_filter_simps)

lemma parse_log_append_whole:
  assumes "log_whole bs"
  shows "parse_log c (bs @ t) = parse_log c bs @ parse_log c t"
proof (cases bs rule: rev_cases)
  case (snoc a x)
  with assms have "bs = a @ [newline]" by (simp add: log_whole_def)
  with parse_log_sep [of c a t] parse_log_sep [of c a "[]"] show ?thesis by simp
qed simp

lemma fs_append_ok:
  assumes "fs_append c env e s = (s', None)"
  shows "\<exists>l. enc_event c e = Some l \<and> valid_job_id (ev_job_id e) \<and>
    (\<forall>k. log_bytes s' k = (if k = ev_job_id e then log_bytes s k @ l @ [newline] else log_bytes s k))"
  using assms
  by (auto simp: fs_append_def Let_def log_bytes_def split: if_splits option.splits)

lemma history_parse:
  "valid_job_id k \<Longrightarrow> fs_history c no_faults k s = Inr (parse_log c (log_bytes s k))"
  by (simp add: fs_history_def no_faults_def log_bytes_def split: option.split)

lemma fs_append_whole:
  assumes "fs_append c env e s = (s', None)" and "log_whole (log_bytes s k)"
  shows "log_whole (log_bytes s' k)"
  using fs_append_ok [OF assms(1)] assms(2) by (auto simp: log_whole_def)

text \<open>A completed append adds exactly its event, at the end of its own job's history.\<close>

lemma history_append:
  assumes app: "fs_append c env e s = (s', None)" and whole: "log_whole (log_bytes s (ev_job_id e))"
    and line: "event_line c e e'" and k: "valid_job_id k"
  shows "fs_history c no_faults k s' = Inr (parse_log c (log_bytes s k) @ (if k = ev_job_id e then [e'] else []))"
proof -
  from fs_append_ok [OF app] obtain l where l: "enc_event c e = Some l"
    and lb: "\<And>k. log_bytes s' k = (if k = ev_job_id e then log_bytes s k @ l @ [newline] else log_bytes s k)"
    by blast
  show ?thesis
    using parse_log_append_whole [OF whole, of c "l @ [newline]"] parse_log_line [OF l line]
    by (auto simp: history_parse [OF k] lb)
qed

subsection \<open>Opening what a crash left\<close>

text \<open>
  The invariant of an open store: the index is exactly what the disk holds, and every job record on
  disk is synced.
\<close>

definition store_inv :: "json_codec \<Rightarrow> store \<Rightarrow> bool" where
  "store_inv c s =
     (keyed (st_index s) \<and> (\<forall>k. aget (st_index s) k = read_job c (st_fs s) k) \<and>
      (\<forall>k f. get_file (st_fs s) k job_file = Some f \<longrightarrow> synced f))"

lemma store_inv_filed: "store_inv c s \<Longrightarrow> filed c (st_fs s)"
  unfolding store_inv_def filed_def by (metis keyed_aget)

lemma read_job_cong:
  "get_file fs' k job_file = get_file fs k job_file \<Longrightarrow> read_job c fs' k = read_job c fs k"
  by (simp add: read_job_def)

lemma read_job_written:
  "enc_job c j = Some b \<Longrightarrow> json_exact c j \<Longrightarrow> get_file fs k job_file = Some \<lparr>fbytes = b, synced = s\<rparr> \<Longrightarrow>
     read_job c fs k = Some j"
  by (auto simp: read_job_def json_exact_def)

lemma write_job_store_inv:
  assumes inv: "store_inv c s" and w: "write_job c env j (st_fs s) = (fs', None)" and x: "json_exact c j"
  shows "store_inv c (s\<lparr>st_fs := fs', st_index := aput (job_id j) j (st_index s)\<rparr>)"
proof -
  from write_job_ok [OF w] obtain b where b: "enc_job c j = Some b" and
    g: "\<And>k n. get_file fs' k n =
      (if k = job_id j \<and> n = job_file then Some \<lparr>fbytes = b, synced = True\<rparr> else get_file (st_fs s) k n)"
    by blast
  have "read_job c fs' k = (if k = job_id j then Some j else read_job c (st_fs s) k)" for k
    using read_job_written [OF b x, of fs' k True] g by (auto intro: read_job_cong)
  with inv g show ?thesis by (auto simp: store_inv_def split: if_splits)
qed

lemma write_job_failed_store_inv:
  assumes "store_inv c s" and "write_job c env j (st_fs s) = (fs', Some e)"
  shows "store_inv c (s\<lparr>st_fs := fs'\<rparr>)"
  using assms write_job_err [OF assms(2)]
  by (auto simp: store_inv_def read_job_def)

lemma fs_create_store_inv [inv_intros]:
  "store_inv c s \<Longrightarrow> json_exact c j \<Longrightarrow> store_inv c (fst (fs_create c env j s))"
  by (auto simp: fs_create_def write_job_store_inv write_job_failed_store_inv
      split: prod.split option.split)

lemma fs_update_store_inv [inv_intros]:
  "store_inv c s \<Longrightarrow> json_exact c j \<Longrightarrow> store_inv c (fst (fs_update c env j s))"
  by (auto simp: fs_update_def write_job_store_inv write_job_failed_store_inv
      split: prod.split option.split)

lemma fs_append_store_inv [inv_intros]: "store_inv c s \<Longrightarrow> store_inv c (fst (fs_append c env e s))"
  by (simp add: store_inv_def fs_append_job_files read_job_def)

lemma fs_write_artifact_store_inv [inv_intros]:
  "store_inv c s \<Longrightarrow> n \<noteq> job_file \<Longrightarrow> store_inv c (fst (fs_write_artifact env k n data s))"
  by (simp add: store_inv_def fs_write_artifact_files read_job_def)

lemma fs_new_store_inv:
  assumes "fs_new c env fs = Inr s" and "filed c fs" and "\<forall>k f. get_file fs k job_file = Some f \<longrightarrow> synced f"
  shows "store_inv c s"
  using fs_new_index [OF assms(1)] assms(2,3)
  by (auto simp: store_inv_def get_file_def read_job_def)

text \<open>
  C5: a crash in the middle of a write never loses or mixes up a job.  Let the machine stop at any
  point of \<open>writeJob\<close>, whichever of its system calls fail, with unsynced bytes lost.  Opening the data
  directory again succeeds, the reopened store satisfies the invariant, every other job is exactly as
  it was, and the written job is either as it was before or as it was being written.
\<close>

theorem crash_recovers_old_or_new:
  assumes inv: "store_inv c s" and x: "json_exact c j"
    and step: "fs' \<in> set (fst (write_job_trace c env j (st_fs s)))" and crash: "crash_of fs' fs''"
  shows "\<exists>s'. fs_new c no_faults fs'' = Inr s' \<and> store_inv c s' \<and>
    (\<forall>k. aget (st_index s') k = aget (st_index s) k \<or> k = job_id j \<and> aget (st_index s') k = Some j)"
proof -
  have job: "get_file fs' k job_file = get_file (st_fs s) k job_file \<or>
      k = job_id j \<and> (\<exists>b. enc_job c j = Some b \<and> get_file fs' k job_file = Some \<lparr>fbytes = b, synced = True\<rparr>)" for k
    using trace_cases [OF step, of k job_file] by auto
  have sync: "synced f" if "get_file fs' k job_file = Some f" for k f
    using job [of k] that inv by (auto simp: store_inv_def)
  have same: "get_file fs'' k job_file = get_file fs' k job_file" for k
    using crash_get_file [OF crash, of k job_file] sync [of k]
    by (auto simp: rel_option_iff crash_file_def split: option.splits)
  have read: "read_job c fs'' k = read_job c (st_fs s) k \<or> k = job_id j \<and> read_job c fs'' k = Some j" for k
    using job [of k]
  proof
    assume "get_file fs' k job_file = get_file (st_fs s) k job_file"
    with same [of k] have "read_job c fs'' k = read_job c (st_fs s) k" by (intro read_job_cong) simp
    then show ?thesis ..
  next
    assume "k = job_id j \<and> (\<exists>b. enc_job c j = Some b \<and> get_file fs' k job_file = Some \<lparr>fbytes = b, synced = True\<rparr>)"
    then obtain b where "k = job_id j" "enc_job c j = Some b"
      "get_file fs'' k job_file = Some \<lparr>fbytes = b, synced = True\<rparr>" using same [of k] by auto
    with read_job_written [OF this(2) x this(3)] show ?thesis by simp
  qed
  have filed: "filed c fs''"
    unfolding filed_def
  proof (intro allI impI)
    fix k j' assume a: "read_job c fs'' k = Some j'"
    from read [of k] show "job_id j' = k"
      using a store_inv_filed [OF inv] by (auto simp: filed_def)
  qed
  let ?s = "\<lparr>st_fs = fs''\<lparr>fs_locked := True\<rparr>, st_index = load_index c fs''\<rparr>"
  have new: "fs_new c no_faults fs'' = Inr ?s"
    using crash by (intro fs_new_succeeds) (simp add: crash_of_def)
  have idx: "aget (st_index ?s) k = read_job c fs'' k" for k using load_index_read [OF filed] by simp
  have si: "store_inv c ?s"
    by (rule fs_new_store_inv [OF new filed]) (use same sync in auto)
  have "aget (st_index ?s) k = aget (st_index s) k \<or> k = job_id j \<and> aget (st_index ?s) k = Some j" for k
    using idx [of k] read [of k] inv by (simp add: store_inv_def)
  with new si show ?thesis by blast
qed

subsection \<open>Paths\<close>

lemma artifact_name_plain:
  assumes "artifact_name_ok n" and "n \<noteq> ''.''"
  shows "plain_seg n"
proof -
  from assms(1) have "n \<noteq> []" "CHR ''/'' \<notin> set n"
    unfolding artifact_name_ok_def contains_any_def list_ex_iff by auto
  moreover have "n \<noteq> ''..''" using assms(1) by (auto simp: artifact_name_ok_def has_prefix_def)
  ultimately show ?thesis using assms(2) by (simp add: plain_seg_def)
qed

text \<open>
  No identifier and no artifact name leaves the data directory.  For a data directory given as a
  clean absolute path, the file of every accepted job id and artifact name lies directly in that job's
  directory under \<open>jobs\<close>, and the ids \<open>..\<close>, \<open>.\<close>, those with a separator and the empty one are refused.
\<close>

lemma store_paths_contained:
  assumes "list_all plain_seg rs" and "rs \<noteq> []" and "valid_job_id k" and "artifact_name_ok n" and "n \<noteq> ''.''"
  shows "path_join [job_dir (slash # unsegs rs) k, n] = slash # unsegs (rs @ [''jobs'', k, n])"
proof -
  have jobs: "plain_seg ''jobs''" by (simp add: plain_seg_def)
  have k: "plain_seg k" by (rule valid_job_id_plain [OF assms(3)])
  have n: "plain_seg n" by (rule artifact_name_plain [OF assms(4,5)])
  have "path_join [slash # unsegs rs, ''jobs'', k] = path_join [slash # unsegs rs, unsegs [''jobs'', k]]"
    using k by (auto simp: path_join_def plain_seg_def)
  also have "\<dots> = slash # unsegs (rs @ [''jobs'', k])"
    using assms(1,2) jobs k by (intro path_join_below) auto
  finally have d: "job_dir (slash # unsegs rs) k = slash # unsegs (rs @ [''jobs'', k])"
    by (simp add: job_dir_def)
  have "path_join [slash # unsegs (rs @ [''jobs'', k]), unsegs [n]] = slash # unsegs ((rs @ [''jobs'', k]) @ [n])"
    using assms(1) jobs k n by (intro path_join_below) auto
  then show ?thesis by (simp add: d)
qed

theorem store_paths_contained_witness:
  "path_join [job_dir ''/data'' ''a1'', ''patch.diff''] = ''/data/jobs/a1/patch.diff''"
proof -
  have "list_all plain_seg [''data'']" "valid_job_id ''a1''" "artifact_name_ok ''patch.diff''"
    by (simp_all add: plain_seg_def valid_job_id_def artifact_name_ok_def contains_any_def has_prefix_def)
  from store_paths_contained [OF this(1) _ this(2,3)] show ?thesis by simp
qed

subsection \<open>Concrete runs\<close>

definition sample_job :: job where
  "sample_job = \<lparr>job_id = ''a1'', task = ''tidy'', repo_path = ''/r'', status = StatusQueued,
     created_at = 5, updated_at = 5\<rparr>"

definition job_codec :: json_codec where
  "job_codec =
     \<lparr>enc_job = (\<lambda>j. Some (status_string (status j))),
      dec_job = (\<lambda>b. if b = ''queued'' then Some sample_job
                     else if b = ''planning'' then Some (sample_job\<lparr>status := StatusPlanning\<rparr>) else None),
      enc_event = (\<lambda>_. None), dec_event = (\<lambda>_. None)\<rparr>"

definition sample_store :: store where
  "sample_store = fst (fs_create job_codec no_faults sample_job
     \<lparr>st_fs = \<lparr>fs_dirs = [], fs_locked = True\<rparr>, st_index = []\<rparr>)"

lemma job_codec_exact: "json_exact job_codec sample_job"
    "json_exact job_codec (sample_job\<lparr>status := StatusPlanning\<rparr>)"
  by (simp_all add: json_exact_def job_codec_def sample_job_def)

lemma sample_store_inv: "store_inv job_codec sample_store"
  unfolding sample_store_def
  by (rule fs_create_store_inv [OF _ job_codec_exact(1)])
    (simp add: store_inv_def read_job_def get_file_def)

text \<open>The crash falls between the write of the temporary file and its rename.\<close>

definition half_written :: fsys where
  "half_written = fst (write_job_trace job_codec no_faults (sample_job\<lparr>status := StatusPlanning\<rparr>)
     (st_fs sample_store)) ! 3"

theorem crash_recovers_old_or_new_witness:
  "\<exists>s'. fs_new job_codec no_faults (half_written\<lparr>fs_locked := False\<rparr>) = Inr s' \<and> store_inv job_codec s'"
proof -
  have step: "half_written \<in> set (fst (write_job_trace job_codec no_faults (sample_job\<lparr>status := StatusPlanning\<rparr>)
      (st_fs sample_store)))"
    unfolding half_written_def by (rule nth_mem) code_simp
  have crash: "crash_of half_written (half_written\<lparr>fs_locked := False\<rparr>)"
    by (auto simp: crash_of_def crash_file_def has_prefix_def list_all2_conv_all_nth split: prod.split)
  from crash_recovers_old_or_new [OF sample_store_inv job_codec_exact(2) step crash] show ?thesis by blast
qed

end
