(* ===== verification/Persisting_Bus.thy ===== *)
theory Persisting_Bus
  imports File_Store_Props
begin

text \<open>
  \<open>internal/events/store.go\<close>: the bus that appends an event to its job's log on disk before it
  hands it to the live subscribers, composed from the file store and the in-process bus.
\<close>

subsection \<open>Publishing\<close>

record persisting_bus =
  pb_inner :: bus
  pb_store :: store

text \<open>
  The event is stamped first, so that the stored copy and the delivered copy are the same value.
  A failed append ends the call before the fan-out.
\<close>

definition pb_publish ::
    "json_codec \<Rightarrow> os_env \<Rightarrow> time \<Rightarrow> event \<Rightarrow> persisting_bus \<Rightarrow>
     persisting_bus \<times> go_err option outcome" where
  "pb_publish c env now e0 p =
     (let e = stamp now e0 in
      case fs_append c env e (pb_store p) of
        (st, Some x) \<Rightarrow>
          (p\<lparr>pb_store := st\<rparr>,
           Return (Some (Errorf ''persist event %s for job %s: %w''
             [FStr (event_type_string (ev_type e)), FStr (ev_job_id e), FW x])))
      | (st, None) \<Rightarrow>
          (case bus_publish now e (pb_inner p) of
             Panic r \<Rightarrow> (p\<lparr>pb_store := st\<rparr>, Panic r)
           | Return b \<Rightarrow> (p\<lparr>pb_store := st, pb_inner := b\<rparr>, Return None)))"

definition pb_subscribe :: "string \<Rightarrow> int \<Rightarrow> persisting_bus \<Rightarrow> persisting_bus \<times> nat" where
  "pb_subscribe k n p = (case bus_subscribe k n (pb_inner p) of (b, a) \<Rightarrow> (p\<lparr>pb_inner := b\<rparr>, a))"

definition pb_unsubscribe :: "nat \<Rightarrow> persisting_bus \<Rightarrow> persisting_bus" where
  "pb_unsubscribe a p = p\<lparr>pb_inner := bus_unsubscribe a (pb_inner p)\<rparr>"

subsection \<open>Invariants\<close>

definition pb_inv :: "json_codec \<Rightarrow> persisting_bus \<Rightarrow> bool" where
  "pb_inv c p = (bus_inv (pb_inner p) \<and> index_inv c (pb_store p))"

text \<open>Publishing never panics on a bus in its invariant, and keeps both halves well formed.\<close>

lemma pb_publish_cases:
  assumes "bus_inv (pb_inner p)"
  obtains (failed) st x where "fs_append c env (stamp now e) (pb_store p) = (st, Some x)"
      "pb_publish c env now e p = (p\<lparr>pb_store := st\<rparr>,
         Return (Some (Errorf ''persist event %s for job %s: %w''
           [FStr (event_type_string (ev_type e)), FStr (ev_job_id e), FW x])))"
  | (sent) st b where "fs_append c env (stamp now e) (pb_store p) = (st, None)"
      "bus_publish now (stamp now e) (pb_inner p) = Return b" "bus_inv b"
      "pb_publish c env now e p = (p\<lparr>pb_store := st, pb_inner := b\<rparr>, Return None)"
proof (cases "fs_append c env (stamp now e) (pb_store p)")
  case (Pair st eo)
  show thesis
  proof (cases eo)
    case None
    from bus_publish_returns [OF assms] obtain b where
      "bus_publish now (stamp now e) (pb_inner p) = Return b" "bus_inv b" by blast
    with Pair None sent show thesis by (simp add: pb_publish_def Let_def)
  next
    case (Some x)
    with Pair failed show thesis by (simp add: pb_publish_def Let_def)
  qed
qed

lemma pb_publish_store:
  "pb_store (fst (pb_publish c env now e p)) = fst (fs_append c env (stamp now e) (pb_store p))"
  by (auto simp: pb_publish_def Let_def split: prod.split option.split outcome.split)

lemma pb_publish_index: "st_index (pb_store (fst (pb_publish c env now e p))) = st_index (pb_store p)"
  by (simp add: pb_publish_store fs_append_job_files)

lemma pb_publish_inv [inv_intros]:
  assumes "pb_inv c p"
  shows "pb_inv c (fst (pb_publish c env now e p))"
proof -
  from assms have b: "bus_inv (pb_inner p)" and i: "index_inv c (pb_store p)"
    by (simp_all add: pb_inv_def)
  have "bus_inv (pb_inner (fst (pb_publish c env now e p)))"
    using b by (cases rule: pb_publish_cases [OF b, of c env now e]) simp_all
  with i show ?thesis by (simp add: pb_inv_def pb_publish_store fs_append_index_inv)
qed

lemma pb_publish_no_panic:
  "bus_inv (pb_inner p) \<Longrightarrow> \<exists>eo. snd (pb_publish c env now e p) = Return eo"
  by (cases rule: pb_publish_cases [of p c env now e]) simp_all

subsection \<open>Live subscribers never see an event that history lacks\<close>

text \<open>The events a subscriber gained by a publish.\<close>

definition gained :: "bus \<Rightarrow> bus \<Rightarrow> nat \<Rightarrow> event list" where
  "gained b b' a =
     (case (aget (bus_heap b) a, aget (bus_heap b') a) of
        (Some s, Some s') \<Rightarrow> drop (length (sub_chan s)) (sub_chan s')
      | _ \<Rightarrow> [])"

lemma gained_self [simp]: "gained b b a = []"
  by (simp add: gained_def split: option.split)

lemma bus_publish_gained:
  assumes "bus_inv b" and "bus_publish now e b = Return b'"
  shows "gained b b' a =
    (if a \<in> set (subs_of b (ev_job_id e)) \<and> \<not> is_full (the (aget (bus_heap b) a))
     then [stamp now e] else [])"
proof -
  from publish_result [OF assms(1), of now e] assms(2) obtain h where
    b': "bus_heap b' = h" and
    h: "aget h a = (if a \<in> set (subs_of b (ev_job_id e))
         then map_option (offered (stamp now e)) (aget (bus_heap b) a) else aget (bus_heap b) a)"
    by auto
  show ?thesis
  proof (cases "a \<in> set (subs_of b (ev_job_id e))")
    case True
    from bus_invD(1) [OF assms(1) True] obtain s where "aget (bus_heap b) a = Some s" by blast
    with True h b' show ?thesis by (simp add: gained_def offered_def is_full_def)
  next
    case False
    with h b' show ?thesis by (simp add: gained_def split: option.split)
  qed
qed

text \<open>
  C6: whatever a publish delivers to any live subscriber is the stamped event, and it is then the
  last event of the job's replayable history, provided the log was whole; if the append failed,
  nothing is delivered at all.
\<close>

theorem delivered_is_persisted:
  assumes "bus_inv (pb_inner p)" and "pb_publish c env now e p = (p', r)"
    and "log_whole (log_bytes (pb_store p) (ev_job_id e))"
    and "event_line c (stamp now e) (stamp now e)"
    and "gained (pb_inner p) (pb_inner p') a \<noteq> []"
  shows "r = Return None \<and> gained (pb_inner p) (pb_inner p') a = [stamp now e] \<and>
    fs_history c no_faults (ev_job_id e) (pb_store p') =
      Inr (parse_log c (log_bytes (pb_store p) (ev_job_id e)) @ [stamp now e])"
  using assms(1)
proof (cases rule: pb_publish_cases [where c = c and env = env and now = now and e = e])
  case (failed st x)
  with assms(2,5) show ?thesis by auto
next
  case (sent st b)
  then have p': "pb_inner p' = b" "pb_store p' = st" "r = Return None" using assms(2) by auto
  have "valid_job_id (ev_job_id e)" using fs_append_ok [OF sent(1)] by auto
  with history_append [OF sent(1) _ assms(4), of "ev_job_id e"] assms(3)
  have hist: "fs_history c no_faults (ev_job_id e) st =
      Inr (parse_log c (log_bytes (pb_store p) (ev_job_id e)) @ [stamp now e])" by simp
  have "stamp now (stamp now e) = stamp now e" by (simp add: stamp_def)
  with bus_publish_gained [OF assms(1) sent(2), of a] assms(5) p' hist
  show ?thesis by (simp split: if_splits)
qed

subsection \<open>Concrete runs\<close>

definition sample_event :: event where
  "sample_event = \<lparr>ev_job_id = ''j'', ev_type = TypeJobStarted, ev_payload = [], ev_created_at = 7\<rparr>"

text \<open>A codec that is exact on the sample event.\<close>

definition sample_codec :: json_codec where
  "sample_codec =
     \<lparr>enc_job = (\<lambda>_. None), dec_job = (\<lambda>_. None),
      enc_event = (\<lambda>e. Some ''{}''), dec_event = (\<lambda>l. if l = ''{}'' then Some sample_event else None)\<rparr>"

definition sample_pb :: persisting_bus where
  "sample_pb =
     \<lparr>pb_inner = fst (bus_subscribe ''j'' 1 new_in_process_bus),
      pb_store = \<lparr>st_fs = \<lparr>fs_dirs = [], fs_locked = True\<rparr>, st_index = []\<rparr>\<rparr>"

lemma sample_pb_inv: "bus_inv (pb_inner sample_pb)"
  by (simp add: sample_pb_def subscribe_inv new_bus_inv)

theorem delivered_is_persisted_witness:
  "snd (pb_publish sample_codec no_faults 9 sample_event sample_pb) = Return None \<and>
   gained (pb_inner sample_pb)
     (pb_inner (fst (pb_publish sample_codec no_faults 9 sample_event sample_pb))) 0 = [sample_event]"
proof -
  let ?p = "pb_publish sample_codec no_faults 9 sample_event sample_pb"
  have st: "stamp 9 sample_event = sample_event" by (simp add: stamp_def sample_event_def)
  have whole: "log_whole (log_bytes (pb_store sample_pb) (ev_job_id sample_event))" by code_simp
  have line: "event_line sample_codec (stamp 9 sample_event) (stamp 9 sample_event)"
    unfolding st by (simp add: event_line_def sample_codec_def) code_simp
  have g: "gained (pb_inner sample_pb) (pb_inner (fst ?p)) 0 \<noteq> []" by code_simp
  from delivered_is_persisted [OF sample_pb_inv prod.collapse [symmetric] whole line g]
  show ?thesis by (simp add: st)
qed

text \<open>
  An append that got through only some of its bytes leaves a line without its end.  The next
  append reports success and the event is delivered, but it shares a line with the torn one and
  the history has neither.
\<close>

definition torn_env :: os_env where
  "torn_env = no_faults\<lparr>os_fail := (\<lambda>k. if k = OsAppendLog then Some (Errorf ''no space left on device'' []) else None),
     os_wrote := 1\<rparr>"


end
