(* ===== verification/Canceller.thy ===== *)
theory Canceller
  imports Rojo_Prelude
begin

text \<open>
  \<open>internal/orchestration/canceller.go\<close>: the table of running jobs and how to stop them.  A
  \<open>context.CancelFunc\<close> is named by a number, and calling it adds the number to the cancelled
  contexts; calling one twice has no further effect, as documented for \<open>context\<close>.
\<close>

record canceller =
  cn_cancels :: "(string, nat) amap"
  cn_cancelled :: "nat set"

definition new_canceller :: canceller where
  "new_canceller = \<lparr>cn_cancels = [], cn_cancelled = {}\<rparr>"

definition cn_track :: "string \<Rightarrow> nat \<Rightarrow> canceller \<Rightarrow> canceller" where
  "cn_track k f c = c\<lparr>cn_cancels := aput k f (cn_cancels c)\<rparr>"

definition cn_release :: "string \<Rightarrow> canceller \<Rightarrow> canceller" where
  "cn_release k c = c\<lparr>cn_cancels := adel k (cn_cancels c)\<rparr>"

definition cn_cancel :: "string \<Rightarrow> canceller \<Rightarrow> canceller \<times> go_err option" where
  "cn_cancel k c =
     (case aget (cn_cancels c) k of
        None \<Rightarrow> (c, Some (Sentinel ErrJobNotRunning))
      | Some f \<Rightarrow>
          (c\<lparr>cn_cancels := adel k (cn_cancels c), cn_cancelled := insert f (cn_cancelled c)\<rparr>, None))"

definition tracked :: "canceller \<Rightarrow> string \<Rightarrow> nat option" where
  "tracked c k = aget (cn_cancels c) k"

lemma tracked_simps [simp]:
  "tracked new_canceller k' = None"
  "tracked (cn_track k f c) k' = (if k' = k then Some f else tracked c k')"
  "tracked (cn_release k c) k' = (if k' = k then None else tracked c k')"
  "tracked (fst (cn_cancel k c)) k' = (if k' = k then None else tracked c k')"
  by (auto simp: tracked_def new_canceller_def cn_track_def cn_release_def cn_cancel_def
      split: option.split)

lemma cancelled_simps [simp]:
  "cn_cancelled (cn_track k f c) = cn_cancelled c"
  "cn_cancelled (cn_release k c) = cn_cancelled c"
  by (simp_all add: cn_track_def cn_release_def)

text \<open>
  Cancelling a job stops exactly its own context: it succeeds just when the job is tracked,
  fires that job's function and no other, and a second cancel of the job reports it as not running.
\<close>

lemma cancel_exactly_once:
  "case tracked c k of
     Some f \<Rightarrow> snd (cn_cancel k c) = None \<and>
       cn_cancelled (fst (cn_cancel k c)) = insert f (cn_cancelled c) \<and>
       snd (cn_cancel k (fst (cn_cancel k c))) = Some (Sentinel ErrJobNotRunning) \<and>
       (\<forall>k'. k' = k \<or> tracked (fst (cn_cancel k c)) k' = tracked c k')
   | None \<Rightarrow> cn_cancel k c = (c, Some (Sentinel ErrJobNotRunning))"
  by (auto simp: tracked_def cn_cancel_def split: option.split)

end
