(* ===== verification/Metrics.thy ===== *)
theory Metrics
  imports Jobs "HOL-Library.Word" "HOL-Library.Signed_Division"
begin

text \<open>
  \<open>internal/metrics\<close>: the process's counters.  An \<open>atomic.Int64\<close> and a \<open>time.Duration\<close> are 64-bit
  words whose additions wrap.  A nil \<open>*Registry\<close> is \<open>None\<close>, and every method accepts it.
\<close>

type_synonym int64 = "64 word"

record duration_stat =
  ds_total :: int64
  ds_count :: int64
  ds_max :: int64

record registry =
  jobs_completed :: int64
  jobs_failed :: int64
  jobs_cancelled :: int64
  active_jobs :: int64
  model_calls :: int64
  model_errors :: int64
  model_latency :: duration_stat
  input_tokens :: int64
  output_tokens :: int64
  job_duration :: duration_stat
  queue_wait :: duration_stat
  revisions_requested :: int64

definition ds_record :: "int64 \<Rightarrow> duration_stat \<Rightarrow> duration_stat" where
  "ds_record v d =
     (if sint v < 0 then d
      else \<lparr>ds_total = ds_total d + v, ds_count = ds_count d + 1,
            ds_max = (if sint v > sint (ds_max d) then v else ds_max d)\<rparr>)"

definition ds_snapshot :: "duration_stat \<Rightarrow> (string \<times> json) list" where
  "ds_snapshot d =
     [(''count'', JInt (sint (ds_count d))),
      (''total_ms'', JInt (milliseconds (sint (ds_total d)))),
      (''max_ms'', JInt (milliseconds (sint (ds_max d))))] @
     (if sint (ds_count d) > 0
      then [(''mean_ms'', JInt (milliseconds (sint (ds_total d) sdiv sint (ds_count d))))] else [])"

definition ds_zero :: duration_stat where
  "ds_zero = \<lparr>ds_total = 0, ds_count = 0, ds_max = 0\<rparr>"

definition metrics_new :: registry where
  "metrics_new =
     \<lparr>jobs_completed = 0, jobs_failed = 0, jobs_cancelled = 0, active_jobs = 0, model_calls = 0,
      model_errors = 0, model_latency = ds_zero, input_tokens = 0, output_tokens = 0,
      job_duration = ds_zero, queue_wait = ds_zero, revisions_requested = 0\<rparr>"

text \<open>\<open>JobStarted\<close> and the function it returns.\<close>

definition job_started :: "registry option \<Rightarrow> registry option" where
  "job_started = map_option (\<lambda>r. r\<lparr>active_jobs := active_jobs r + 1\<rparr>)"

definition job_ended :: "string \<Rightarrow> int64 \<Rightarrow> registry option \<Rightarrow> registry option" where
  "job_ended st took = map_option (\<lambda>r0.
     let r = r0\<lparr>active_jobs := active_jobs r0 - 1, job_duration := ds_record took (job_duration r0)\<rparr> in
     if st = ''completed'' then r\<lparr>jobs_completed := jobs_completed r + 1\<rparr>
     else if st = ''cancelled'' then r\<lparr>jobs_cancelled := jobs_cancelled r + 1\<rparr>
     else r\<lparr>jobs_failed := jobs_failed r + 1\<rparr>)"

definition queue_waited :: "int64 \<Rightarrow> registry option \<Rightarrow> registry option" where
  "queue_waited v = map_option (\<lambda>r. r\<lparr>queue_wait := ds_record v (queue_wait r)\<rparr>)"

definition revision_requested :: "registry option \<Rightarrow> registry option" where
  "revision_requested = map_option (\<lambda>r. r\<lparr>revisions_requested := revisions_requested r + 1\<rparr>)"

record usage =
  us_input :: int64
  us_output :: int64

definition model_call :: "int64 \<Rightarrow> bool \<Rightarrow> usage \<Rightarrow> registry option \<Rightarrow> registry option" where
  "model_call took failed u = map_option (\<lambda>r.
     r\<lparr>model_calls := model_calls r + 1,
       model_latency := ds_record took (model_latency r),
       model_errors := (if failed then model_errors r + 1 else model_errors r),
       input_tokens := (if sint (us_input u) > 0 then input_tokens r + us_input u else input_tokens r),
       output_tokens := (if sint (us_output u) > 0 then output_tokens r + us_output u else output_tokens r)\<rparr>)"

definition snapshot :: "registry option \<Rightarrow> (string \<times> json) list" where
  "snapshot ro =
     (case ro of
        None \<Rightarrow> []
      | Some r \<Rightarrow>
          [(''jobs'', JObj
              [(''active'', JInt (sint (active_jobs r))),
               (''completed'', JInt (sint (jobs_completed r))),
               (''failed'', JInt (sint (jobs_failed r))),
               (''cancelled'', JInt (sint (jobs_cancelled r))),
               (''total'', JInt (sint (jobs_completed r + jobs_failed r + jobs_cancelled r))),
               (''duration'', JObj (ds_snapshot (job_duration r)))]),
           (''queue'', JObj [(''wait'', JObj (ds_snapshot (queue_wait r)))]),
           (''model'', JObj
              [(''calls'', JInt (sint (model_calls r))),
               (''errors'', JInt (sint (model_errors r))),
               (''latency'', JObj (ds_snapshot (model_latency r))),
               (''tokens'', JObj
                  [(''input'', JInt (sint (input_tokens r))),
                   (''output'', JInt (sint (output_tokens r))),
                   (''total'', JInt (sint (input_tokens r + output_tokens r)))])]),
           (''revisions_requested'', JInt (sint (revisions_requested r)))])"

subsection \<open>Durations\<close>

text \<open>A whole series of recordings.\<close>

definition ds_series :: "int64 list \<Rightarrow> duration_stat" where
  "ds_series vs = fold ds_record vs ds_zero"

definition kept :: "int64 list \<Rightarrow> int list" where
  "kept vs = filter (\<lambda>v. 0 \<le> v) (map sint vs)"

lemma sint_plus_small:
  fixes a b :: int64
  assumes "0 \<le> sint a" "0 \<le> sint b" "sint a + sint b < 2 ^ 63"
  shows "sint (a + b) = sint a + sint b"
  using assms by (simp add: signed_take_bit_int_eq_self sint_word_ariths(1))

lemma kept_nonneg: "v \<in> set (kept vs) \<Longrightarrow> 0 \<le> v"
  by (auto simp: kept_def)

lemma kept_sum_nonneg: "0 \<le> sum_list (kept vs)"
  by (rule sum_list_nonneg) (auto simp: kept_def)

lemma kept_snoc: "kept (vs @ [v]) = kept vs @ (if 0 \<le> sint v then [sint v] else [])"
  by (simp add: kept_def)

lemma ds_series_snoc: "ds_series (vs @ [v]) = ds_record v (ds_series vs)"
  by (simp add: ds_series_def)

text \<open>
  A duration series reads back exactly.  As long as the recorded non-negative durations sum to
  less than 2^63 nanoseconds (292 years), the 64-bit total is their sum, the count their number and
  the maximum the greatest; negative durations (clock skew) leave no trace.
\<close>

lemma duration_series_exact:
  assumes "sum_list (kept vs) < 2 ^ 63"
  shows "sint (ds_total (ds_series vs)) = sum_list (kept vs) \<and>
    ds_count (ds_series vs) = of_nat (length (kept vs)) \<and>
    sint (ds_max (ds_series vs)) = fold max (kept vs) 0"
  using assms
proof (induction vs rule: rev_induct)
  case Nil
  then show ?case by (simp add: ds_series_def kept_def ds_zero_def)
next
  case (snoc v vs)
  show ?case
  proof (cases "0 \<le> sint v")
    case True
    with snoc.prems have b: "sum_list (kept vs) + sint v < 2 ^ 63" by (simp add: kept_snoc)
    with True snoc.IH have IH: "sint (ds_total (ds_series vs)) = sum_list (kept vs)"
      "ds_count (ds_series vs) = of_nat (length (kept vs))"
      "sint (ds_max (ds_series vs)) = fold max (kept vs) 0" by simp_all
    have "sint (ds_total (ds_series vs) + v) = sum_list (kept vs) + sint v"
      using sint_plus_small [of "ds_total (ds_series vs)" v] IH(1) True b kept_sum_nonneg by simp
    with True IH show ?thesis 
      by (auto simp: ds_series_snoc kept_snoc ds_record_def max.absorb1 max.absorb2 not_less)
  next
    case False
    with snoc show ?thesis by (simp add: ds_series_snoc kept_snoc ds_record_def)
  qed
qed

theorem duration_series_exact_witness:
  "sint (ds_total (ds_series [5, - 1, 7])) = 12 \<and> sint (ds_max (ds_series [5, - 1, 7])) = 7"
proof -
  have k: "kept [5, - 1, 7] = [5, 7]" by (simp add: kept_def)
  have "sum_list (kept [5, - 1, 7]) < 2 ^ 63" by (simp add: k)
  from duration_series_exact [OF this] show ?thesis by (simp add: k)
qed

subsection \<open>Jobs in flight\<close>

text \<open>A run of the process: jobs enter, and jobs that entered leave with their final status.\<close>

datatype job_move = Job_In | Job_Out string int64

fun job_move_step :: "job_move \<Rightarrow> registry option \<Rightarrow> registry option" where
  "job_move_step Job_In r = job_started r"
| "job_move_step (Job_Out st took) r = job_ended st took r"

definition ins :: "job_move list \<Rightarrow> nat" where
  "ins ms = length (filter (\<lambda>m. m = Job_In) ms)"

definition outs :: "(string \<Rightarrow> bool) \<Rightarrow> job_move list \<Rightarrow> nat" where
  "outs P ms = length (filter (\<lambda>m. case m of Job_In \<Rightarrow> False | Job_Out st took \<Rightarrow> P st) ms)"

definition run_job_moves :: "job_move list \<Rightarrow> registry option" where
  "run_job_moves ms = fold job_move_step ms (Some metrics_new)"

lemma move_counts [simp]:
  "ins [] = 0" "ins (ms @ [Job_In]) = Suc (ins ms)" "ins (ms @ [Job_Out st took]) = ins ms"
  "outs P [] = 0" "outs P (ms @ [Job_In]) = outs P ms"
  "outs P (ms @ [Job_Out st took]) = (if P st then Suc (outs P ms) else outs P ms)"
  by (simp_all add: ins_def outs_def)

text \<open>
  The outcome counters partition the finished jobs and the gauge is the number still running:
  whatever the order in which jobs enter and leave, each departure counts in exactly one of
  completed, cancelled and failed (anything that is neither of the first two is a failure).
\<close>

lemma outcomes_partition:
  "\<exists>r. run_job_moves ms = Some r \<and>
     jobs_completed r = of_nat (outs (\<lambda>s. s = ''completed'') ms) \<and>
     jobs_cancelled r = of_nat (outs (\<lambda>s. s = ''cancelled'') ms) \<and>
     jobs_failed r = of_nat (outs (\<lambda>s. s \<noteq> ''completed'' \<and> s \<noteq> ''cancelled'') ms) \<and>
     active_jobs r = of_nat (ins ms) - of_nat (outs (\<lambda>_. True) ms) \<and>
     jobs_completed r + jobs_cancelled r + jobs_failed r = of_nat (outs (\<lambda>_. True) ms)"
proof (induction ms rule: rev_induct)
  case Nil
  then show ?case by (simp add: run_job_moves_def metrics_new_def)
next
  case (snoc m ms)
  then obtain r where r: "run_job_moves ms = Some r" by blast
  have s: "run_job_moves (ms @ [m]) = job_move_step m (Some r)"
    using r by (simp add: run_job_moves_def)
  show ?case
    unfolding s
    by (cases m) (use snoc r in \<open>auto simp: job_started_def job_ended_def Let_def algebra_simps\<close>)
qed

end
