(* ===== verification/Execution.thy ===== *)
theory Execution
  imports Error_Text
begin

text \<open>
  \<open>internal/execution\<close>: how commands are run.  A command runner acts on a world \<open>'w\<close> that the
  model leaves open (processes, files, the clock).  A context is what its \<open>Err()\<close> reads in a given
  world.  \<open>ExecRunner\<close> itself is \<open>os/exec\<close>; its translation of the process's end is \<open>exec_result\<close>.
\<close>

record command_result =
  exit_code :: int
  cmd_stdout :: string
  cmd_stderr :: string
  cmd_duration :: duration
  timed_out :: bool

definition empty_result :: command_result where
  "empty_result =
     \<lparr>exit_code = 0, cmd_stdout = [], cmd_stderr = [], cmd_duration = 0, timed_out = False\<rparr>"

type_synonym 'w ctx = "'w \<Rightarrow> go_err option"

type_synonym 'w runner =
  "'w ctx \<Rightarrow> string \<Rightarrow> string \<Rightarrow> string list \<Rightarrow> 'w \<Rightarrow> 'w \<times> command_result \<times> go_err option"

text \<open>
  \<open>context.WithTimeout(ctx, d)\<close> made in the world \<open>w0\<close>: the parent's error, or the deadline's once
  the clock has passed it.
\<close>

definition with_timeout :: "('w \<Rightarrow> time) \<Rightarrow> duration \<Rightarrow> 'w \<Rightarrow> 'w ctx \<Rightarrow> 'w ctx" where
  "with_timeout clk d w0 ctx = (\<lambda>w.
     case ctx w of
       Some e \<Rightarrow> Some e
     | None \<Rightarrow> if clk w0 + d \<le> clk w then Some (Sentinel CtxDeadlineExceeded) else None)"

definition without_cancel :: "'w ctx \<Rightarrow> 'w ctx" where
  "without_cancel ctx = (\<lambda>w. None)"

subsection \<open>\<open>ExecRunner\<close>\<close>

text \<open>How \<open>cmd.Run()\<close> ended: with exit status 0, with another (\<open>ExitError\<close>), or without running.\<close>

datatype cmd_end = Exited_Zero | Exited int | Not_Run go_err

definition exec_result :: "string \<Rightarrow> string \<Rightarrow> duration \<Rightarrow> cmd_end \<Rightarrow> command_result \<times> go_err option" where
  "exec_result out err took en =
     (let r = \<lparr>exit_code = 0, cmd_stdout = out, cmd_stderr = err, cmd_duration = took, timed_out = False\<rparr>
      in case en of
           Exited_Zero \<Rightarrow> (r, None)
         | Exited n \<Rightarrow> (r\<lparr>exit_code := n\<rparr>, None)
         | Not_Run e \<Rightarrow> (r, Some e))"

subsection \<open>\<open>SafeRunner\<close>\<close>

type_synonym allowlist = "string list"

definition allows :: "allowlist \<Rightarrow> string \<Rightarrow> bool" where
  "allows al c = (c \<in> set al)"

record 'w safe_runner =
  sr_inner :: "'w runner"
  sr_allowlist :: allowlist
  sr_timeout :: duration
  sr_clock :: "'w \<Rightarrow> time"

definition new_safe_runner :: "'w runner \<Rightarrow> allowlist \<Rightarrow> duration \<Rightarrow> ('w \<Rightarrow> time) \<Rightarrow> 'w safe_runner" where
  "new_safe_runner inner al d clk =
     \<lparr>sr_inner = inner, sr_allowlist = al, sr_timeout = (if d \<le> 0 then 5 * minute else d),
      sr_clock = clk\<rparr>"

definition not_allowed :: "string \<Rightarrow> go_err" where
  "not_allowed c = Errorf ''%w: %s'' [FW (Sentinel ErrCommandNotAllowed), FStr c]"

definition safe_run :: "'w safe_runner \<Rightarrow> 'w runner" where
  "safe_run s ctx dir c args w =
     (if \<not> allows (sr_allowlist s) c then (w, empty_result, Some (not_allowed c))
      else let run_ctx = with_timeout (sr_clock s) (sr_timeout s) w ctx in
        case sr_inner s run_ctx dir c args w of
          (w', result, err) \<Rightarrow>
            if ctx w' \<noteq> None then (w', result, ctx w')
            else if (case run_ctx w' of None \<Rightarrow> False | Some e \<Rightarrow> err_is e CtxDeadlineExceeded)
              then (w', result\<lparr>timed_out := True\<rparr>, Some (Sentinel ErrTimeout))
              else (w', result, err))"

subsection \<open>\<open>DockerRunner\<close>\<close>

definition default_image :: string where
  "default_image = ''golang:1.25-alpine''"

record docker_options =
  do_image :: string
  do_memory :: string
  do_cpus :: string
  do_network :: string
  do_timeout :: duration

definition docker_defaults :: "docker_options \<Rightarrow> docker_options" where
  "docker_defaults o1 =
     \<lparr>do_image = (if do_image o1 = [] then default_image else do_image o1),
      do_memory = (if do_memory o1 = [] then ''512m'' else do_memory o1),
      do_cpus = (if do_cpus o1 = [] then ''1'' else do_cpus o1),
      do_network = (if do_network o1 = [] then ''none'' else do_network o1),
      do_timeout = (if do_timeout o1 \<le> 0 then 5 * minute else do_timeout o1)\<rparr>"

definition docker_args :: "docker_options \<Rightarrow> string \<Rightarrow> string \<Rightarrow> string list \<Rightarrow> string list" where
  "docker_args d dir c args =
     [''run'', ''--rm'', ''--memory'', do_memory d, ''--cpus'', do_cpus d,
      ''--network'', do_network d, ''--workdir'', ''/workspace'',
      ''-v'', dir @ '':/workspace'', do_image d, c] @ args"

definition docker_run :: "('w \<Rightarrow> time) \<Rightarrow> docker_options \<Rightarrow> 'w runner \<Rightarrow> 'w runner" where
  "docker_run clk d inner ctx dir c args w =
     inner (with_timeout clk (do_timeout d) w ctx) [] ''docker'' (docker_args d dir c args) w"

subsection \<open>The contract of a guarded runner\<close>

text \<open>
  What the components that run commands rely on: a command outside the permitted set leaves the
  world alone and is reported, and an ended context is never reported as success.
\<close>

locale guarded_runner =
  fixes run :: "'w runner" and permitted :: "string \<Rightarrow> bool"
  assumes refused: "\<not> permitted c \<Longrightarrow> run ctx dir c args w = (w, empty_result, Some (not_allowed c))"
    and cancelled: "run ctx dir c args w = (w', r, eo) \<Longrightarrow> permitted c \<Longrightarrow> ctx w' \<noteq> None \<Longrightarrow> eo = ctx w'"
begin

text \<open>A sequence of commands, stopping at the first error.\<close>

fun run_all :: "'w ctx \<Rightarrow> string \<Rightarrow> (string \<times> string list) list \<Rightarrow> 'w \<Rightarrow> 'w \<times> go_err option" where
  "run_all ctx dir [] w = (w, None)"
| "run_all ctx dir ((c, as) # cs) w =
     (case run ctx dir c as w of
        (w', r, None) \<Rightarrow> run_all ctx dir cs w'
      | (w', r, Some e) \<Rightarrow> (w', Some e))"

lemma refused_err: "\<not> permitted c \<Longrightarrow> \<exists>e. run ctx dir c args w = (w, empty_result, Some e) \<and>
    err_is e ErrCommandNotAllowed"
  by (simp add: refused not_allowed_def)

lemma run_all_permitted:
  "run_all ctx dir cs w = (w', None) \<Longrightarrow> (c, as) \<in> set cs \<Longrightarrow> permitted c"
proof (induction cs arbitrary: w)
  case (Cons p cs)
  obtain d bs where p: "p = (d, bs)" by (cases p)
  obtain w1 r eo where r: "run ctx dir d bs w = (w1, r, eo)" by (cases "run ctx dir d bs w")
  have "permitted d"
  proof (rule ccontr)
    assume "\<not> permitted d"
    with refused [of d ctx dir bs w] Cons.prems(1) p show False by simp
  qed
  with Cons p r show ?case by (cases eo) auto
qed simp

lemma run_all_live: "run_all ctx dir cs w = (w', None) \<Longrightarrow> cs \<noteq> [] \<Longrightarrow> ctx w' = None"
proof (induction cs arbitrary: w)
  case (Cons p cs)
  obtain d bs where p: "p = (d, bs)" by (cases p)
  obtain w1 r eo where r: "run ctx dir d bs w = (w1, r, eo)" by (cases "run ctx dir d bs w")
  with Cons.prems p have eo: "eo = None" and rest: "run_all ctx dir cs w1 = (w', None)"
    by (cases eo; simp)+
  have "permitted d" using run_all_permitted [OF Cons.prems(1), of d bs] p by simp
  with cancelled [OF r] eo have "ctx w1 = None" by (cases "ctx w1") auto
  with Cons.IH [OF rest] rest show ?case by (cases cs) auto
qed simp

end

lemma safe_run_refused: "\<not> allows (sr_allowlist s) c \<Longrightarrow>
    safe_run s ctx dir c args w = (w, empty_result, Some (not_allowed c))"
  by (simp add: safe_run_def)

interpretation safe: guarded_runner "safe_run s" "allows (sr_allowlist s)" for s
  by unfold_locales (auto simp: safe_run_def Let_def split: if_splits prod.splits)

text \<open>
  A guarded command that reports no error really ran to its end: it was on the allowlist, the
  inner runner returned that very result without an error, the caller's context is still live, and
  the runner's own deadline (five minutes when none was configured) has not passed.
\<close>

lemma safe_run_success:
  assumes "safe_run (new_safe_runner inner al d clk) ctx dir c args w = (w', r, None)"
  shows "c \<in> set al \<and> ctx w' = None \<and> clk w' < clk w + (if d \<le> 0 then 5 * minute else d) \<and>
    (\<exists>rc. inner rc dir c args w = (w', r, None))"
  using assms
  by (auto simp: safe_run_def new_safe_runner_def allows_def Let_def with_timeout_def
      split: prod.splits option.splits if_splits)

text \<open>A runner over a world that is just a clock: each command takes three seconds.\<close>

definition slow_runner :: "time runner" where
  "slow_runner ctx dir c args w = (w + 3 * second, empty_result, None)"

theorem safe_run_success_witness:
  "safe_run (new_safe_runner slow_runner [''go''] 0 (\<lambda>w. w)) (\<lambda>_. None) ''/r'' ''go'' [] 0
     = (3 * second, empty_result, None) \<and> 3 * second < (0 :: time) + 5 * minute"
proof -
  let ?run = "safe_run (new_safe_runner slow_runner [''go''] 0 (\<lambda>w. w)) (\<lambda>_. None) ''/r'' ''go'' [] 0"
  have run: "?run = (3 * second, empty_result, None)"
    by (simp add: safe_run_def new_safe_runner_def allows_def slow_runner_def with_timeout_def
        Let_def minute_def second_def)
  from safe_run_success [OF run] run show ?thesis by simp
qed

text \<open>
  The order of blame when a command does not succeed: the allowlist, then the caller's context,
  then the runner's deadline, then the command itself.
\<close>

lemma safe_run_error:
  assumes "safe_run s ctx dir c args w = (w', r, Some e)"
  shows "e = (if c \<notin> set (sr_allowlist s) then not_allowed c
    else case ctx w' of
      Some x \<Rightarrow> x
    | None \<Rightarrow> if sr_clock s w + sr_timeout s \<le> sr_clock s w' then Sentinel ErrTimeout
              else the (snd (snd (sr_inner s (with_timeout (sr_clock s) (sr_timeout s) w ctx) dir c args w))))"
  using assms
  by (auto simp: safe_run_def allows_def Let_def with_timeout_def
      split: prod.splits option.splits if_splits)

end
