(* ===== verification/Workspaces.thy ===== *)
theory Workspaces
  imports Execution
begin

text \<open>
  \<open>internal/workspace\<close>: isolated checkouts of the job's repository.  Git runs through a command
  runner, and the few direct accesses to the disk (\<open>os.Stat\<close>, \<open>os.MkdirAll\<close>, \<open>os.RemoveAll\<close>,
  \<open>os.ReadDir\<close>, \<open>filepath.EvalSymlinks\<close>) are the fields of a \<open>disk\<close>.
\<close>

subsection \<open>Workspaces (\<open>manager.go\<close>)\<close>

record workspace =
  ws_job_id :: string
  ws_branch :: string
  ws_path :: string
  ws_repo_path :: string

definition branch_prefix :: string where
  "branch_prefix = ''rojo/job/''"

definition reconstruct :: "string \<Rightarrow> string \<Rightarrow> string \<Rightarrow> workspace" where
  "reconstruct base_dir k repo =
     \<lparr>ws_job_id = k, ws_branch = branch_prefix @ k, ws_path = path_join [base_dir, k],
      ws_repo_path = repo\<rparr>"

text \<open>\<open>dk_stat\<close> tells whether the path is a directory.\<close>

record 'w disk =
  dk_stat :: "string \<Rightarrow> 'w \<Rightarrow> bool result"
  dk_mkdir_all :: "string \<Rightarrow> 'w \<Rightarrow> 'w \<times> go_err option"
  dk_remove_all :: "string \<Rightarrow> 'w \<Rightarrow> 'w \<times> go_err option"
  dk_read_dir :: "string \<Rightarrow> 'w \<Rightarrow> (string \<times> bool) list result"
  dk_eval_symlinks :: "string \<Rightarrow> 'w \<Rightarrow> string option"

definition validate_repo_path :: "'w disk \<Rightarrow> string \<Rightarrow> 'w \<Rightarrow> go_err option" where
  "validate_repo_path d repo w =
     (if \<not> is_abs repo then Some (Errorf ''%w: %s'' [FW (Sentinel ErrPathTraversal), FStr repo])
      else case dk_stat d repo w of
        Inl e \<Rightarrow>
          (if err_is e ErrNotExist then Some (Errorf ''%w: %s'' [FW (Sentinel ErrRepoNotFound), FStr repo])
           else Some e)
      | Inr is_dir \<Rightarrow>
          if \<not> is_dir then Some (Errorf ''%w: not a directory'' [FW (Sentinel ErrRepoNotFound)])
          else (case dk_stat d (path_join [repo, ''.git'']) w of
             Inl e \<Rightarrow> Some (Errorf ''%w: %s'' [FW (Sentinel ErrNotAGitRepo), FStr repo])
           | Inr _ \<Rightarrow> None))"

subsection \<open>Git (\<open>git.go\<close>, \<open>diff.go\<close>)\<close>

definition hardened :: "string list" where
  "hardened = [''-c'', ''core.hooksPath=/dev/null'', ''-c'', ''core.fsmonitor=false'']"

definition git_args :: "string list \<Rightarrow> string list" where
  "git_args as = hardened @ as"

record 'w git_manager =
  gm_runner :: "'w runner"
  gm_base_dir :: string
  gm_disk :: "'w disk"
  gm_clock :: "'w \<Rightarrow> time"

definition git :: "'w git_manager \<Rightarrow> 'w ctx \<Rightarrow> string \<Rightarrow> string list \<Rightarrow> 'w \<Rightarrow> 'w \<times> command_result \<times> go_err option" where
  "git m ctx dir as w = gm_runner m ctx dir ''git'' (git_args as) w"

definition ws_create :: "'w git_manager \<Rightarrow> 'w ctx \<Rightarrow> string \<Rightarrow> string \<Rightarrow> 'w \<Rightarrow> 'w \<times> workspace result" where
  "ws_create m ctx k repo w =
     (case validate_repo_path (gm_disk m) repo w of
        Some e \<Rightarrow> (w, Inl e)
      | None \<Rightarrow>
          (case dk_mkdir_all (gm_disk m) (gm_base_dir m) w of
             (w1, Some e) \<Rightarrow> (w1, Inl (Errorf ''create base dir: %w'' [FW e]))
           | (w1, None) \<Rightarrow>
               let branch = branch_prefix @ k; path = path_join [gm_base_dir m, k] in
               case git m ctx repo [''worktree'', ''add'', ''-b'', branch, path] w1 of
                 (w2, res, Some e) \<Rightarrow>
                   (w2, Inl (Errorf ''git worktree add: %w: %s'' [FW e, FStr (cmd_stderr res)]))
               | (w2, res, None) \<Rightarrow>
                   if exit_code res \<noteq> 0
                   then (w2, Inl (Errorf ''git worktree add exited %d: %s''
                          [FInt (exit_code res), FStr (cmd_stderr res)]))
                   else (w2, Inr \<lparr>ws_job_id = k, ws_branch = branch, ws_path = path, ws_repo_path = repo\<rparr>)))"

definition second_30 :: duration where
  "second_30 = 30 * second"

text \<open>
  The removal of the worktree: git first, and when git fails, the directory itself and then the stale
  registration.
\<close>

definition remove_worktree :: "'w git_manager \<Rightarrow> 'w ctx \<Rightarrow> workspace \<Rightarrow> 'w \<Rightarrow> 'w \<times> go_err option list" where
  "remove_worktree m dl ws w =
     (case git m dl (ws_repo_path ws) [''worktree'', ''remove'', ''--force'', ws_path ws] w of
        (w1, res, err) \<Rightarrow>
          if err \<noteq> None \<or> exit_code res \<noteq> 0 then
            (case dk_remove_all (gm_disk m) (ws_path ws) w1 of
               (w2, rm_err) \<Rightarrow>
                 (case git m dl (ws_repo_path ws) [''worktree'', ''prune''] w2 of
                    (w3, pres, perr) \<Rightarrow>
                      (w3,
                       [map_option (\<lambda>e. Errorf ''remove worktree dir %s: %w'' [FStr (ws_path ws), FW e]) rm_err,
                        (case perr of
                           Some e \<Rightarrow> Some (Errorf ''prune worktrees: %w'' [FW e])
                         | None \<Rightarrow>
                             if exit_code pres \<noteq> 0
                             then Some (Errorf ''git worktree prune exited %d: %s''
                                    [FInt (exit_code pres), FStr (cmd_stderr pres)])
                             else None)])))
          else (w1, []))"

definition ws_cleanup :: "'w git_manager \<Rightarrow> 'w ctx \<Rightarrow> workspace option \<Rightarrow> 'w \<Rightarrow> 'w \<times> go_err option" where
  "ws_cleanup m ctx wso w =
     (case wso of
        None \<Rightarrow> (w, None)
      | Some ws \<Rightarrow>
          let dl = with_timeout (gm_clock m) second_30 w (without_cancel ctx) in
          case remove_worktree m dl ws w of
            (w1, errs) \<Rightarrow>
              (case git m dl (ws_repo_path ws) [''branch'', ''-D'', ws_branch ws] w1 of
                 (w2, res, err) \<Rightarrow>
                   (w2, join_errs (errs @
                      [case err of
                         Some e \<Rightarrow> Some (Errorf ''delete branch %s: %w'' [FStr (ws_branch ws), FW e])
                       | None \<Rightarrow>
                           if exit_code res \<noteq> 0
                           then Some (Errorf ''delete branch %s exited %d: %s''
                                  [FStr (ws_branch ws), FInt (exit_code res), FStr (cmd_stderr res)])
                           else None]))))"

definition ws_diff :: "'w git_manager \<Rightarrow> 'w ctx \<Rightarrow> workspace option \<Rightarrow> 'w \<Rightarrow> 'w \<times> string result" where
  "ws_diff m ctx wso w =
     (case wso of
        None \<Rightarrow> (w, Inl (Sentinel ErrWorktreeNotFound))
      | Some ws \<Rightarrow>
          (case git m ctx (ws_path ws) [''add'', ''--intent-to-add'', ''--all''] w of
             (w1, a, Some e) \<Rightarrow>
               (w1, Inl (Errorf ''git add --intent-to-add: %w: %s'' [FW e, FStr (cmd_stderr a)]))
           | (w1, a, None) \<Rightarrow>
               if exit_code a \<noteq> 0
               then (w1, Inl (Errorf ''git add --intent-to-add exited %d: %s''
                      [FInt (exit_code a), FStr (cmd_stderr a)]))
               else (case git m ctx (ws_path ws) [''diff'', ''HEAD''] w1 of
                  (w2, r, Some e) \<Rightarrow> (w2, Inl (Errorf ''git diff: %w: %s'' [FW e, FStr (cmd_stderr r)]))
                | (w2, r, None) \<Rightarrow>
                    if exit_code r \<noteq> 0
                    then (w2, Inl (Errorf ''git diff exited %d: %s''
                           [FInt (exit_code r), FStr (cmd_stderr r)]))
                    else (w2, Inr (cmd_stdout r)))))"

definition real_path :: "'w disk \<Rightarrow> string \<Rightarrow> 'w \<Rightarrow> string" where
  "real_path d p w = (case dk_eval_symlinks d p w of Some q \<Rightarrow> q | None \<Rightarrow> p)"

definition tracked_paths :: "'w disk \<Rightarrow> 'w \<Rightarrow> string \<Rightarrow> string list" where
  "tracked_paths d w out =
     map (\<lambda>l. real_path d (trim_prefix l ''worktree '') w)
       (filter (\<lambda>l. has_prefix l ''worktree '') (split_on (CHR 0x0A) out))"

definition ws_list_orphans :: "'w git_manager \<Rightarrow> 'w ctx \<Rightarrow> string \<Rightarrow> 'w \<Rightarrow> 'w \<times> string list result" where
  "ws_list_orphans m ctx repo w =
     (let d = gm_disk m in
      case validate_repo_path d repo w of
        Some e \<Rightarrow> (w, Inl e)
      | None \<Rightarrow>
          (case git m ctx repo [''worktree'', ''list'', ''--porcelain''] w of
             (w1, res, Some e) \<Rightarrow> (w1, Inl (Errorf ''git worktree list: %w'' [FW e]))
           | (w1, res, None) \<Rightarrow>
               (case dk_read_dir d (gm_base_dir m) w1 of
                  Inl e \<Rightarrow>
                    if err_is e ErrNotExist then (w1, Inr [])
                    else (w1, Inl (Errorf ''read base dir: %w'' [FW e]))
                | Inr entries \<Rightarrow>
                    (w1, Inr (filter (\<lambda>p. real_path d p w1 \<notin> set (tracked_paths d w1 (cmd_stdout res)))
                       (map (\<lambda>e. path_join [gm_base_dir m, fst e]) (filter snd entries)))))))"

subsection \<open>What the manager guarantees\<close>

text \<open>
  A worktree can always be named again.  Whatever \<open>Create\<close> returns for a job is the workspace that
  \<open>Reconstruct\<close> derives from the base directory, the job id and the repository alone, and the
  repository was validated: absolute, and a directory with a \<open>.git\<close> in it.
\<close>

lemma create_reconstructs:
  assumes "ws_create m ctx k repo w = (w', Inr ws)"
  shows "ws = reconstruct (gm_base_dir m) k repo \<and> is_abs repo \<and>
    dk_stat (gm_disk m) repo w = Inr True \<and>
    (\<exists>b. dk_stat (gm_disk m) (path_join [repo, ''.git'']) w = Inr b)"
  using assms
  by (auto simp: ws_create_def reconstruct_def validate_repo_path_def Let_def
      split: option.splits prod.splits if_splits sum.splits)

text \<open>Two managers whose runners agree on every hardened git command.\<close>

definition same_git :: "'w git_manager \<Rightarrow> 'w git_manager \<Rightarrow> bool" where
  "same_git m m' =
     (gm_base_dir m' = gm_base_dir m \<and> gm_disk m' = gm_disk m \<and> gm_clock m' = gm_clock m \<and>
      (\<forall>ctx dir as w. gm_runner m' ctx dir ''git'' (hardened @ as) w
                    = gm_runner m ctx dir ''git'' (hardened @ as) w))"

lemma same_git_git: "same_git m m' \<Longrightarrow> git m' = git m"
  by (intro ext) (simp add: git_def git_args_def same_git_def)

text \<open>
  C34: the repository never chooses what git executes.  The only commands the manager ever runs are git
  commands that start with the flags which disable the repository's hooks and its file-system
  monitor: two managers whose runners agree on those, and may differ on everything else, create,
  diff, clean up and list alike.
\<close>

theorem only_hardened_git:
  assumes "same_git m m'"
  shows "ws_create m' ctx k repo w = ws_create m ctx k repo w \<and>
    ws_cleanup m' ctx wso w = ws_cleanup m ctx wso w \<and>
    ws_diff m' ctx wso w = ws_diff m ctx wso w \<and>
    ws_list_orphans m' ctx repo w = ws_list_orphans m ctx repo w"
proof -
  have eqs: "gm_base_dir m' = gm_base_dir m" "gm_disk m' = gm_disk m" "gm_clock m' = gm_clock m"
    "git m' = git m"
    using assms same_git_git [OF assms] by (simp_all add: same_git_def)
  show ?thesis
    unfolding ws_create_def ws_cleanup_def ws_diff_def ws_list_orphans_def remove_worktree_def eqs
    by simp
qed

lemma join_errs_None [simp]: "join_errs es = None \<longleftrightarrow> set es \<subseteq> {None}"
  using somes_empty [of es] by (cases "somes es") (auto simp: join_errs_def)

text \<open>
  Clean-up does not depend on the job's context, which is usually dead by then, and reports
  success only if nothing is left: the branch was deleted, and the worktree was removed by git, or
  else its directory was removed and the registration pruned.
\<close>

theorem cleanup_success:
  assumes "ws_cleanup m ctx (Some ws) w = (w', None)"
  shows "ws_cleanup m ctx' (Some ws) w = (w', None) \<and>
    (\<exists>dl w1 w2 r1 r2.
       git m dl (ws_repo_path ws) [''branch'', ''-D'', ws_branch ws] w1 = (w', r1, None) \<and> exit_code r1 = 0 \<and>
       (git m dl (ws_repo_path ws) [''worktree'', ''remove'', ''--force'', ws_path ws] w = (w1, r2, None) \<and>
          exit_code r2 = 0 \<or>
        (\<exists>w3. dk_remove_all (gm_disk m) (ws_path ws) w3 = (w2, None) \<and>
           git m dl (ws_repo_path ws) [''worktree'', ''prune''] w2 = (w1, r2, None) \<and> exit_code r2 = 0)))"
proof
  have "without_cancel ctx = without_cancel ctx'" by (simp add: without_cancel_def)
  then show "ws_cleanup m ctx' (Some ws) w = (w', None)" using assms by (simp add: ws_cleanup_def)
next
  let ?dl = "with_timeout (gm_clock m) second_30 w (without_cancel ctx)"
  obtain w1 errs where rm: "remove_worktree m ?dl ws w = (w1, errs)" by (cases "remove_worktree m ?dl ws w")
  obtain r1 err w2 where br: "git m ?dl (ws_repo_path ws) [''branch'', ''-D'', ws_branch ws] w1 = (w2, r1, err)"
    by (cases "git m ?dl (ws_repo_path ws) [''branch'', ''-D'', ws_branch ws] w1") auto
  from assms rm br have "w2 = w'" "set errs \<subseteq> {None}" "err = None" "exit_code r1 = 0"
    by (auto simp: ws_cleanup_def Let_def split: option.splits if_splits)
  with rm br show "\<exists>dl w1 w2 r1 r2.
       git m dl (ws_repo_path ws) [''branch'', ''-D'', ws_branch ws] w1 = (w', r1, None) \<and> exit_code r1 = 0 \<and>
       (git m dl (ws_repo_path ws) [''worktree'', ''remove'', ''--force'', ws_path ws] w = (w1, r2, None) \<and>
          exit_code r2 = 0 \<or>
        (\<exists>w3. dk_remove_all (gm_disk m) (ws_path ws) w3 = (w2, None) \<and>
           git m dl (ws_repo_path ws) [''worktree'', ''prune''] w2 = (w1, r2, None) \<and> exit_code r2 = 0))"
    by (fastforce simp: remove_worktree_def split: prod.splits if_splits option.splits)
qed

subsection \<open>Concrete runs\<close>

text \<open>A world that only records the commands, a disk on which every directory exists.\<close>

definition log_runner :: "string list list runner" where
  "log_runner ctx dir c as w = (w @ [c # as], empty_result, None)"

definition log_disk :: "string list list disk" where
  "log_disk =
     \<lparr>dk_stat = (\<lambda>p w. Inr True), dk_mkdir_all = (\<lambda>p w. (w, None)), dk_remove_all = (\<lambda>p w. (w, None)),
      dk_read_dir = (\<lambda>p w. Inr []), dk_eval_symlinks = (\<lambda>p w. None)\<rparr>"

definition log_manager :: "string list list git_manager" where
  "log_manager = \<lparr>gm_runner = log_runner, gm_base_dir = ''/wt'', gm_disk = log_disk, gm_clock = (\<lambda>w. 0)\<rparr>"

lemma log_create:
  "ws_create log_manager (\<lambda>_. None) ''a1'' ''/r'' [] =
     ([''git'' # hardened @ [''worktree'', ''add'', ''-b'', ''rojo/job/a1'', ''/wt/a1'']],
      Inr \<lparr>ws_job_id = ''a1'', ws_branch = ''rojo/job/a1'', ws_path = ''/wt/a1'', ws_repo_path = ''/r''\<rparr>)"
proof -
  have "path_join [''/wt'', ''a1''] = ''/wt/a1''" by code_simp
  then show ?thesis
    by (simp add: ws_create_def log_manager_def log_disk_def log_runner_def git_def git_args_def
        validate_repo_path_def is_abs_def has_prefix_def branch_prefix_def empty_result_def Let_def)
qed

theorem create_reconstructs_witness:
  "snd (ws_create log_manager (\<lambda>_. None) ''a1'' ''/r'' []) = Inr (reconstruct ''/wt'' ''a1'' ''/r'')"
  using create_reconstructs [OF log_create] log_create by (simp add: log_manager_def)

theorem only_hardened_git_witness:
  "fst (ws_cleanup (log_manager\<lparr>gm_runner := (\<lambda>ctx dir c as w.
       if take 4 as = hardened then log_runner ctx dir c as w else ([], empty_result, None))\<rparr>)
     (\<lambda>_. None) (Some (reconstruct ''/wt'' ''a1'' ''/r'')) []) =
   fst (ws_cleanup log_manager (\<lambda>_. None) (Some (reconstruct ''/wt'' ''a1'' ''/r'')) [])"
proof -
  let ?m = "log_manager\<lparr>gm_runner := (\<lambda>ctx dir c as w.
       if take 4 as = hardened then log_runner ctx dir c as w else ([], empty_result, None))\<rparr>"
  have "same_git log_manager ?m" by (simp add: same_git_def log_manager_def hardened_def)
  from only_hardened_git [OF this] show ?thesis by simp
qed

theorem cleanup_success_witness:
  "ws_cleanup log_manager (\<lambda>_. Some (Sentinel CtxCanceled)) (Some (reconstruct ''/wt'' ''a1'' ''/r'')) [] =
   ws_cleanup log_manager (\<lambda>_. None) (Some (reconstruct ''/wt'' ''a1'' ''/r'')) []"
proof -
  let ?r = "ws_cleanup log_manager (\<lambda>_. None) (Some (reconstruct ''/wt'' ''a1'' ''/r'')) []"
  have "snd ?r = None"
    by (simp add: ws_cleanup_def remove_worktree_def git_def log_manager_def log_runner_def
        empty_result_def Let_def join_errs_def)
  then have "?r = (fst ?r, None)" by (simp add: prod_eq_iff)
  from cleanup_success [OF this, of "\<lambda>_. Some (Sentinel CtxCanceled)"] this show ?thesis by simp
qed

end
