(* ===== verification/Verification.thy ===== *)
theory Verification
  imports Execution
begin

text \<open>
  \<open>internal/verification\<close>: the deterministic gate.  Checks run one after another through a command
  runner, their results make a report, and the automatic runner chooses the checks from the files
  of the worktree.
\<close>

subsection \<open>Reports (\<open>verification.go\<close>)\<close>

record check_result =
  vr_check :: string
  vr_passed :: bool
  vr_output :: string
  vr_duration :: int
  vr_note :: string

record report =
  rp_results :: "check_result list"

definition empty_report :: report where
  "empty_report = \<lparr>rp_results = []\<rparr>"

definition all_passed :: "report \<Rightarrow> bool" where
  "all_passed r = list_all vr_passed (rp_results r)"

definition summary :: "report \<Rightarrow> string" where
  "summary r =
     (let failed = map vr_check (filter (\<lambda>x. \<not> vr_passed x) (rp_results r));
          n = int (length (rp_results r))
      in if failed = [] then sprintf ''all %d checks passed'' [show_int n]
         else sprintf ''%d of %d checks failed: %s''
                [show_int (int (length failed)), show_int n, join_with '', '' failed])"

lemma all_passed_empty [simp]: "all_passed empty_report"
  by (simp add: all_passed_def empty_report_def)

subsection \<open>Checks (\<open>runner.go\<close>)\<close>

record check =
  ck_name :: string
  ck_command :: string
  ck_args :: "string list"
  ck_fail_on_output :: bool
  ck_allow_exit :: "(int, string) amap"
  ck_note_when :: "(string \<Rightarrow> string) option"

definition plain_check :: "string \<Rightarrow> string \<Rightarrow> string list \<Rightarrow> check" where
  "plain_check n c as =
     \<lparr>ck_name = n, ck_command = c, ck_args = as, ck_fail_on_output = False, ck_allow_exit = [],
      ck_note_when = None\<rparr>"

definition max_output_bytes :: int where
  "max_output_bytes = 65536"

definition go_test_note :: "string \<Rightarrow> string" where
  "go_test_note output =
     (if \<not> contains_str output ''[no test files]'' then []
      else if list_ex (\<lambda>line. has_prefix line ''ok'') (split_on (CHR 0x0A) output) then []
      else ''no test files found: the gate proves compilation only'')"

definition default_checks :: "check list" where
  "default_checks =
     [(plain_check ''gofmt'' ''gofmt'' [''-l'', ''.''])\<lparr>ck_fail_on_output := True\<rparr>,
      plain_check ''go vet'' ''go'' [''vet'', ''./...''],
      (plain_check ''go test'' ''go'' [''test'', ''./...''])\<lparr>ck_note_when := Some go_test_note\<rparr>]"

definition join_non_empty :: "string list \<Rightarrow> string" where
  "join_non_empty parts = join_with [CHR 0x0A] (filter (\<lambda>p. trim_space p \<noteq> []) parts)"

definition combine_output :: "command_result \<Rightarrow> string" where
  "combine_output r = join_non_empty [trim_space (cmd_stdout r), trim_space (cmd_stderr r)]"

definition truncate_output :: "string \<Rightarrow> string" where
  "truncate_output s =
     (if int (length s) \<le> max_output_bytes then s
      else take (nat max_output_bytes) s @ CHR 0x0A # ''... output truncated'')"

text \<open>The world's clock and the command runner, as a check sees them.\<close>

definition check_verdict :: "check \<Rightarrow> command_result \<Rightarrow> go_err option \<Rightarrow> int \<Rightarrow> check_result" where
  "check_verdict c res err took =
     (let out = truncate_output (combine_output res);
          r0 = \<lparr>vr_check = ck_name c, vr_passed = False, vr_output = out, vr_duration = took, vr_note = []\<rparr>;
          r = (case err of
                 Some e \<Rightarrow> r0\<lparr>vr_output := truncate_output (join_non_empty [out, err_text e])\<rparr>
               | None \<Rightarrow>
                   if exit_code res \<noteq> 0 then
                     (case aget (ck_allow_exit c) (exit_code res) of
                        Some note \<Rightarrow> r0\<lparr>vr_passed := True, vr_note := note\<rparr>
                      | None \<Rightarrow> r0)
                   else if ck_fail_on_output c \<and> trim_space (cmd_stdout res) \<noteq> [] then r0
                   else r0\<lparr>vr_passed := True\<rparr>)
      in if vr_passed r \<and> vr_note r = [] then
           (case ck_note_when c of None \<Rightarrow> r | Some f \<Rightarrow> r\<lparr>vr_note := f (vr_output r)\<rparr>)
         else r)"

definition run_check ::
    "('w \<Rightarrow> time) \<Rightarrow> 'w ctx \<Rightarrow> 'w runner \<Rightarrow> string \<Rightarrow> check \<Rightarrow> 'w \<Rightarrow> 'w \<times> check_result" where
  "run_check clk ctx run dir c w =
     (case run ctx dir (ck_command c) (ck_args c) w of
        (w', res, err) \<Rightarrow> (w', check_verdict c res err (milliseconds (clk w' - clk w))))"

text \<open>The loop both runners share: the context is read before each check.\<close>

fun run_checks ::
    "('w \<Rightarrow> time) \<Rightarrow> 'w ctx \<Rightarrow> 'w runner \<Rightarrow> string \<Rightarrow> check list \<Rightarrow> check_result list \<Rightarrow> 'w \<Rightarrow>
     'w \<times> report \<times> go_err option" where
  "run_checks clk ctx run dir [] rs w = (w, \<lparr>rp_results = rs\<rparr>, None)"
| "run_checks clk ctx run dir (c # cs) rs w =
     (case ctx w of
        Some e \<Rightarrow> (w, \<lparr>rp_results = rs\<rparr>,
          Some (Errorf ''verification cancelled after %d checks: %w'' [FInt (int (length rs)), FW e]))
      | None \<Rightarrow>
          (case run_check clk ctx run dir c w of
             (w', r) \<Rightarrow> run_checks clk ctx run dir cs (rs @ [r]) w'))"

definition new_runner_checks :: "check list \<Rightarrow> check list" where
  "new_runner_checks cs = (if cs = [] then default_checks else cs)"

definition runner_verify ::
    "('w \<Rightarrow> time) \<Rightarrow> 'w ctx \<Rightarrow> 'w runner \<Rightarrow> check list \<Rightarrow> string \<Rightarrow> 'w \<Rightarrow> 'w \<times> report \<times> go_err option" where
  "runner_verify clk ctx run cs dir w =
     (if cs = [] then (w, empty_report, Some (Sentinel ErrNoChecks))
      else run_checks clk ctx run dir cs [] w)"

subsection \<open>Detection (\<open>detect.go\<close>)\<close>

definition auto_commands :: "string list" where
  "auto_commands = [''go'', ''gofmt'', ''npm'', ''pytest'', ''cargo'']"

definition npm_placeholder :: string where
  "npm_placeholder =
     ''echo '' @ [CHR 0x22] @ ''Error: no test specified'' @ [CHR 0x22] @ '' && exit 1''"

text \<open>
  What detection reads of the host: which files exist, which tools are on the path, file contents,
  and the JSON library's reading of the "scripts" object of a manifest.
\<close>

record 'w host =
  h_exists :: "string \<Rightarrow> 'w \<Rightarrow> bool"
  h_installed :: "string \<Rightarrow> 'w \<Rightarrow> bool"
  h_read_file :: "string \<Rightarrow> 'w \<Rightarrow> bytes result"
  h_scripts :: "bytes \<Rightarrow> (string, string) amap result"

definition npm_test_script :: "'w host \<Rightarrow> string \<Rightarrow> 'w \<Rightarrow> string result" where
  "npm_test_script h path w =
     (case h_read_file h path w of
        Inl e \<Rightarrow> Inl e
      | Inr b \<Rightarrow>
          (case h_scripts h b of
             Inl e \<Rightarrow> Inl e
           | Inr m \<Rightarrow> Inr (trim_space (case aget m ''test'' of None \<Rightarrow> [] | Some s \<Rightarrow> s))))"

definition note_result :: "string \<Rightarrow> string \<Rightarrow> check_result" where
  "note_result c t = \<lparr>vr_check = c, vr_passed = True, vr_output = [], vr_duration = 0, vr_note = t\<rparr>"

definition detect_go :: "'w host \<Rightarrow> string \<Rightarrow> 'w \<Rightarrow> (check list \<times> check_result list) option" where
  "detect_go h dir w =
     (if \<not> h_exists h (path_join [dir, ''go.mod'']) w then None
      else if h_installed h ''go'' w then Some (default_checks, [])
      else Some ([], [note_result ''go''
        ''go.mod found but the Go toolchain is not installed on this host; Go checks skipped'']))"

definition detect_npm :: "'w host \<Rightarrow> string \<Rightarrow> 'w \<Rightarrow> (check list \<times> check_result list) option" where
  "detect_npm h dir w =
     (if \<not> h_exists h (path_join [dir, ''package.json'']) w then None
      else Some (case npm_test_script h (path_join [dir, ''package.json'']) w of
        Inl e \<Rightarrow> ([], [\<lparr>vr_check = ''npm'', vr_passed = False,
            vr_output = ''package.json is not valid JSON: '' @ err_text e, vr_duration = 0, vr_note = []\<rparr>])
      | Inr script \<Rightarrow>
          if script = [] \<or> script = npm_placeholder
          then ([], [note_result ''npm'' ''package.json has no real test script; Node checks skipped''])
          else if \<not> h_installed h ''npm'' w
          then ([], [note_result ''npm''
            ''package.json found but npm is not installed on this host; Node checks skipped''])
          else ([plain_check ''npm test'' ''npm'' [''test'', ''--silent'']], [])))"

definition detect_python :: "'w host \<Rightarrow> string \<Rightarrow> 'w \<Rightarrow> (check list \<times> check_result list) option" where
  "detect_python h dir w =
     (if \<not> (h_exists h (path_join [dir, ''pyproject.toml'']) w \<or>
             h_exists h (path_join [dir, ''requirements.txt'']) w \<or>
             h_exists h (path_join [dir, ''setup.py'']) w) then None
      else if h_installed h ''pytest'' w
      then Some ([(plain_check ''pytest'' ''pytest'' [''-q''])
                    \<lparr>ck_allow_exit := [(5, ''no tests collected: the gate ran nothing for Python'')]\<rparr>], [])
      else Some ([], [note_result ''pytest''
        ''Python manifest found but pytest is not installed on this host; Python checks skipped'']))"

definition detect_cargo :: "'w host \<Rightarrow> string \<Rightarrow> 'w \<Rightarrow> (check list \<times> check_result list) option" where
  "detect_cargo h dir w =
     (if \<not> h_exists h (path_join [dir, ''Cargo.toml'']) w then None
      else if h_installed h ''cargo'' w
      then Some ([plain_check ''cargo test'' ''cargo'' [''test'']], [])
      else Some ([], [note_result ''cargo''
        ''Cargo.toml found but cargo is not installed on this host; Rust checks skipped'']))"

definition detect :: "'w host \<Rightarrow> string \<Rightarrow> 'w \<Rightarrow> check list \<times> check_result list" where
  "detect h dir w =
     (let found = somes
            [detect_go h dir w, detect_npm h dir w, detect_python h dir w, detect_cargo h dir w]
      in (concat (map fst found),
          if found = [] then [note_result ''detect''
             (''no recognised toolchain (go.mod, package.json, pyproject.toml, requirements.txt, '' @
              ''setup.py, Cargo.toml): no checks were run'')]
          else concat (map snd found)))"

definition auto_verify ::
    "('w \<Rightarrow> time) \<Rightarrow> 'w ctx \<Rightarrow> 'w runner \<Rightarrow> 'w host \<Rightarrow> string \<Rightarrow> 'w \<Rightarrow> 'w \<times> report \<times> go_err option" where
  "auto_verify clk ctx run h dir w =
     (case detect h dir w of (checks, notes) \<Rightarrow> run_checks clk ctx run dir checks notes w)"

subsection \<open>What a verdict means\<close>

lemma verdict_passed_iff:
  "vr_passed (check_verdict c res err took) \<longleftrightarrow>
     err = None \<and>
     (if exit_code res = 0 then \<not> (ck_fail_on_output c \<and> trim_space (cmd_stdout res) \<noteq> [])
      else aget (ck_allow_exit c) (exit_code res) \<noteq> None)"
  by (auto simp: check_verdict_def Let_def split: option.split)

lemma verdict_check [simp]: "vr_check (check_verdict c res err took) = ck_name c"
  by (auto simp: check_verdict_def Let_def split: option.split)

lemma truncate_output_bound: "int (length (truncate_output s)) \<le> max_output_bytes + 21"
  by (simp add: truncate_output_def max_output_bytes_def)

lemma verdict_output_bound: "int (length (vr_output (check_verdict c res err took))) \<le> max_output_bytes + 21"
  using truncate_output_bound by (auto simp: check_verdict_def Let_def split: option.split)

text \<open>One check was run from some world in which the context was live, and this is its verdict.\<close>

definition executed ::
    "('w \<Rightarrow> time) \<Rightarrow> 'w ctx \<Rightarrow> 'w runner \<Rightarrow> string \<Rightarrow> check \<Rightarrow> check_result \<Rightarrow> bool" where
  "executed clk ctx run dir c q =
     (\<exists>w0 w1 res err. ctx w0 = None \<and> run ctx dir (ck_command c) (ck_args c) w0 = (w1, res, err) \<and>
        q = check_verdict c res err (milliseconds (clk w1 - clk w0)))"

lemma run_checks_ok:
  "run_checks clk ctx run dir cs rs w = (w', rep, None) \<Longrightarrow>
     \<exists>qs. rp_results rep = rs @ qs \<and> list_all2 (executed clk ctx run dir) cs qs"
proof (induction cs arbitrary: rs w)
  case Nil
  then show ?case by auto
next
  case (Cons c cs)
  obtain w1 res err where r: "run ctx dir (ck_command c) (ck_args c) w = (w1, res, err)"
    by (cases "run ctx dir (ck_command c) (ck_args c) w") auto
  let ?q = "check_verdict c res err (milliseconds (clk w1 - clk w))"
  from Cons.prems r have live: "ctx w = None"
    and rest: "run_checks clk ctx run dir cs (rs @ [?q]) w1 = (w', rep, None)"
    by (auto simp: run_check_def split: option.splits)
  from live r have "executed clk ctx run dir c ?q" by (auto simp: executed_def)
  moreover from Cons.IH [OF rest] obtain qs where
    "rp_results rep = (rs @ [?q]) @ qs" "list_all2 (executed clk ctx run dir) cs qs" by blast
  ultimately show ?case by (intro exI [of _ "?q # qs"]) simp
qed

lemma executed_names: "list_all2 (executed clk ctx run dir) cs qs \<Longrightarrow> map vr_check qs = map ck_name cs"
  by (induction rule: list_all2_induct) (auto simp: executed_def)

lemma run_checks_err:
  "run_checks clk ctx run dir cs rs w = (w', rep, Some e) \<Longrightarrow>
     \<exists>x n. ctx w' = Some x \<and>
       e = Errorf ''verification cancelled after %d checks: %w'' [FInt (int n), FW x] \<and>
       n = length (rp_results rep) \<and> n < length rs + length cs"
  by (induction cs arbitrary: rs w) (fastforce split: option.splits prod.splits)+

text \<open>A passing report over checks that a predicate of their worlds must hold in.\<close>

lemma passed_executed:
  assumes "list_all2 (executed clk ctx run dir) cs qs" and "list_all vr_passed qs" and "c \<in> set cs"
  obtains w0 w1 res where "run ctx dir (ck_command c) (ck_args c) w0 = (w1, res, None)"
    "exit_code res \<noteq> 0 \<longrightarrow> aget (ck_allow_exit c) (exit_code res) \<noteq> None"
    "exit_code res = 0 \<longrightarrow> ck_fail_on_output c \<longrightarrow> trim_space (cmd_stdout res) = []"
proof -
  from assms(1,3) obtain q where q: "q \<in> set qs" "executed clk ctx run dir c q"
    by (auto simp: list_all2_conv_all_nth in_set_conv_nth) blast
  with assms(2) have "vr_passed q" by (simp add: list_all_iff)
  with q(2) that show thesis by (auto simp: executed_def verdict_passed_iff split: if_splits)
qed

subsection \<open>Detection\<close>

lemmas detect_defs = detect_def detect_go_def detect_npm_def detect_python_def detect_cargo_def

lemma default_check_commands: "ck_command ` set default_checks = {''gofmt'', ''go''}"
  by (simp add: default_checks_def plain_check_def)

text \<open>Each preset finds something to say, and commands only its own binaries.\<close>

definition preset_ok :: "string list \<Rightarrow> (check list \<times> check_result list) option \<Rightarrow> bool" where
  "preset_ok cmds p =
     (case p of None \<Rightarrow> True
      | Some (cs, ns) \<Rightarrow> (cs \<noteq> [] \<or> ns \<noteq> []) \<and> ck_command ` set cs \<subseteq> set cmds)"

lemma preset_go: "preset_ok [''go'', ''gofmt''] (detect_go h dir w)"
  unfolding detect_go_def
  by (simp add: preset_ok_def default_check_commands)
    (simp add: default_checks_def)

lemma preset_npm: "preset_ok [''npm''] (detect_npm h dir w)"
  unfolding detect_npm_def
  by (simp add: preset_ok_def plain_check_def split: sum.split)

lemma preset_python: "preset_ok [''pytest''] (detect_python h dir w)"
  unfolding detect_python_def by (simp add: preset_ok_def plain_check_def)

lemma preset_cargo: "preset_ok [''cargo''] (detect_cargo h dir w)"
  unfolding detect_cargo_def by (simp add: preset_ok_def plain_check_def)

lemmas presets_ok = preset_go preset_npm preset_python preset_cargo

lemma concat_found:
  "(\<And>cs ns. Some (cs, ns) \<in> set xs \<Longrightarrow> f ` set cs \<subseteq> A) \<Longrightarrow>
     f ` set (concat (map fst (somes xs))) \<subseteq> A"
  by force

lemma detected_commands_subset: "ck_command ` set (fst (detect h dir w)) \<subseteq> set auto_commands"
proof -
  have sub: "ck_command ` set cs \<subseteq> set auto_commands"
    if "preset_ok cmds (Some (cs, ns))" "set cmds \<subseteq> set auto_commands" for cmds cs ns
    using that by (auto simp: preset_ok_def)
  have "ck_command ` set cs \<subseteq> set auto_commands"
    if "Some (cs, ns) \<in> {detect_go h dir w, detect_npm h dir w, detect_python h dir w, detect_cargo h dir w}"
    for cs ns
    using that presets_ok [of h dir w]
      sub [of "[''go'', ''gofmt'']" cs ns] sub [of "[''npm'']" cs ns]
      sub [of "[''pytest'']" cs ns] sub [of "[''cargo'']" cs ns]
    by (elim insertE emptyE) (simp_all add: auto_commands_def)
  then have "ck_command ` set cs \<subseteq> set auto_commands"
    if "Some (cs, ns) \<in> set [detect_go h dir w, detect_npm h dir w, detect_python h dir w, detect_cargo h dir w]"
    for cs ns using that by simp
  from concat_found [OF this] show ?thesis by (simp only: detect_def Let_def fst_conv)
qed

text \<open>
  The repository chooses which presets run, never what they run: whatever manifests a worktree
  has, every command of every detected check is one of the five binaries of \<open>AutoCommands\<close>, which
  is the allowlist of the verification runner.
\<close>

theorem detected_commands_allowed:
  "ck_command ` set (fst (detect h dir w)) \<subseteq> set auto_commands \<and>
   list_all (\<lambda>c. allows (sr_allowlist (new_safe_runner inner auto_commands d clk)) (ck_command c))
     (fst (detect h dir w))"
  using detected_commands_subset [of h dir w]
  by (auto simp: allows_def new_safe_runner_def list_all_iff)

lemma detect_not_silent: "fst (detect h dir w) \<noteq> [] \<or> snd (detect h dir w) \<noteq> []"
  using presets_ok [of h dir w]
  by (cases "detect_go h dir w"; cases "detect_npm h dir w"; cases "detect_python h dir w";
      cases "detect_cargo h dir w"; simp add: detect_def Let_def preset_ok_def
        split: prod.splits; blast)

lemma auto_verify_ok:
  assumes "auto_verify clk ctx run h dir w = (w', rep, None)"
  obtains qs where "rp_results rep = snd (detect h dir w) @ qs"
    "list_all2 (executed clk ctx run dir) (fst (detect h dir w)) qs"
  using assms run_checks_ok [of clk ctx run dir "fst (detect h dir w)" "snd (detect h dir w)" w w' rep]
  by (auto simp: auto_verify_def split: prod.splits)

text \<open>
  C27: the gate is never vacuous.  A verification that completes reports, after the notes of
  detection, exactly one result per detected check in order, and at least one result in all, so
  that a report with all results passed never stands for an empty run.
\<close>

theorem auto_verify_complete:
  assumes "auto_verify clk ctx run h dir w = (w', rep, None)"
  shows "rp_results rep \<noteq> [] \<and>
    map vr_check (rp_results rep) =
      map vr_check (snd (detect h dir w)) @ map ck_name (fst (detect h dir w))"
proof -
  from auto_verify_ok [OF assms] obtain qs where qs: "rp_results rep = snd (detect h dir w) @ qs"
    "list_all2 (executed clk ctx run dir) (fst (detect h dir w)) qs" .
  moreover have "fst (detect h dir w) \<noteq> [] \<longrightarrow> qs \<noteq> []" using qs(2) by (cases qs) auto
  ultimately show ?thesis using detect_not_silent [of h dir w] executed_names [OF qs(2)] by auto
qed

text \<open>
  C14: what a passed Go gate certifies.  If a worktree has a \<open>go.mod\<close>, the Go toolchain is installed
  and the verification returned a report with every result passed, then \<open>gofmt -l .\<close>, \<open>go vet ./...\<close>
  and \<open>go test ./...\<close> were each really run in that directory, without error, with exit code 0, and
  \<open>gofmt\<close> listed nothing.
\<close>

theorem go_gate_evidence:
  assumes v: "auto_verify clk ctx run h dir w = (w', rep, None)" and pass: "all_passed rep"
    and gomod: "h_exists h (path_join [dir, ''go.mod'']) w" and go: "h_installed h ''go'' w"
  shows "(\<exists>w0 w1 r. run ctx dir ''gofmt'' [''-l'', ''.''] w0 = (w1, r, None) \<and>
            exit_code r = 0 \<and> trim_space (cmd_stdout r) = []) \<and>
         (\<exists>w0 w1 r. run ctx dir ''go'' [''vet'', ''./...''] w0 = (w1, r, None) \<and> exit_code r = 0) \<and>
         (\<exists>w0 w1 r. run ctx dir ''go'' [''test'', ''./...''] w0 = (w1, r, None) \<and> exit_code r = 0)"
proof -
  from auto_verify_ok [OF v] obtain qs where qs: "rp_results rep = snd (detect h dir w) @ qs"
    "list_all2 (executed clk ctx run dir) (fst (detect h dir w)) qs" .
  have "set default_checks \<subseteq> set (fst (detect h dir w))"
    using gomod go by (simp add: detect_def detect_go_def Let_def)
  then have mem: "default_checks ! i \<in> set (fst (detect h dir w))" if "i < 3" for i
    using that nth_mem [of i default_checks] by (auto simp: default_checks_def)
  have qp: "list_all vr_passed qs" using pass qs(1) by (simp add: all_passed_def)
  note ex = passed_executed [OF qs(2) qp mem]
  show ?thesis
    using ex [of 0 thesis for thesis] ex [of 1 thesis for thesis] ex [of 2 thesis for thesis] 
    by (simp add: default_checks_def plain_check_def) metis
qed

subsection \<open>Verification through the guarded runner\<close>

text \<open>The last world of a run of checks is where the last check left it.\<close>

lemma run_checks_last:
  "run_checks clk ctx run dir cs rs w = (w', rep, None) \<Longrightarrow> cs \<noteq> [] \<Longrightarrow>
     \<exists>w0 res err. run ctx dir (ck_command (last cs)) (ck_args (last cs)) w0 = (w', res, err) \<and>
       rp_results rep \<noteq> [] \<and> last (rp_results rep) =
         check_verdict (last cs) res err (milliseconds (clk w' - clk w0))"
proof (induction cs arbitrary: rs w)
  case (Cons c cs)
  obtain w1 res err where r: "run ctx dir (ck_command c) (ck_args c) w = (w1, res, err)"
    by (cases "run ctx dir (ck_command c) (ck_args c) w") auto
  let ?q = "check_verdict c res err (milliseconds (clk w1 - clk w))"
  from Cons.prems r have rest: "run_checks clk ctx run dir cs (rs @ [?q]) w1 = (w', rep, None)"
    by (auto simp: run_check_def split: option.splits)
  show ?case
  proof (cases "cs = []")
    case True
    with rest have "w' = w1" "rp_results rep = rs @ [?q]" by auto
    with True r show ?thesis by auto
  next
    case False
    with Cons.IH [OF rest] show ?thesis by simp
  qed
qed simp

text \<open>
  A cancelled job never passes the gate.  With the command runner the service uses (the guarded
  one over the allowlist of \<open>AutoCommands\<close>), a verification of a recognised repository that completes
  with every result passed ended in a world where the job's context was still live.
\<close>

lemma passed_while_live:
  assumes "auto_verify clk ctx (safe_run (new_safe_runner inner auto_commands d clk)) h dir w = (w', rep, None)"
    and "all_passed rep" and "fst (detect h dir w) \<noteq> []"
  shows "ctx w' = None"
proof -
  let ?s = "new_safe_runner inner auto_commands d clk" and ?cs = "fst (detect h dir w)"
  from assms(1) have "run_checks clk ctx (safe_run ?s) dir ?cs (snd (detect h dir w)) w = (w', rep, None)"
    by (simp add: auto_verify_def split: prod.splits)
  from run_checks_last [OF this assms(3)] obtain w0 res err where
    r: "safe_run ?s ctx dir (ck_command (last ?cs)) (ck_args (last ?cs)) w0 = (w', res, err)"
    and l: "rp_results rep \<noteq> []"
      "last (rp_results rep) = check_verdict (last ?cs) res err (milliseconds (clk w' - clk w0))"
    by blast
  from assms(2) l(1) have "vr_passed (last (rp_results rep))" by (simp add: all_passed_def list_all_iff)
  with l(2) have "err = None" by (simp add: verdict_passed_iff)
  moreover have "allows (sr_allowlist ?s) (ck_command (last ?cs))"
    using detected_commands_subset [of h dir w] assms(3)
    by (auto simp: allows_def new_safe_runner_def)
  ultimately show ?thesis using safe.cancelled [OF r] by (cases "ctx w'") auto
qed

subsection \<open>Concrete runs\<close>

definition sample_host :: "unit host" where
  "sample_host =
     \<lparr>h_exists = (\<lambda>p w. p = ''/r/go.mod''), h_installed = (\<lambda>t w. True),
      h_read_file = (\<lambda>p w. Inl (Sentinel ErrNotExist)), h_scripts = (\<lambda>b. Inr [])\<rparr>"

definition quick_runner :: "unit runner" where
  "quick_runner ctx dir c as w = (w, empty_result, None)"

abbreviation sample_verify :: "unit \<times> report \<times> go_err option" where
  "sample_verify \<equiv> auto_verify (\<lambda>_. 0) (\<lambda>_. None) quick_runner sample_host ''/r'' ()"

definition sample_report :: report where
  "sample_report = \<lparr>rp_results =
     [\<lparr>vr_check = ''gofmt'', vr_passed = True, vr_output = [], vr_duration = 0, vr_note = []\<rparr>,
      \<lparr>vr_check = ''go vet'', vr_passed = True, vr_output = [], vr_duration = 0, vr_note = []\<rparr>,
      \<lparr>vr_check = ''go test'', vr_passed = True, vr_output = [], vr_duration = 0, vr_note = []\<rparr>]\<rparr>"

lemma quick_verdicts:
  "map (\<lambda>c. check_verdict c empty_result None 0) default_checks = rp_results sample_report"
  by code_simp

lemma quick_checks:
  "run_checks (\<lambda>_. 0) (\<lambda>_. None) quick_runner dir cs rs w =
     (w, \<lparr>rp_results = rs @ map (\<lambda>c. check_verdict c empty_result None 0) cs\<rparr>, None)"
  by (induction cs arbitrary: rs) (simp_all add: run_check_def quick_runner_def milliseconds_def)

lemma quick_safe_checks:
  "set (map ck_command cs) \<subseteq> set auto_commands \<Longrightarrow>
   run_checks (\<lambda>_. 0) (\<lambda>_. None) (safe_run (new_safe_runner quick_runner auto_commands 0 (\<lambda>_. 0))) dir cs rs w =
     (w, \<lparr>rp_results = rs @ map (\<lambda>c. check_verdict c empty_result None 0) cs\<rparr>, None)"
  by (induction cs arbitrary: rs)
    (simp_all add: run_check_def safe_run_def new_safe_runner_def allows_def quick_runner_def
      with_timeout_def milliseconds_def minute_def second_def)

lemma sample_detect: "detect sample_host ''/r'' () = (default_checks, [])"
proof -
  have p: "path_join [''/r'', ''go.mod''] = ''/r/go.mod''" "path_join [''/r'', ''package.json''] = ''/r/package.json''"
    "path_join [''/r'', ''pyproject.toml''] = ''/r/pyproject.toml''"
    "path_join [''/r'', ''requirements.txt''] = ''/r/requirements.txt''"
    "path_join [''/r'', ''setup.py''] = ''/r/setup.py''" "path_join [''/r'', ''Cargo.toml''] = ''/r/Cargo.toml''"
    by code_simp+
  show ?thesis by (simp add: detect_defs p sample_host_def)
qed

lemma sample_verify_ok: "sample_verify = ((), sample_report, None)"
  using quick_verdicts by (simp add: auto_verify_def sample_detect quick_checks)

lemma sample_safe_verify:
  "auto_verify (\<lambda>_. 0) (\<lambda>_. None) (safe_run (new_safe_runner quick_runner auto_commands 0 (\<lambda>_. 0)))
     sample_host ''/r'' () = ((), sample_report, None)"
proof -
  have "set (map ck_command default_checks) \<subseteq> set auto_commands"
    by (simp add: default_check_commands auto_commands_def)
  from quick_safe_checks [OF this] show ?thesis
    using quick_verdicts by (simp add: auto_verify_def sample_detect)
qed

theorem auto_verify_complete_witness:
  "map vr_check (rp_results sample_report) = [''gofmt'', ''go vet'', ''go test'']"
proof -
  have d: "map vr_check (snd (detect sample_host ''/r'' ())) @ map ck_name (fst (detect sample_host ''/r'' ()))
    = [''gofmt'', ''go vet'', ''go test'']" by (simp add: sample_detect) code_simp
  from auto_verify_complete [OF sample_verify_ok] d show ?thesis by simp
qed

theorem go_gate_evidence_witness:
  "\<exists>w0 w1 r. quick_runner (\<lambda>_. None) ''/r'' ''go'' [''test'', ''./...''] w0 = (w1, r, None) \<and> exit_code r = 0"
proof -
  have "path_join [''/r'', ''go.mod''] = ''/r/go.mod''" by code_simp
  then have "all_passed sample_report" "h_exists sample_host (path_join [''/r'', ''go.mod'']) ()"
    "h_installed sample_host ''go'' ()" by (simp_all add: sample_report_def all_passed_def sample_host_def)
  from go_gate_evidence [OF sample_verify_ok this] show ?thesis by blast
qed

theorem passed_while_live_witness: "(\<lambda>_ :: unit. None :: go_err option) () = None \<and> all_passed sample_report"
proof -
  have "all_passed sample_report" "fst (detect sample_host ''/r'' ()) \<noteq> []"
    by (simp_all add: sample_report_def all_passed_def sample_detect default_checks_def)
  with passed_while_live [OF sample_safe_verify] show ?thesis by simp
qed

end
