(* ===== verification/Agents.thy ===== *)
theory Agents
  imports Verification Implementor
begin

text \<open>
  \<open>internal/agents\<close>: the planner, the proposing half of the implementor and the reviewer.  Each sends
  one request to a model client and refuses an answer that is not what it asked for.  The client,
  the system prompts and the JSON library are arguments.
\<close>

subsection \<open>Coping with model output (\<open>model/unfence.go\<close>, \<open>model/loose.go\<close>)\<close>

definition fence :: string where
  "fence = ''```''"

definition unfence :: "string \<Rightarrow> string" where
  "unfence s0 =
     (let s = trim_space s0 in
      if \<not> has_prefix s fence then s
      else let s1 = (case index_byte s (CHR 0x0A) of Some i \<Rightarrow> drop (Suc i) s | None \<Rightarrow> s);
               s2 = (case last_index_str s1 fence of Some i \<Rightarrow> take i s1 | None \<Rightarrow> s1)
           in trim_space s2)"

definition truncate_json :: "string \<Rightarrow> string" where
  "truncate_json b = (if length b \<le> 60 then b else take 60 b @ ''...'')"

text \<open>
  \<open>LooseString.UnmarshalJSON\<close>; the JSON library's reading of a quoted string and the acceptance of
  \<open>strconv.ParseFloat\<close> are arguments.
\<close>

definition loose_string ::
    "(string \<Rightarrow> string result) \<Rightarrow> (string \<Rightarrow> bool) \<Rightarrow> string \<Rightarrow> string result" where
  "loose_string unquote is_float b0 =
     (let b = trim_space b0 in
      if b = ''null'' then Inr []
      else if b \<noteq> [] \<and> hd b = CHR 0x22 then unquote b
      else if is_float b then Inr b
      else if b = ''true'' \<or> b = ''false'' then Inr b
      else Inl (Errorf ''cannot read %s as a string'' [FStr (truncate_json b)]))"

subsection \<open>Requests and answers\<close>

record plan_step =
  ps_id :: string
  ps_description :: string
  ps_files :: "string list"

record plan =
  pn_summary :: string
  pn_steps :: "plan_step list"

definition empty_plan :: plan where
  "empty_plan = \<lparr>pn_summary = [], pn_steps = []\<rparr>"

record planner_request =
  pq_task :: string
  pq_repo_path :: string
  pq_files :: "string list"
  pq_tree :: "string list"

record source_file =
  sf_path :: string
  sf_content :: string

record implementor_request =
  iq_task :: string
  iq_plan :: plan
  iq_files :: "source_file list"
  iq_tree :: "string list"
  iq_feedback :: string

record reviewer_request =
  rq_task :: string
  rq_plan :: plan
  rq_diff :: string
  rq_verification :: report
  rq_prior_feedback :: string
  rq_changed_files :: "string list"

definition decision_approve :: string where
  "decision_approve = ''approve''"

definition decision_request_changes :: string where
  "decision_request_changes = ''request_changes''"

definition decision_reject :: string where
  "decision_reject = ''reject''"

record review =
  rv_decision :: string
  rv_notes :: string
  rv_reasons :: "string list"

text \<open>A model client: system text and prompt to the answer's text.\<close>

type_synonym 'w client = "string \<Rightarrow> string \<Rightarrow> 'w \<Rightarrow> 'w \<times> string result"

text \<open>The JSON library, at the types the agents use it.\<close>

record agent_json =
  marshal_plan_request :: "planner_request \<Rightarrow> string result"
  unmarshal_plan :: "string \<Rightarrow> plan result"
  marshal_impl_request :: "implementor_request \<Rightarrow> string result"
  unmarshal_ops :: "string \<Rightarrow> operation list result"
  marshal_review_request :: "reviewer_request \<Rightarrow> string result"
  unmarshal_review :: "string \<Rightarrow> review result"

subsection \<open>The planner\<close>

fun bad_step :: "nat \<Rightarrow> plan_step list \<Rightarrow> nat option" where
  "bad_step i [] = None"
| "bad_step i (s # ss) =
     (if trim_space (ps_id s) = [] \<or> trim_space (ps_description s) = [] then Some i
      else bad_step (Suc i) ss)"

definition plan_agent ::
    "agent_json \<Rightarrow> string \<Rightarrow> 'w client \<Rightarrow> planner_request \<Rightarrow> 'w \<Rightarrow> 'w \<times> plan result" where
  "plan_agent js sys cl req w =
     (if trim_space (pq_task req) = []
      then (w, Inl (Errorf ''%w: task is empty'' [FW (Sentinel ErrInvalidPlan)]))
      else case marshal_plan_request js req of
        Inl e \<Rightarrow> (w, Inl (Errorf ''marshal planner request: %w'' [FW e]))
      | Inr prompt \<Rightarrow>
          (case cl sys prompt w of
             (w', Inl e) \<Rightarrow> (w', Inl (Errorf ''model call: %w'' [FW e]))
           | (w', Inr text) \<Rightarrow>
               (w', if trim_space text = [] then Inl (Sentinel ErrEmptyPlan)
                    else case unmarshal_plan js (unfence text) of
                      Inl e \<Rightarrow> Inl (Errorf ''%w: %v'' [FW (Sentinel ErrInvalidPlan), FV e])
                    | Inr p \<Rightarrow>
                        if pn_steps p = []
                        then Inl (Errorf ''%w: no steps'' [FW (Sentinel ErrInvalidPlan)])
                        else (case bad_step 0 (pn_steps p) of
                           Some i \<Rightarrow> Inl (Errorf ''%w: step %d missing id or description''
                                      [FW (Sentinel ErrInvalidPlan), FInt (int i)])
                         | None \<Rightarrow> Inr p))))"

subsection \<open>The proposing implementor (\<open>agent.go\<close>)\<close>

fun bad_op :: "nat \<Rightarrow> operation list \<Rightarrow> go_err option" where
  "bad_op i [] = None"
| "bad_op i (x # xs) =
     (if op_kind x \<notin> {op_write, op_append, op_delete}
      then Some (Errorf ''%w: op %d has unknown kind %q''
             [FW (Sentinel ErrInvalidOperations), FInt (int i), FQ (op_kind x)])
      else if trim_space (op_path x) = []
      then Some (Errorf ''%w: op %d has no path'' [FW (Sentinel ErrInvalidOperations), FInt (int i)])
      else bad_op (Suc i) xs)"

definition propose_agent ::
    "agent_json \<Rightarrow> string \<Rightarrow> 'w client \<Rightarrow> implementor_request \<Rightarrow> 'w \<Rightarrow> 'w \<times> operation list result" where
  "propose_agent js sys cl req w =
     (if trim_space (iq_task req) = []
      then (w, Inl (Errorf ''%w: task is empty'' [FW (Sentinel ErrInvalidOperations)]))
      else case marshal_impl_request js req of
        Inl e \<Rightarrow> (w, Inl (Errorf ''marshal implementor request: %w'' [FW e]))
      | Inr prompt \<Rightarrow>
          (case cl sys prompt w of
             (w', Inl e) \<Rightarrow> (w', Inl (Errorf ''model call: %w'' [FW e]))
           | (w', Inr text) \<Rightarrow>
               (w', case unmarshal_ops js (unfence text) of
                      Inl e \<Rightarrow> Inl (Errorf ''%w: %v'' [FW (Sentinel ErrInvalidOperations), FV e])
                    | Inr ops \<Rightarrow>
                        if ops = [] then Inl (Sentinel ErrNoOperations)
                        else (case bad_op 0 ops of Some e \<Rightarrow> Inl e | None \<Rightarrow> Inr ops))))"

subsection \<open>The reviewer\<close>

definition review_agent ::
    "agent_json \<Rightarrow> string \<Rightarrow> 'w client \<Rightarrow> reviewer_request \<Rightarrow> 'w \<Rightarrow> 'w \<times> review result" where
  "review_agent js sys cl req w =
     (if \<not> all_passed (rq_verification req)
      then (w, Inr \<lparr>rv_decision = decision_request_changes, rv_notes = ''deterministic checks failed'',
                    rv_reasons = []\<rparr>)
      else case marshal_review_request js req of
        Inl e \<Rightarrow> (w, Inl (Errorf ''marshal review request: %w'' [FW e]))
      | Inr body \<Rightarrow>
          (case cl sys body w of
             (w', Inl e) \<Rightarrow> (w', Inl (Errorf ''model call: %w'' [FW e]))
           | (w', Inr text) \<Rightarrow>
               (w', case unmarshal_review js (unfence text) of
                      Inl e \<Rightarrow> Inl (Errorf ''%w: %v'' [FW (Sentinel ErrInvalidDecision), FV e])
                    | Inr r \<Rightarrow>
                        if rv_decision r \<in> {decision_approve, decision_request_changes, decision_reject}
                        then Inr r
                        else Inl (Errorf ''%w: %q'' [FW (Sentinel ErrInvalidDecision), FQ (rv_decision r)]))))"

subsection \<open>What the agents accept\<close>

lemma bad_step_None: "bad_step i ss = None \<longleftrightarrow>
    list_all (\<lambda>s. trim_space (ps_id s) \<noteq> [] \<and> trim_space (ps_description s) \<noteq> []) ss"
  by (induction i ss rule: bad_step.induct) auto

lemma bad_op_None: "bad_op i xs = None \<longleftrightarrow>
    list_all (\<lambda>x. op_kind x \<in> {op_write, op_append, op_delete} \<and> trim_space (op_path x) \<noteq> []) xs"
  by (induction i xs rule: bad_op.induct) auto


text \<open>
  C29: the reviewer cannot override the gate.  Whatever the model answers, an approval is returned only
  for a report in which every check passed, and for any other report the model is not even asked.
\<close>

theorem approval_needs_passing_report:
  assumes "review_agent js sys cl req w = (w', Inr r)"
  shows "rv_decision r \<in> {decision_approve, decision_request_changes, decision_reject} \<and>
    (rv_decision r = decision_approve \<longrightarrow> all_passed (rq_verification req)) \<and>
    (all_passed (rq_verification req) \<or> w' = w)"
  using assms
  by (auto simp: review_agent_def decision_approve_def decision_request_changes_def
      split: if_splits sum.splits prod.splits)

subsection \<open>Unfencing\<close>

lemma last_index_end: "last_index_str (x @ fence) fence = Some (length x)"
proof (induction x)
  case Nil
  then show ?case by code_simp
qed simp

lemma trim_fenced: "trim_space (fence @ x @ fence) = fence @ x @ fence"
proof -
  have "strip_left space_seqs (fence @ y) = fence @ y" for y
    by (rule strip_left_id) (simp add: space_seqs_def ascii_spaces_def fence_def has_prefix_def)
  moreover have "strip_left (map rev space_seqs) (fence @ y) = fence @ y" for y
    by (rule strip_left_id) (simp add: space_seqs_def ascii_spaces_def fence_def has_prefix_def)
  moreover have "rev fence = fence" by (simp add: fence_def)
  ultimately show ?thesis by (simp add: trim_space_def)
qed

text \<open>
  A markdown fence around an answer is harmless.  Unfencing a body between an opening fence, with
  any language tag, and a closing one gives the body without surrounding white space, whatever the
  body contains; an answer without a fence is only trimmed.
\<close>

lemma unfence_fenced:
  assumes "CHR 0x0A \<notin> set lang"
  shows "unfence (fence @ lang @ CHR 0x0A # body @ fence) = trim_space body"
proof -
  have t: "trim_space (fence @ lang @ CHR 0x0A # body @ fence) = fence @ lang @ CHR 0x0A # body @ fence"
    using trim_fenced [of "lang @ CHR 0x0A # body"] by simp
  have "CHR 0x0A \<notin> set (fence @ lang)" using assms by (simp add: fence_def)
  from index_byte_first [OF this, of "body @ fence"]
  have i: "index_byte (fence @ lang @ CHR 0x0A # body @ fence) (CHR 0x0A) = Some (length (fence @ lang))"
    by simp
  have d: "drop (Suc (length (fence @ lang))) (fence @ lang @ CHR 0x0A # body @ fence) = body @ fence"
    by simp
  show ?thesis unfolding unfence_def Let_def t i option.case d by (simp add: last_index_end)
qed

subsection \<open>Concrete runs\<close>

theorem unfence_fenced_witness:
  "unfence (fence @ ''json'' @ CHR 0x0A # ''{}'' @ fence) = ''{}''"
proof -
  have "trim_space ''{}'' = ''{}''" by code_simp
  with unfence_fenced [of "''json''" "''{}''"] show ?thesis by simp
qed

definition sample_agent_json :: agent_json where
  "sample_agent_json =
     \<lparr>marshal_plan_request = (\<lambda>_. Inr []), unmarshal_plan = (\<lambda>_. Inr empty_plan),
      marshal_impl_request = (\<lambda>_. Inr []), unmarshal_ops = (\<lambda>_. Inr []),
      marshal_review_request = (\<lambda>_. Inr []),
      unmarshal_review = (\<lambda>_. Inr \<lparr>rv_decision = ''approve'', rv_notes = [], rv_reasons = []\<rparr>)\<rparr>"

definition sample_review_request :: reviewer_request where
  "sample_review_request =
     \<lparr>rq_task = ''tidy'', rq_plan = empty_plan, rq_diff = ''d'', rq_verification = empty_report,
      rq_prior_feedback = [], rq_changed_files = []\<rparr>"

theorem approval_needs_passing_report_witness:
  "snd (review_agent sample_agent_json [] (\<lambda>s p w. (w, Inr ''{}'')) sample_review_request ()) =
     Inr \<lparr>rv_decision = decision_approve, rv_notes = [], rv_reasons = []\<rparr> \<and>
   all_passed (rq_verification sample_review_request)"
proof -
  let ?r = "\<lparr>rv_decision = decision_approve, rv_notes = [], rv_reasons = []\<rparr>"
  have run: "review_agent sample_agent_json [] (\<lambda>s p w. (w, Inr ''{}'')) sample_review_request () = ((), Inr ?r)"
    by (simp add: review_agent_def sample_agent_json_def sample_review_request_def decision_approve_def)
  from approval_needs_passing_report [OF run] run show ?thesis by simp
qed

end
