(* ===== verification/Fanout.thy ===== *)
theory Fanout
  imports Workspaces Agents
begin

text \<open>
  \<open>internal/orchestration/fanout.go\<close>, \<open>artifacts.go\<close> (the reading of a diff), \<open>sources.go\<close>,
  \<open>retry.go\<close> and the pure parts of \<open>review.go\<close>: the attempts at a job and what is said about them.
  The verifier is a parameter over a state \<open>'s\<close> the model leaves open.
\<close>

subsection \<open>Attempts (\<open>fanout.go\<close>)\<close>

definition max_variants :: int where
  "max_variants = 8"

record candidate =
  cd_index :: nat
  cd_ws :: "workspace option"
  cd_report :: report
  cd_err :: "go_err option"
  cd_impl_err :: "go_err option"
  cd_touched :: "string list"

definition new_candidate :: "nat \<Rightarrow> workspace \<Rightarrow> candidate" where
  "new_candidate i ws =
     \<lparr>cd_index = i, cd_ws = Some ws, cd_report = empty_report, cd_err = None, cd_impl_err = None,
      cd_touched = []\<rparr>"

definition failure :: "candidate \<Rightarrow> go_err option" where
  "failure c = (case cd_impl_err c of Some e \<Rightarrow> Some e | None \<Rightarrow> cd_err c)"

definition implemented :: "candidate \<Rightarrow> bool" where
  "implemented c = (cd_ws c \<noteq> None \<and> cd_impl_err c = None)"

definition passed :: "candidate \<Rightarrow> bool" where
  "passed c = (failure c = None \<and> cd_ws c \<noteq> None \<and> all_passed (cd_report c))"

definition variant_id :: "string \<Rightarrow> nat \<Rightarrow> int \<Rightarrow> string" where
  "variant_id k i n = (if n \<le> 1 then k else sprintf ''%s-v%d'' [k, show_int (int i)])"

definition variant_count :: "int \<Rightarrow> int" where
  "variant_count n = (if n < 1 then 1 else if n > max_variants then max_variants else n)"

text \<open>A verifier: the worktree's path to a report and an error, or a panic.\<close>

type_synonym 's verifier = "string \<Rightarrow> 's \<Rightarrow> 's \<times> (report \<times> go_err option) outcome"

text \<open>One goroutine of \<open>verifyCandidates\<close>, with its recovery.\<close>

definition verify_one :: "'s verifier \<Rightarrow> candidate \<Rightarrow> 's \<Rightarrow> 's \<times> candidate" where
  "verify_one v c s =
     (case cd_ws c of
        Some ws \<Rightarrow>
          if \<not> implemented c then (s, c)
          else (case v (ws_path ws) s of
             (s', Return (rep, err)) \<Rightarrow> (s', c\<lparr>cd_report := rep, cd_err := err\<rparr>)
           | (s', Panic r) \<Rightarrow>
               (s', c\<lparr>cd_err := Some (Errorf ''%w: verifying variant %d: %v''
                  [FW (Sentinel ErrPanic), FInt (int (cd_index c)), FStr r])\<rparr>))
      | None \<Rightarrow> (s, c))"

text \<open>
  The goroutines finish in some order; \<open>schedule ns n\<close> turns any list of numbers into an order of
  the \<open>n\<close> attempts, each exactly once.
\<close>

definition schedule :: "nat list \<Rightarrow> nat \<Rightarrow> nat list" where
  "schedule ns n =
     (let first = filter (\<lambda>i. i < n) (remdups ns) in first @ filter (\<lambda>i. i \<notin> set first) [0..<n])"

fun verify_order :: "'s verifier \<Rightarrow> nat list \<Rightarrow> candidate list \<Rightarrow> 's \<Rightarrow> 's \<times> candidate list" where
  "verify_order v [] cs s = (s, cs)"
| "verify_order v (i # is) cs s =
     (case verify_one v (cs ! i) s of (s', c) \<Rightarrow> verify_order v is (cs[i := c]) s')"

definition verify_candidates :: "'s verifier \<Rightarrow> nat list \<Rightarrow> candidate list \<Rightarrow> 's \<Rightarrow> 's \<times> candidate list" where
  "verify_candidates v ns cs s = verify_order v (schedule ns (length cs)) cs s"

text \<open>\<open>selectWinner\<close> and \<open>representative\<close> return a pointer into the list: here its position.\<close>

fun first_at :: "('a \<Rightarrow> bool) \<Rightarrow> 'a list \<Rightarrow> nat option" where
  "first_at P [] = None"
| "first_at P (x # xs) = (if P x then Some 0 else map_option Suc (first_at P xs))"

definition select_winner :: "candidate list \<Rightarrow> nat option" where
  "select_winner cs = first_at passed cs"

definition representative :: "candidate list \<Rightarrow> nat option" where
  "representative cs =
     (case first_at implemented cs of
        Some i \<Rightarrow> Some i
      | None \<Rightarrow> if cs \<noteq> [] then Some 0 else None)"

record variant_outcome =
  vo_variant :: nat
  vo_passed :: bool
  vo_summary :: string
  vo_error :: string

record fanout_summary =
  fo_total :: nat
  fo_passed :: nat
  fo_winner :: int
  fo_results :: "variant_outcome list"

definition outcome_of :: "candidate \<Rightarrow> variant_outcome" where
  "outcome_of c =
     \<lparr>vo_variant = cd_index c, vo_passed = passed c, vo_summary = summary (cd_report c),
      vo_error = (case failure c of None \<Rightarrow> [] | Some e \<Rightarrow> err_text e)\<rparr>"

definition summarise :: "candidate list \<Rightarrow> nat option \<Rightarrow> fanout_summary" where
  "summarise cs winner =
     \<lparr>fo_total = length cs, fo_passed = length (filter passed cs),
      fo_winner = (case winner of None \<Rightarrow> - 1 | Some i \<Rightarrow> int (cd_index (cs ! i))),
      fo_results = map outcome_of cs\<rparr>"

definition fanout_failure :: "candidate list \<Rightarrow> fanout_summary \<Rightarrow> go_err" where
  "fanout_failure cs sm =
     Joined (Errorf ''no variant passed verification: %d of %d attempts failed''
               [FInt (int (fo_total sm) - int (fo_passed sm)), FInt (int (fo_total sm))] #
             somes (map (\<lambda>c. map_option (\<lambda>e. Errorf ''variant %d: %w'' [FInt (int (cd_index c)), FW e])
                               (failure c)) cs))"

subsection \<open>Feedback and revisions (\<open>review.go\<close>, \<open>retry.go\<close>)\<close>

definition max_feedback_output :: int where
  "max_feedback_output = 4096"

definition max_revisions :: nat where
  "max_revisions = 1"

definition truncate_to :: "string \<Rightarrow> int \<Rightarrow> string" where
  "truncate_to s m =
     (if int (length s) \<le> m then s else take (nat m) s @ CHR 0x0A # ''... (truncated)'')"

definition gate_feedback :: "candidate \<Rightarrow> string" where
  "gate_feedback c =
     ''The previous attempt failed verification: '' @ summary (cd_report c) @
     (case failure c of None \<Rightarrow> [] | Some e \<Rightarrow> CHR 0x0A # ''The verifier reported: '' @ err_text e) @
     [CHR 0x0A, CHR 0x0A] @ ''Fix the cause. Output from the failing checks:'' @ [CHR 0x0A] @
     concat (map (\<lambda>r. CHR 0x0A # ''--- '' @ vr_check r @ '' ---'' @ [CHR 0x0A] @
                       truncate_to (vr_output r) max_feedback_output @ [CHR 0x0A])
       (filter (\<lambda>r. \<not> vr_passed r) (rp_results (cd_report c))))"

text \<open>\<open>RunWithRevisionLoop\<close>: at most \<open>MaxRevisions + 1\<close> attempts.\<close>

fun revision_loop :: "(string \<Rightarrow> 's \<Rightarrow> 's \<times> review result) \<Rightarrow> nat \<Rightarrow> string \<Rightarrow> 's \<Rightarrow> 's \<times> review result" where
  "revision_loop attempt 0 fb s = (s, Inl (Sentinel ErrMaxRevisionsExceeded))"
| "revision_loop attempt (Suc n) fb s =
     (case attempt fb s of
        (s', Inl e) \<Rightarrow> (s', Inl e)
      | (s', Inr r) \<Rightarrow>
          if rv_decision r = decision_approve \<or> rv_decision r = decision_reject then (s', Inr r)
          else revision_loop attempt n (rv_notes r) s')"

definition run_with_revision_loop :: "(string \<Rightarrow> 's \<Rightarrow> 's \<times> review result) \<Rightarrow> 's \<Rightarrow> 's \<times> review result" where
  "run_with_revision_loop attempt s = revision_loop attempt (Suc max_revisions) [] s"

subsection \<open>Diffs (\<open>artifacts.go\<close>)\<close>

definition artifact_diff :: string where
  "artifact_diff = ''patch.diff''"

definition trim_diff_path :: "string \<Rightarrow> string" where
  "trim_diff_path s0 =
     (let s = trim_space s0 in
      if s = ''/dev/null'' then [] else trim_prefix (trim_prefix s ''a/'') ''b/'')"

fun scan_diff :: "string list \<Rightarrow> string \<Rightarrow> string list \<Rightarrow> string list" where
  "scan_diff [] prev out = out"
| "scan_diff (line # ls) prev out =
     (if has_prefix line ''--- '' then scan_diff ls (trim_diff_path (trim_prefix line ''--- '')) out
      else if has_prefix line ''+++ '' then
        (let p0 = trim_diff_path (trim_prefix line ''+++ ''); p = (if p0 = [] then prev else p0)
         in scan_diff ls prev (if p \<noteq> [] \<and> p \<notin> set out then out @ [p] else out))
      else scan_diff ls prev out)"

definition changed_files :: "string \<Rightarrow> string list" where
  "changed_files diff = scan_diff (split_on (CHR 0x0A) diff) [] []"

subsection \<open>Paths and sources (\<open>processor.go\<close>, \<open>sources.go\<close>)\<close>

fun merge_into :: "string list \<Rightarrow> string list \<Rightarrow> string list" where
  "merge_into out [] = out"
| "merge_into out (p # ps) = merge_into (if p \<noteq> [] \<and> p \<notin> set out then out @ [p] else out) ps"

definition merge_paths :: "string list \<Rightarrow> string list \<Rightarrow> string list" where
  "merge_paths a b = merge_into [] (a @ b)"

definition paths_of :: "operation list \<Rightarrow> string list" where
  "paths_of ops = map op_path ops"

definition max_source_files :: nat where
  "max_source_files = 40"

definition max_source_file_bytes :: int where
  "max_source_file_bytes = 65536"

definition max_source_total_byte :: int where
  "max_source_total_byte = 393216"

text \<open>
  \<open>os.Stat\<close> and \<open>os.ReadFile\<close> follow symbolic links anywhere in the file system: \<open>follow n t cur ss\<close>
  is the place of the file that \<open>ss\<close>, taken from the directory \<open>cur\<close>, names.
\<close>

function follow :: "nat \<Rightarrow> tree \<Rightarrow> string list \<Rightarrow> string list \<Rightarrow> string list option" where
  "follow n t cur [] = Some cur"
| "follow n t cur (s # ss) =
     (if s = [] \<or> s = ''.'' then follow n t cur ss
      else if s = ''..'' then follow n t (butlast cur) ss
      else case aget t (cur @ [s]) of
        None \<Rightarrow> None
      | Some Dir \<Rightarrow> follow n t (cur @ [s]) ss
      | Some (Reg c) \<Rightarrow> if ss = [] then Some (cur @ [s]) else None
      | Some (Link tgt) \<Rightarrow>
          if n = 0 then None
          else follow (n - 1) t (if is_abs tgt then [] else cur) (segs tgt @ ss))"
  by pat_completeness auto
termination
  by (relation "measures [\<lambda>(n, t, cur, ss). n, \<lambda>(n, t, cur, ss). length ss]") auto

definition read_regular :: "tree \<Rightarrow> string \<Rightarrow> string option" where
  "read_regular t path =
     (case follow max_links t [] (segs path) of
        None \<Rightarrow> None
      | Some p \<Rightarrow> (case aget t p of Some (Reg c) \<Rightarrow> Some c | _ \<Rightarrow> None))"

text \<open>\<open>unreadable\<close> says which files the system refuses to open.\<close>

fun read_loop :: "(string \<Rightarrow> bool) \<Rightarrow> tree \<Rightarrow> string \<Rightarrow> string list \<Rightarrow> source_file list \<Rightarrow> int \<Rightarrow> source_file list" where
  "read_loop unreadable t wt [] out sofar = out"
| "read_loop unreadable t wt (rel # rels) out sofar =
     (if length out \<ge> max_source_files \<or> sofar \<ge> max_source_total_byte then out
      else if is_abs rel \<or> contains_str rel ''..'' then read_loop unreadable t wt rels out sofar
      else let full = path_join [wt, clean rel] in
        case read_regular t full of
          None \<Rightarrow> read_loop unreadable t wt rels out sofar
        | Some c \<Rightarrow>
            if int (length c) > max_source_file_bytes \<or> unreadable full
            then read_loop unreadable t wt rels out sofar
            else read_loop unreadable t wt rels (out @ [\<lparr>sf_path = rel, sf_content = c\<rparr>])
                   (sofar + int (length c)))"

definition read_sources :: "(string \<Rightarrow> bool) \<Rightarrow> tree \<Rightarrow> string \<Rightarrow> string list \<Rightarrow> source_file list" where
  "read_sources unreadable t wt paths = read_loop unreadable t wt paths [] 0"

end
