(* ===== verification/Fanout_Props.thy ===== *)
theory Fanout_Props
  imports Fanout
begin

text \<open>
  What fanning a job out guarantees: the order in which the attempts finish does not matter, the
  winner is the first attempt that was implemented and passed, names of attempts do not collide,
  and what is sent to a model stays within bounds.
\<close>

subsection \<open>Verification of all attempts\<close>

lemma schedule_perm: "distinct (schedule ns n)" "set (schedule ns n) = {..<n}"
  by (auto simp: schedule_def Let_def)

lemma verify_one_frame:
  "cd_index (snd (verify_one v c s)) = cd_index c" "cd_ws (snd (verify_one v c s)) = cd_ws c"
  "cd_impl_err (snd (verify_one v c s)) = cd_impl_err c" "cd_touched (snd (verify_one v c s)) = cd_touched c"
  by (simp_all add: verify_one_def split: option.split prod.split outcome.split)

lemma verify_order_length [simp]: "length (snd (verify_order v is cs s)) = length cs"
  by (induction v "is" cs s rule: verify_order.induct) (auto split: prod.split)

lemma verify_candidates_length [simp]: "length (snd (verify_candidates v ns cs s)) = length cs"
  by (simp add: verify_candidates_def)

lemma verify_order_frame:
  assumes "set is \<subseteq> {..<length cs}" and "i < length cs"
  shows "cd_index (snd (verify_order v is cs s) ! i) = cd_index (cs ! i) \<and>
    cd_ws (snd (verify_order v is cs s) ! i) = cd_ws (cs ! i) \<and>
    cd_impl_err (snd (verify_order v is cs s) ! i) = cd_impl_err (cs ! i) \<and>
    cd_touched (snd (verify_order v is cs s) ! i) = cd_touched (cs ! i)"
  using assms
proof (induction v "is" cs s rule: verify_order.induct)
  case (2 v j js cs s)
  obtain s' c where one: "verify_one v (cs ! j) s = (s', c)" by (cases "verify_one v (cs ! j) s")
  have c: "cd_index c = cd_index (cs ! j)" "cd_ws c = cd_ws (cs ! j)"
    "cd_impl_err c = cd_impl_err (cs ! j)" "cd_touched c = cd_touched (cs ! j)"
    using verify_one_frame [of v "cs ! j" s] one by simp_all
  show ?case
    using 2(1) [OF one [symmetric]] 2(2,3) c
    by (cases "i = j") (simp_all add: one)
qed simp

lemma verify_candidates_frame:
  assumes "i < length cs"
  shows "cd_index (snd (verify_candidates v ns cs s) ! i) = cd_index (cs ! i)"
    and "cd_ws (snd (verify_candidates v ns cs s) ! i) = cd_ws (cs ! i)"
    and "cd_impl_err (snd (verify_candidates v ns cs s) ! i) = cd_impl_err (cs ! i)"
    and "cd_touched (snd (verify_candidates v ns cs s) ! i) = cd_touched (cs ! i)"
  using verify_order_frame [of "schedule ns (length cs)" cs i v s] assms schedule_perm
  by (simp_all add: verify_candidates_def)

lemma verify_candidates_map:
  "map cd_ws (snd (verify_candidates v ns cs s)) = map cd_ws cs"
  "map cd_impl_err (snd (verify_candidates v ns cs s)) = map cd_impl_err cs"
  by (auto intro!: nth_equalityI simp: verify_candidates_frame)

text \<open>
  A verifier whose verdict on a worktree does not depend on when it runs: \<open>f\<close> is that verdict.
\<close>

definition stable_verifier :: "'s verifier \<Rightarrow> (string \<Rightarrow> (report \<times> go_err option) outcome) \<Rightarrow> bool" where
  "stable_verifier v f = (\<forall>p s. snd (v p s) = f p)"

definition judged :: "(string \<Rightarrow> (report \<times> go_err option) outcome) \<Rightarrow> candidate \<Rightarrow> candidate" where
  "judged f c = snd (verify_one (\<lambda>p s. (s, f p)) c ())"

lemma verify_one_judged: "stable_verifier v f \<Longrightarrow> snd (verify_one v c s) = judged f c"
proof (cases "cd_ws c")
  case (Some ws)
  assume "stable_verifier v f"
  then have "v (ws_path ws) s = (fst (v (ws_path ws) s), f (ws_path ws))"
    by (simp add: stable_verifier_def prod_eq_iff)
  with Some show ?thesis
    by (cases "v (ws_path ws) s"; cases "f (ws_path ws)")
      (auto simp: judged_def verify_one_def split: outcome.splits)
qed (simp add: judged_def verify_one_def)

lemma verify_order_judged:
  assumes "stable_verifier v f" and "distinct is" and "set is \<subseteq> {..<length cs}" and "i < length cs"
  shows "snd (verify_order v is cs s) ! i = (if i \<in> set is then judged f (cs ! i) else cs ! i)"
  using assms(2-)
proof (induction "is" arbitrary: cs s)
  case (Cons j js)
  obtain s' c where one: "verify_one v (cs ! j) s = (s', c)" by (cases "verify_one v (cs ! j) s")
  have c: "c = judged f (cs ! j)" using verify_one_judged [OF assms(1), of "cs ! j" s] one by simp
  from Cons.IH [of "cs[j := c]" s'] Cons.prems one c show ?case
    by (cases "i = j") auto
qed simp

text \<open>
  C13: fan-out is deterministic.  For a verifier whose verdict on a worktree does not depend on timing,
  every attempt gets its own verdict whatever order the goroutines finish in, panics included, so
  the winner is the same; it is the lowest-numbered attempt that was implemented and whose own
  verification returned no error and a report with every check passed.
\<close>

theorem fanout_deterministic:
  assumes "stable_verifier v f"
  shows "snd (verify_candidates v ns cs s) = map (judged f) cs \<and>
    (case select_winner (snd (verify_candidates v ns cs s)) of
       None \<Rightarrow> \<not> list_ex (\<lambda>c. passed (judged f c)) cs
     | Some i \<Rightarrow> i < length cs \<and> \<not> list_ex (\<lambda>c. passed (judged f c)) (take i cs) \<and>
         implemented (cs ! i) \<and>
         (\<exists>ws rep. cd_ws (cs ! i) = Some ws \<and> f (ws_path ws) = Return (rep, None) \<and> all_passed rep))"
proof -
  have eq: "snd (verify_candidates v ns cs s) = map (judged f) cs"
  proof (rule nth_equalityI)
    fix i assume "i < length (snd (verify_candidates v ns cs s))"
    then have i: "i < length cs" by simp
    show "snd (verify_candidates v ns cs s) ! i = map (judged f) cs ! i"
      using verify_order_judged [OF assms, of "schedule ns (length cs)" cs i s] schedule_perm i
      by (simp add: verify_candidates_def)
  qed simp
  have first: "case first_at P xs of
      None \<Rightarrow> \<not> list_ex P xs
    | Some i \<Rightarrow> i < length xs \<and> P (xs ! i) \<and> \<not> list_ex P (take i xs)" for P :: "candidate \<Rightarrow> bool" and xs
    by (induction xs) (auto split: option.splits)
  have won: "implemented c \<and> (\<exists>ws rep. cd_ws c = Some ws \<and> f (ws_path ws) = Return (rep, None) \<and> all_passed rep)"
    if "passed (judged f c)" for c
  proof (cases "cd_ws c")
    case (Some ws)
    have "implemented c"
      using that Some by (auto simp: judged_def verify_one_def passed_def failure_def implemented_def
          split: if_splits option.splits)
    with that Some show ?thesis
      by (auto simp: judged_def verify_one_def passed_def failure_def
          split: outcome.splits prod.splits option.splits)
  qed (use that in \<open>auto simp: judged_def verify_one_def passed_def\<close>)
  from first [of passed "map (judged f) cs"]
  have "case select_winner (map (judged f) cs) of
       None \<Rightarrow> \<not> list_ex (\<lambda>c. passed (judged f c)) cs
     | Some i \<Rightarrow> i < length cs \<and> passed (judged f (cs ! i)) \<and> \<not> list_ex (\<lambda>c. passed (judged f c)) (take i cs)"
    by (auto simp: select_winner_def list_ex_iff take_map split: option.splits)
  with won eq show ?thesis by (auto split: option.splits)
qed

text \<open>Two attempts, verified in the order 1, 0: the verifier panics on the first and passes the second.\<close>

definition sample_attempts :: "candidate list" where
  "sample_attempts =
     map (\<lambda>i. new_candidate i (reconstruct ''/b'' (variant_id ''k'' i 2) ''/r'')) [0, 1]"

definition sample_verdict :: "string \<Rightarrow> (report \<times> go_err option) outcome" where
  "sample_verdict path =
     (if path = ''/b/k-v0'' then Panic ''boom''
      else Return (\<lparr>rp_results = [\<lparr>vr_check = ''go test'', vr_passed = True, vr_output = [], vr_duration = 0, vr_note = []\<rparr>]\<rparr>, None))"

theorem fanout_deterministic_witness:
  "select_winner (snd (verify_candidates (\<lambda>path s. (s, sample_verdict path)) [1, 0] sample_attempts ())) = Some 1 \<and>
   (\<exists>rep. sample_verdict ''/b/k-v1'' = Return (rep, None) \<and> all_passed rep)"
proof -
  have v: "stable_verifier (\<lambda>path s. (s, sample_verdict path)) sample_verdict"
    by (simp add: stable_verifier_def)
  have w: "select_winner (map (judged sample_verdict) sample_attempts) = Some 1" by code_simp
  have ws: "cd_ws (sample_attempts ! 1) = Some (reconstruct ''/b'' ''k-v1'' ''/r'')" by code_simp
  have p: "ws_path (reconstruct ''/b'' ''k-v1'' ''/r'') = ''/b/k-v1''" by code_simp
  from fanout_deterministic [OF v, of "[1, 0]" sample_attempts "()"] w ws p show ?thesis by auto
qed

lemma first_at_Some: "first_at P xs = Some i \<Longrightarrow> i < length xs \<and> P (xs ! i)"
  by (induction xs arbitrary: i) (auto split: if_splits)

lemma first_at_None: "first_at P xs = None \<longleftrightarrow> \<not> list_ex P xs"
  by (induction xs) auto

lemma representative_bound: "representative cs = Some i \<Longrightarrow> i < length cs"
  by (auto simp: representative_def dest: first_at_Some split: option.splits if_splits)

lemma representative_ex: "cs \<noteq> [] \<Longrightarrow> \<exists>i. representative cs = Some i"
  by (simp add: representative_def split: option.split)

lemma select_winner_passed: "select_winner cs = Some i \<Longrightarrow> i < length cs \<and> passed (cs ! i)"
  by (auto simp: select_winner_def dest: first_at_Some)

subsection \<open>Names of attempts\<close>

lemma sprintf_variant: "sprintf ''%s-v%d'' [k, d] = k @ ''-v'' @ d"
  by simp

lemma variant_id_eq: "variant_id k i n = (if n \<le> 1 then k else k @ ''-v'' @ show_nat i)"
  by (simp add: variant_id_def sprintf_variant show_int_def)

lemma variant_id_inj: "1 < n \<Longrightarrow> variant_id k i n = variant_id k j n \<longleftrightarrow> i = j"
  by (simp add: variant_id_eq show_nat_inj)

lemma variant_count_bounds: "1 \<le> variant_count n \<and> variant_count n \<le> 8"
  by (simp add: variant_count_def max_variants_def)

subsection \<open>Lists of paths\<close>

lemma merge_into_spec:
  "distinct out \<Longrightarrow> distinct (merge_into out ps) \<and> set (merge_into out ps) = set out \<union> (set ps - {[]})"
  by (induction ps arbitrary: out) auto

lemma scan_diff_spec:
  "distinct out \<Longrightarrow> [] \<notin> set out \<Longrightarrow> distinct (scan_diff ls prev out) \<and> [] \<notin> set (scan_diff ls prev out)"
  by (induction ls arbitrary: prev out) (auto simp: Let_def)

text \<open>
  Lists of paths are sets in order.  Merging two lists of paths keeps every non-empty path once, and
  the files a diff names are distinct and never empty.
\<close>

theorem path_lists_distinct:
  "distinct (merge_paths a b) \<and> set (merge_paths a b) = set (a @ b) - {[]} \<and>
   distinct (changed_files d) \<and> [] \<notin> set (changed_files d)"
  using merge_into_spec [of "[]" "a @ b"] scan_diff_spec [of "[]"]
  by (auto simp: merge_paths_def changed_files_def)

subsection \<open>Sources\<close>

definition source_bytes :: "source_file list \<Rightarrow> int" where
  "source_bytes fs = sum_list (map (\<lambda>f. int (length (sf_content f))) fs)"

lemma read_loop_bounds:
  assumes "length out \<le> max_source_files" and "sofar = source_bytes out"
    and "sofar < max_source_total_byte + max_source_file_bytes"
    and "list_all (\<lambda>f. \<not> is_abs (sf_path f) \<and> \<not> contains_str (sf_path f) ''..'') out"
  shows "length (read_loop u t wt ps out sofar) \<le> max_source_files \<and>
    source_bytes (read_loop u t wt ps out sofar) < max_source_total_byte + max_source_file_bytes \<and>
    list_all (\<lambda>f. \<not> is_abs (sf_path f) \<and> \<not> contains_str (sf_path f) ''..'') (read_loop u t wt ps out sofar)"
  using assms
proof (induction u t wt ps out sofar rule: read_loop.induct)
  case (2 u t wt rel rels out sofar)
  show ?case
  proof (cases "length out \<ge> max_source_files \<or> sofar \<ge> max_source_total_byte")
    case True
    with "2.prems" show ?thesis by auto
  next
    case False
    then have room: "length out < max_source_files" "sofar < max_source_total_byte" by auto
    show ?thesis
    proof (cases "is_abs rel \<or> contains_str rel ''..''")
      case True
      with 2(1) [OF False True] "2.prems" False show ?thesis by simp
    next
      case ok: False
      show ?thesis
      proof (cases "read_regular t (path_join [wt, clean rel])")
        case None
        with 2(2) [OF False ok refl None] "2.prems" False ok show ?thesis by simp
      next
        case (Some c)
        show ?thesis
        proof (cases "int (length c) > max_source_file_bytes \<or> u (path_join [wt, clean rel])")
          case True
          from 2(3) [OF False ok refl Some True] "2.prems" have IH: "length (read_loop u t wt rels out sofar) \<le> max_source_files \<and>
              source_bytes (read_loop u t wt rels out sofar) < max_source_total_byte + max_source_file_bytes \<and>
              list_all (\<lambda>f. \<not> is_abs (sf_path f) \<and> \<not> contains_str (sf_path f) ''..'') (read_loop u t wt rels out sofar)"
            by blast
          have "read_loop u t wt (rel # rels) out sofar = read_loop u t wt rels out sofar"
            using False ok Some True by auto
          with IH show ?thesis by simp
        next
          case small: False
          let ?out = "out @ [\<lparr>sf_path = rel, sf_content = c\<rparr>]"
          have eq: "read_loop u t wt (rel # rels) out sofar = read_loop u t wt rels ?out (sofar + int (length c))"
            using False ok Some small by auto
          have pre: "length ?out \<le> max_source_files" "sofar + int (length c) = source_bytes ?out"
            "sofar + int (length c) < max_source_total_byte + max_source_file_bytes"
            "list_all (\<lambda>f. \<not> is_abs (sf_path f) \<and> \<not> contains_str (sf_path f) ''..'') ?out"
            using room small ok "2.prems" by (auto simp: source_bytes_def)
          show ?thesis unfolding eq by (rule 2(4) [OF False ok refl Some small pre])
        qed
      qed
    qed
  qed
qed simp

text \<open>
  What the model is shown is bounded.  \<open>readSources\<close> returns at most 40 files, only of paths without
  a parent reference, and less than 384 KiB plus one file's maximum of 64 KiB in all.
\<close>

theorem sources_bounded:
  "length (read_sources u t wt ps) \<le> max_source_files \<and>
   source_bytes (read_sources u t wt ps) < max_source_total_byte + max_source_file_bytes \<and>
   list_all (\<lambda>f. \<not> is_abs (sf_path f) \<and> \<not> contains_str (sf_path f) ''..'') (read_sources u t wt ps)"
  unfolding read_sources_def
  by (rule read_loop_bounds)
    (simp_all add: max_source_files_def source_bytes_def max_source_total_byte_def max_source_file_bytes_def)

definition leaking_tree :: tree where
  "leaking_tree = [([''w''], Dir), ([''w'', ''notes''], Link ''/secret''), ([''secret''], Reg ''KEY'')]"

text \<open>
  Reading sources does leave the worktree through a symbolic link.  The paths are checked as strings,
  and \<open>os.ReadFile\<close> follows the link to a file elsewhere, whose content goes to the model.
\<close>

lemma sources_follow_links:
  "read_sources (\<lambda>_. False) leaking_tree ''/w'' [''notes''] = [\<lparr>sf_path = ''notes'', sf_content = ''KEY''\<rparr>]"
proof -
  have j: "path_join [''/w'', clean ''notes''] = ''/w/notes''" by code_simp
  have r: "read_regular leaking_tree ''/w/notes'' = Some ''KEY''" by code_simp
  have n: "\<not> is_abs ''notes''" "\<not> contains_str ''notes'' ''..''"
    by (simp_all add: is_abs_def has_prefix_def)
  show ?thesis
    by (simp add: read_sources_def Let_def j r n has_prefix_def max_source_files_def max_source_total_byte_def
        max_source_file_bytes_def)
qed

subsection \<open>Revisions\<close>

definition counting :: "(string \<Rightarrow> 's \<Rightarrow> 's \<times> review result) \<Rightarrow> string \<Rightarrow> 's \<times> nat \<Rightarrow> ('s \<times> nat) \<times> review result" where
  "counting attempt fb s = (case attempt fb (fst s) of (s', r) \<Rightarrow> ((s', Suc (snd s)), r))"

lemma revision_loop_count:
  "snd (fst (revision_loop (counting attempt) n fb s)) \<le> snd s + n \<and>
   (case snd (revision_loop (counting attempt) n fb s) of Inl e \<Rightarrow> True
    | Inr r \<Rightarrow> rv_decision r = decision_approve \<or> rv_decision r = decision_reject)"
proof (induction n arbitrary: fb s)
  case (Suc n)
  obtain s1 r where a: "attempt fb (fst s) = (s1, r)" by (cases "attempt fb (fst s)")
  show ?case
  proof (cases r)
    case (Inl e)
    with a show ?thesis by (simp add: counting_def)
  next
    case (Inr rv)
    with a Suc [of "rv_notes rv" "(s1, Suc (snd s))"] show ?thesis by (auto simp: counting_def)
  qed
qed simp

text \<open>
  The revision loop ends after at most two attempts, and what it returns without an error is an
  approval or a rejection.
\<close>

lemma revision_loop_bounded:
  "snd (fst (run_with_revision_loop (counting attempt) (s, 0))) \<le> 2 \<and>
   (case snd (run_with_revision_loop (counting attempt) (s, 0)) of Inl e \<Rightarrow> True
    | Inr r \<Rightarrow> rv_decision r = decision_approve \<or> rv_decision r = decision_reject)"
  using revision_loop_count [of attempt "Suc max_revisions" "[]" "(s, 0)"]
  by (simp add: run_with_revision_loop_def max_revisions_def)

end
