(* ===== verification/Job_Run.thy ===== *)
theory Job_Run
  imports Persisting_Bus Canceller Metrics Fanout_Props
begin

text \<open>
  The state of one run of \<open>Processor.Process\<close> and how its pieces are put together.  A program maps
  the state to the state after it and an outcome, which may be a panic; \<open>bnd\<close> is Go's sequencing.
  A triple says what holds after a program that returns and after one that panics.
\<close>

subsection \<open>The state\<close>

text \<open>
  \<open>jr_world\<close> is everything outside the model (processes, the model providers, the clock), \<open>jr_tree\<close>
  the file system the worktrees live in, \<open>jr_pb\<close> the store and the bus, and \<open>jr_job\<close> and \<open>jr_cands\<close> the
  variables of \<open>Process\<close> that its deferred functions read.
\<close>

record 'w job_run =
  jr_world :: 'w
  jr_tree :: tree
  jr_pb :: persisting_bus
  jr_cancels :: canceller
  jr_metrics :: "registry option"
  jr_job :: "job option"
  jr_cands :: "candidate list"

type_synonym ('w, 'a) prog = "'w job_run \<Rightarrow> 'w job_run \<times> 'a outcome"

type_synonym ('w, 'a) call = "'w \<times> tree \<Rightarrow> ('w \<times> tree) \<times> 'a outcome"

subsection \<open>Programs\<close>

definition ret :: "'a \<Rightarrow> ('w, 'a) prog" where
  "ret x s = (s, Return x)"

definition panic :: "string \<Rightarrow> ('w, 'a) prog" where
  "panic r s = (s, Panic r)"

definition bnd :: "('w, 'a) prog \<Rightarrow> ('a \<Rightarrow> ('w, 'b) prog) \<Rightarrow> ('w, 'b) prog" where
  "bnd m f s = (case m s of (s', Return x) \<Rightarrow> f x s' | (s', Panic r) \<Rightarrow> (s', Panic r))"

definition getp :: "('w job_run \<Rightarrow> 'a) \<Rightarrow> ('w, 'a) prog" where
  "getp f s = (s, Return (f s))"

definition modp :: "('w job_run \<Rightarrow> 'w job_run) \<Rightarrow> ('w, unit) prog" where
  "modp f s = (f s, Return ())"

text \<open>A reading of the world (the clock, the context, the faults of one system call).\<close>

definition readp :: "('w \<Rightarrow> 'w \<times> 'a) \<Rightarrow> ('w, 'a) prog" where
  "readp f s = (case f (jr_world s) of (w, x) \<Rightarrow> (s\<lparr>jr_world := w\<rparr>, Return x))"

text \<open>A call of a collaborator: it may change the world and the file system, and may panic.\<close>

definition callp :: "('w, 'a) call \<Rightarrow> ('w, 'a) prog" where
  "callp f s = (case f (jr_world s, jr_tree s) of ((w, t), r) \<Rightarrow> (s\<lparr>jr_world := w, jr_tree := t\<rparr>, r))"

lemma bnd_simps [simp]:
  "bnd (ret x) f = f x" "bnd (panic r) f = panic r"
  by (simp_all add: bnd_def ret_def panic_def fun_eq_iff)

subsection \<open>Triples\<close>

definition triple ::
    "('w job_run \<Rightarrow> bool) \<Rightarrow> ('w, 'a) prog \<Rightarrow> ('a \<Rightarrow> 'w job_run \<Rightarrow> bool) \<Rightarrow> ('w job_run \<Rightarrow> bool) \<Rightarrow> bool" where
  "triple P m Q E =
     (\<forall>s. P s \<longrightarrow> (case m s of (s', Return x) \<Rightarrow> Q x s' | (s', Panic r) \<Rightarrow> E s'))"

named_theorems triples \<open>triples of the steps of a run\<close>

lemma tripleI:
  "(\<And>s s' x. P s \<Longrightarrow> m s = (s', Return x) \<Longrightarrow> Q x s') \<Longrightarrow>
   (\<And>s s' r. P s \<Longrightarrow> m s = (s', Panic r) \<Longrightarrow> E s') \<Longrightarrow> triple P m Q E"
  by (auto simp: triple_def split: prod.split outcome.split)

lemma tripleD:
  "triple P m Q E \<Longrightarrow> P s \<Longrightarrow> m s = (s', oc) \<Longrightarrow> case oc of Return x \<Rightarrow> Q x s' | Panic r \<Rightarrow> E s'"
  by (auto simp: triple_def dest!: spec [of _ s])

lemma triple_return: "triple P m Q E \<Longrightarrow> P s \<Longrightarrow> m s = (s', Return x) \<Longrightarrow> Q x s'"
  by (auto simp: triple_def split: prod.splits)

lemma triple_panic: "triple P m Q E \<Longrightarrow> P s \<Longrightarrow> m s = (s', Panic r) \<Longrightarrow> E s'"
  by (auto simp: triple_def split: prod.splits)

lemma triple_ret [intro]: "(\<And>s. P s \<Longrightarrow> Q x s) \<Longrightarrow> triple P (ret x) Q E"
  by (simp add: triple_def ret_def)

lemma triple_panicI: "(\<And>s. P s \<Longrightarrow> E s) \<Longrightarrow> triple P (panic r) Q E"
  by (simp add: triple_def panic_def)

lemma triple_bnd:
  "triple P m R E \<Longrightarrow> (\<And>x. triple (R x) (f x) Q E) \<Longrightarrow> triple P (bnd m f) Q E"
  by (fastforce simp: triple_def bnd_def split: prod.splits outcome.splits)

lemma triple_conseq:
  "triple P' m Q' E' \<Longrightarrow> (\<And>s. P s \<Longrightarrow> P' s) \<Longrightarrow> (\<And>x s. Q' x s \<Longrightarrow> Q x s) \<Longrightarrow> (\<And>s. E' s \<Longrightarrow> E s) \<Longrightarrow>
     triple P m Q E"
  by (fastforce simp: triple_def split: prod.splits outcome.splits)

lemma triple_post: "triple P m Q' E \<Longrightarrow> (\<And>x s. Q' x s \<Longrightarrow> Q x s) \<Longrightarrow> triple P m Q E"
  by (erule triple_conseq) auto

lemma triple_pre: "triple P' m Q E \<Longrightarrow> (\<And>s. P s \<Longrightarrow> P' s) \<Longrightarrow> triple P m Q E"
  by (erule triple_conseq) auto

lemma triple_calm: "triple P m Q (\<lambda>_. False) \<Longrightarrow> triple P m Q E"
  by (erule triple_conseq) auto

lemma triple_getp: "(\<And>s. P s \<Longrightarrow> Q (f s) s) \<Longrightarrow> triple P (getp f) Q E"
  by (simp add: triple_def getp_def)

lemma triple_modp: "(\<And>s. P s \<Longrightarrow> Q () (f s)) \<Longrightarrow> triple P (modp f) Q E"
  by (simp add: triple_def modp_def)

lemma triple_if:
  "(b \<Longrightarrow> triple P m Q E) \<Longrightarrow> (\<not> b \<Longrightarrow> triple P n Q E) \<Longrightarrow> triple P (if b then m else n) Q E"
  by simp

lemma triple_option:
  "(x = None \<Longrightarrow> triple P m Q E) \<Longrightarrow> (\<And>y. x = Some y \<Longrightarrow> triple P (f y) Q E) \<Longrightarrow>
     triple P (case x of None \<Rightarrow> m | Some y \<Rightarrow> f y) Q E"
  by (cases x) simp_all

lemma triple_sum:
  "(\<And>y. x = Inl y \<Longrightarrow> triple P (g y) Q E) \<Longrightarrow> (\<And>y. x = Inr y \<Longrightarrow> triple P (f y) Q E) \<Longrightarrow>
     triple P (case x of Inl y \<Rightarrow> g y | Inr y \<Rightarrow> f y) Q E"
  by (cases x) simp_all

lemma triple_pair:
  "(\<And>a b. x = (a, b) \<Longrightarrow> triple P (f a b) Q E) \<Longrightarrow> triple P (case x of (a, b) \<Rightarrow> f a b) Q E"
  by (cases x) simp_all

lemma triple_let: "triple P (f x) Q E \<Longrightarrow> triple P (let y = x in f y) Q E"
  by simp

lemma triple_pureI: "(b \<Longrightarrow> triple P m Q E) \<Longrightarrow> triple (\<lambda>s. b \<and> P s) m Q E"
  by (auto simp: triple_def)

text \<open>
  An invariant that does not speak of the world, the file system, or anything a collaborator can
  change, is kept by every reading and every call, even one that panics.
\<close>

definition inner :: "('w job_run \<Rightarrow> bool) \<Rightarrow> bool" where
  "inner P = (\<forall>s w t. P (s\<lparr>jr_world := w, jr_tree := t\<rparr>) = P s)"

lemma innerD: "inner P \<Longrightarrow> P (s\<lparr>jr_world := w\<rparr>) = P s"
proof -
  assume "inner P"
  then have "P (s\<lparr>jr_world := w, jr_tree := jr_tree s\<rparr>) = P s" unfolding inner_def by blast
  then show ?thesis by simp
qed

lemma innerD2: "inner P \<Longrightarrow> P (s\<lparr>jr_world := w, jr_tree := t\<rparr>) = P s"
  unfolding inner_def by blast

lemma innerD3: "inner P \<Longrightarrow> P (s\<lparr>jr_tree := t\<rparr>) = P s"
  using innerD2 [where P = P and s = s and w = "jr_world s" and t = t] by simp

lemma triple_readp: "inner P \<Longrightarrow> triple P (readp f) (\<lambda>_. P) E"
  by (auto simp: triple_def readp_def innerD split: prod.split)

lemma triple_callp: "inner P \<Longrightarrow> triple P (callp f) (\<lambda>_. P) P"
  by (auto simp: triple_def callp_def innerD2 split: prod.split outcome.split)


lemmas triple_cases = triple_if triple_option triple_sum triple_pair triple_let

subsection \<open>Invariants and results of programs\<close>

text \<open>\<open>keeps P m\<close>: \<open>P\<close> holds after \<open>m\<close> if it held before, whether \<open>m\<close> returns or panics.\<close>

definition keeps :: "('w job_run \<Rightarrow> bool) \<Rightarrow> ('w, 'a) prog \<Rightarrow> bool" where
  "keeps P m = triple P m (\<lambda>_. P) P"

named_theorems keeps_intros \<open>what keeps an invariant\<close>

lemma keeps_iff: "keeps P m \<longleftrightarrow> (\<forall>s. P s \<longrightarrow> P (fst (m s)))"
proof -
  have "(case m s of (s', Return x) \<Rightarrow> P s' | (s', Panic r) \<Rightarrow> P s') = P (fst (m s))" for s
    by (simp add: split_beta split: outcome.split)
  then show ?thesis by (simp add: keeps_def triple_def)
qed

lemma keepsI: "(\<And>s. P s \<Longrightarrow> P (fst (m s))) \<Longrightarrow> keeps P m"
  by (simp add: keeps_iff)

lemma keepsD: "keeps P m \<Longrightarrow> P s \<Longrightarrow> P (fst (m s))"
  by (simp add: keeps_iff)

lemma keeps_bnd [keeps_intros]: "keeps P m \<Longrightarrow> (\<And>x. keeps P (f x)) \<Longrightarrow> keeps P (bnd m f)"
  unfolding keeps_def by (rule triple_bnd)

lemma keeps_simple [keeps_intros]: "keeps P (ret x)" "keeps P (panic r)" "keeps P (getp g)"
  by (rule keepsI; simp add: ret_def panic_def getp_def)+

lemma keeps_modp: "(\<And>s. P s \<Longrightarrow> P (f s)) \<Longrightarrow> keeps P (modp f)"
  by (rule keepsI) (simp add: modp_def)

lemma keeps_inner: "inner P \<Longrightarrow> keeps P (readp g)" "inner P \<Longrightarrow> keeps P (callp h)"
  unfolding keeps_def by (rule triple_readp triple_callp; assumption)+

lemma keeps_case [keeps_intros]:
  "(b \<Longrightarrow> keeps P m) \<Longrightarrow> (\<not> b \<Longrightarrow> keeps P n) \<Longrightarrow> keeps P (if b then m else n)"
  "(io = None \<Longrightarrow> keeps P m) \<Longrightarrow> (\<And>y. io = Some y \<Longrightarrow> keeps P (f y)) \<Longrightarrow>
     keeps P (case io of None \<Rightarrow> m | Some y \<Rightarrow> f y)"
  "(\<And>y. r = Inl y \<Longrightarrow> keeps P (g y)) \<Longrightarrow> (\<And>y. r = Inr y \<Longrightarrow> keeps P (h y)) \<Longrightarrow>
     keeps P (case r of Inl y \<Rightarrow> g y | Inr y \<Rightarrow> h y)"
  "(\<And>a b. ab = (a, b) \<Longrightarrow> keeps P (k a b)) \<Longrightarrow> keeps P (case ab of (a, b) \<Rightarrow> k a b)"
  "keeps P (l x) \<Longrightarrow> keeps P (let y = x in l y)"
  unfolding keeps_def by (fact triple_cases)+

text \<open>\<open>yields m Q\<close>: every value \<open>m\<close> returns satisfies \<open>Q\<close>.\<close>

definition yields :: "('w, 'a) prog \<Rightarrow> ('a \<Rightarrow> bool) \<Rightarrow> bool" where
  "yields m Q = (\<forall>s s' x. m s = (s', Return x) \<longrightarrow> Q x)"

named_theorems yields_intros \<open>what a program returns\<close>

lemma yieldsD: "yields m Q \<Longrightarrow> m s = (s', Return x) \<Longrightarrow> Q x"
  by (auto simp: yields_def)

lemma yields_bnd: "yields m R \<Longrightarrow> (\<And>x. R x \<Longrightarrow> yields (f x) Q) \<Longrightarrow> yields (bnd m f) Q"
  by (fastforce simp: yields_def bnd_def split: prod.splits outcome.splits)

lemma yields_any: "yields m (\<lambda>_. True)"
  by (simp add: yields_def)

lemma yields_after [yields_intros]: "(\<And>x. yields (f x) Q) \<Longrightarrow> yields (bnd m f) Q"
  by (rule yields_bnd [OF yields_any])

lemma yields_simple [yields_intros]: "Q x \<Longrightarrow> yields (ret x) Q" "yields (panic r) Q"
  by (simp_all add: yields_def ret_def panic_def)

lemma yields_case [yields_intros]:
  "(b \<Longrightarrow> yields m Q) \<Longrightarrow> (\<not> b \<Longrightarrow> yields n Q) \<Longrightarrow> yields (if b then m else n) Q"
  "(io = None \<Longrightarrow> yields m Q) \<Longrightarrow> (\<And>y. io = Some y \<Longrightarrow> yields (f y) Q) \<Longrightarrow>
     yields (case io of None \<Rightarrow> m | Some y \<Rightarrow> f y) Q"
  "(\<And>y. r = Inl y \<Longrightarrow> yields (g y) Q) \<Longrightarrow> (\<And>y. r = Inr y \<Longrightarrow> yields (h y) Q) \<Longrightarrow>
     yields (case r of Inl y \<Rightarrow> g y | Inr y \<Rightarrow> h y) Q"
  "(\<And>a b. ab = (a, b) \<Longrightarrow> yields (k a b) Q) \<Longrightarrow> yields (case ab of (a, b) \<Rightarrow> k a b) Q"
  "yields (l x) Q \<Longrightarrow> yields (let y = x in l y) Q"
  by (simp_all split: option.split sum.split prod.split)

subsection \<open>Deferred calls and recovery\<close>

text \<open>
  \<open>defer\<close>: \<open>d\<close> runs when \<open>m\<close> has returned or panicked; a panic of its own replaces the outcome.
  \<open>recovered m h\<close> is a deferred \<open>recover()\<close> with its handler.
\<close>

definition deferred :: "('w, 'a) prog \<Rightarrow> ('w, unit) prog \<Rightarrow> ('w, 'a) prog" where
  "deferred m d s =
     (case m s of (s1, r) \<Rightarrow>
       (case d s1 of (s2, Return _) \<Rightarrow> (s2, r) | (s2, Panic q) \<Rightarrow> (s2, Panic q)))"

definition recovered :: "('w, 'a) prog \<Rightarrow> (string \<Rightarrow> ('w, 'a) prog) \<Rightarrow> ('w, 'a) prog" where
  "recovered m h s = (case m s of (s1, Return x) \<Rightarrow> (s1, Return x) | (s1, Panic r) \<Rightarrow> h r s1)"

lemma fst_deferred [simp]: "fst (deferred m d s) = fst (d (fst (m s)))"
  by (simp add: deferred_def split_beta split: outcome.split)

lemma keeps_deferred [keeps_intros]: "keeps P m \<Longrightarrow> keeps P d \<Longrightarrow> keeps P (deferred m d)"
  by (simp add: keeps_iff)

lemma keeps_recovered [keeps_intros]:
  assumes "keeps P m" and "\<And>r. keeps P (h r)"
  shows "keeps P (recovered m h)"
proof (rule keepsI)
  fix s assume "P s"
  with assms(1) have "P (fst (m s))" by (rule keepsD)
  with assms(2) show "P (fst (recovered m h s))"
    by (simp add: recovered_def keeps_iff split_beta split: outcome.split)
qed

lemma triple_deferred:
  "triple P m Q E \<Longrightarrow> (\<And>x. triple (Q x) d (\<lambda>_. Q x) E) \<Longrightarrow> triple E d (\<lambda>_. E) E \<Longrightarrow>
     triple P (deferred m d) Q E"
  by (fastforce simp: triple_def deferred_def split: prod.splits outcome.splits)

lemma triple_recovered:
  "triple P m Q E' \<Longrightarrow> (\<And>r. triple E' (h r) Q E) \<Longrightarrow> triple P (recovered m h) Q E"
  by (fastforce simp: triple_def recovered_def split: prod.splits outcome.splits)

end
