(* ===== verification/Repo_Context.thy ===== *)
theory Repo_Context
  imports Workspaces "HOL-Library.List_Lexorder" "HOL-Library.Char_ord"
begin

text \<open>
  \<open>internal/repocontext/repocontext.go\<close>: the files of a repository worth showing to a model.  Git runs
  through a command runner.  The score of a file is a Go map whose missing keys read 0, here a
  function.
\<close>

subsection \<open>Words\<close>

definition default_max_files :: int where
  "default_max_files = 40"

definition default_max_keywords :: nat where
  "default_max_keywords = 12"

definition default_max_tree_paths :: nat where
  "default_max_tree_paths = 300"

definition manifests :: "string list" where
  "manifests = [''go.mod'', ''package.json'', ''Cargo.toml'', ''pyproject.toml'', ''requirements.txt'',
     ''Gemfile'', ''pom.xml'', ''build.gradle'', ''composer.json'', ''Makefile'', ''README.md'']"

definition stopwords :: "string list" where
  "stopwords = [''a'', ''an'', ''the'', ''and'', ''or'', ''but'', ''if'', ''then'', ''for'', ''to'', ''of'',
     ''in'', ''on'', ''at'', ''by'', ''with'', ''from'', ''into'', ''is'', ''are'', ''was'', ''be'',
     ''been'', ''it'', ''this'', ''that'', ''these'', ''those'', ''as'', ''add'', ''adds'', ''make'',
     ''makes'', ''fix'', ''fixes'', ''update'', ''updates'', ''change'', ''new'', ''use'', ''using'',
     ''should'', ''when'', ''where'', ''all'', ''any'', ''not'', ''no'', ''so'', ''we'', ''i'',
     ''you'', ''it'' @ [CHR 0x27] @ ''s'', ''its'', ''can'', ''will'', ''please'', ''could'',
     ''would'', ''want'', ''need'', ''let'', ''lets'', ''just'', ''also'', ''there'', ''here'',
     ''some'', ''more'', ''than'', ''have'', ''has'', ''had'', ''get'', ''gets'', ''do'', ''does'',
     ''did'', ''done'', ''now'', ''remove'', ''removes'', ''create'', ''creates'', ''implement'',
     ''implements'', ''support'', ''handle'', ''function'', ''functions'', ''func'', ''method'',
     ''methods'', ''parameter'', ''parameters'', ''argument'', ''arguments'', ''takes'', ''taking'',
     ''return'', ''returns'', ''returning'', ''call'', ''calls'', ''calling'', ''called'', ''string'',
     ''strings'', ''bool'', ''boolean'', ''code'', ''line'', ''lines'']"

definition word_char :: "char \<Rightarrow> bool" where
  "word_char c = (c = CHR ''_'' \<or> c = CHR ''-'' \<or> between 97 122 c \<or> between 48 57 c)"

text \<open>
  \<open>strings.FieldsFunc\<close> with that predicate's complement: \<open>acc\<close> is the field being read, reversed.  The
  bytes of a rune outside ASCII are all separators.
\<close>

fun fields_from :: "string \<Rightarrow> string \<Rightarrow> string list" where
  "fields_from acc [] = (if acc = [] then [] else [rev acc])"
| "fields_from acc (c # s) =
     (if word_char c then fields_from (c # acc) s
      else if acc = [] then fields_from [] s else rev acc # fields_from [] s)"

fun pick_keywords :: "string list \<Rightarrow> string list \<Rightarrow> string list" where
  "pick_keywords out [] = out"
| "pick_keywords out (raw # raws) =
     (if length raw < 3 \<or> raw \<in> set stopwords \<or> raw \<in> set out then pick_keywords out raws
      else if Suc (length out) = default_max_keywords then out @ [raw]
      else pick_keywords (out @ [raw]) raws)"

definition task_keywords :: "string \<Rightarrow> string list" where
  "task_keywords task_text = pick_keywords [] (fields_from [] (to_lower task_text))"

definition split_lines :: "string \<Rightarrow> string list" where
  "split_lines s = filter (\<lambda>l. l \<noteq> []) (map trim_space (split_on (CHR 0x0A) s))"

subsection \<open>The selector\<close>

record repo_context =
  rc_files :: "string list"
  rc_tree :: "string list"
  rc_keywords :: "string list"
  rc_total :: nat

record 'w selector =
  sl_runner :: "'w runner"
  sl_max_files :: int

definition new_selector :: "'w runner \<Rightarrow> 'w selector" where
  "new_selector r = \<lparr>sl_runner = r, sl_max_files = 0\<rparr>"

definition max_files :: "'w selector \<Rightarrow> nat" where
  "max_files s = nat (if sl_max_files s \<le> 0 then default_max_files else sl_max_files s)"

definition tracked_files :: "'w selector \<Rightarrow> 'w ctx \<Rightarrow> string \<Rightarrow> 'w \<Rightarrow> 'w \<times> string list result" where
  "tracked_files s ctx repo w =
     (case sl_runner s ctx repo ''git'' (git_args [''ls-files'']) w of
        (w', res, Some e) \<Rightarrow> (w', Inl e)
      | (w', res, None) \<Rightarrow>
          (w', if exit_code res \<noteq> 0
               then Inl (Errorf ''git ls-files exited %d: %s'' [FInt (exit_code res), FStr (cmd_stderr res)])
               else Inr (split_lines (cmd_stdout res))))"

definition grep_files :: "'w selector \<Rightarrow> 'w ctx \<Rightarrow> string \<Rightarrow> string \<Rightarrow> 'w \<Rightarrow> 'w \<times> string list" where
  "grep_files s ctx repo kw w =
     (case sl_runner s ctx repo ''git''
        (git_args [''grep'', ''--ignore-case'', ''--fixed-strings'', ''--name-only'', kw]) w of
        (w', res, err) \<Rightarrow>
          (w', if err \<noteq> None \<or> exit_code res \<noteq> 0 then [] else split_lines (cmd_stdout res)))"

type_synonym score = "string \<Rightarrow> int"

definition bump :: "int \<Rightarrow> string \<Rightarrow> score \<Rightarrow> score" where
  "bump n f sc = sc(f := sc f + n)"

definition bump_all :: "int \<Rightarrow> string list \<Rightarrow> score \<Rightarrow> score" where
  "bump_all n fs sc = fold (bump n) fs sc"

fun score_keywords ::
    "'w selector \<Rightarrow> 'w ctx \<Rightarrow> string \<Rightarrow> string list \<Rightarrow> string list \<Rightarrow> score \<Rightarrow> 'w \<Rightarrow> 'w \<times> score" where
  "score_keywords s ctx repo tracked [] sc w = (w, sc)"
| "score_keywords s ctx repo tracked (kw # kws) sc w =
     (let sc1 = bump_all 3 (filter (\<lambda>f. contains_str (to_lower f) kw) tracked) sc in
      case grep_files s ctx repo kw w of
        (w', hits) \<Rightarrow>
          score_keywords s ctx repo tracked kws
            (bump_all 2 (filter (\<lambda>f. f \<in> set tracked) hits) sc1) w')"

text \<open>
  The files with a positive score, the highest first and those of one score by name.  Sorting is stable
  here, so sorting by name first gives the order of the code's comparison.
\<close>

definition ranked :: "string list \<Rightarrow> score \<Rightarrow> string list" where
  "ranked tracked sc =
     sort_key (\<lambda>f. - sc f) (sort (filter (\<lambda>f. 0 < sc f) (remdups tracked)))"

definition select_context :: "'w selector \<Rightarrow> 'w ctx \<Rightarrow> string \<Rightarrow> string \<Rightarrow> 'w \<Rightarrow> 'w \<times> repo_context result" where
  "select_context s ctx repo task_text w =
     (case tracked_files s ctx repo w of
        (w1, Inl e) \<Rightarrow> (w1, Inl (Errorf ''list tracked files: %w'' [FW e]))
      | (w1, Inr tracked) \<Rightarrow>
          let c0 = \<lparr>rc_files = [], rc_tree = take default_max_tree_paths tracked,
                    rc_keywords = task_keywords task_text, rc_total = length tracked\<rparr> in
          if tracked = [] then (w1, Inr c0)
          else case score_keywords s ctx repo tracked (rc_keywords c0) (\<lambda>_. 0) w1 of
            (w2, sc1) \<Rightarrow>
              let sc = bump_all 1 (filter (\<lambda>f. path_base f \<in> set manifests) tracked) sc1 in
              (w2, Inr (c0\<lparr>rc_files := take (max_files s) (ranked tracked sc)\<rparr>)))"

subsection \<open>What the words are\<close>

lemma fields_from_chars:
  "list_all word_char acc \<Longrightarrow> list_all (\<lambda>f. f \<noteq> [] \<and> list_all word_char f) (fields_from acc s)"
proof (induction s arbitrary: acc)
  case (Cons c s)
  from Cons.IH [of "c # acc"] Cons.IH [of "[]"] Cons.prems show ?case by simp
qed simp

lemma pick_keywords_spec:
  assumes "distinct out" and "length out < default_max_keywords"
    and "list_all (\<lambda>k. 3 \<le> length k \<and> k \<notin> set stopwords \<and> list_all word_char k) out"
    and "list_all (list_all word_char) raws"
  shows "distinct (pick_keywords out raws) \<and> length (pick_keywords out raws) \<le> default_max_keywords \<and>
    list_all (\<lambda>k. 3 \<le> length k \<and> k \<notin> set stopwords \<and> list_all word_char k) (pick_keywords out raws)"
  using assms
proof (induction raws arbitrary: out)
  case (Cons raw raws)
  show ?case
  proof (cases "length raw < 3 \<or> raw \<in> set stopwords \<or> raw \<in> set out")
    case True
    then have "pick_keywords out (raw # raws) = pick_keywords out raws" by auto
    with Cons show ?thesis by simp
  next
    case False
    with Cons.prems have new: "distinct (out @ [raw])"
      "list_all (\<lambda>k. 3 \<le> length k \<and> k \<notin> set stopwords \<and> list_all word_char k) (out @ [raw])"
      by simp_all
    show ?thesis
    proof (cases "Suc (length out) = default_max_keywords")
      case True
      with False have "pick_keywords out (raw # raws) = out @ [raw]" by auto
      with new True show ?thesis by simp
    next
      case more: False
      with False have "pick_keywords out (raw # raws) = pick_keywords (out @ [raw]) raws" by auto
      with Cons.IH [OF new(1) _ new(2)] Cons.prems more show ?thesis by simp
    qed
  qed
qed simp

lemma keywords_spec:
  "distinct (task_keywords t) \<and> length (task_keywords t) \<le> default_max_keywords \<and>
   list_all (\<lambda>k. 3 \<le> length k \<and> k \<notin> set stopwords \<and> list_all word_char k) (task_keywords t)"
  unfolding task_keywords_def
proof (rule pick_keywords_spec)
  show "list_all (list_all word_char) (fields_from [] (to_lower t))"
    using fields_from_chars [of "[]" "to_lower t"] by (auto simp: list_all_iff)
qed (simp_all add: default_max_keywords_def)

text \<open>
  A word of the task can be an option of git.  \<open>Keywords\<close> keeps a leading hyphen, and \<open>grepFiles\<close>
  passes the word as the only positional argument with neither \<open>-e\<close> nor \<open>--\<close> before it, so the task
  below makes git read its patterns from a file of the repository instead of searching for the word.
\<close>

lemma keyword_becomes_option:
  "task_keywords ''rename the -fnotes flag'' = [''rename'', ''-fnotes'', ''flag''] \<and>
   grep_files (new_selector r) ctx repo ''-fnotes'' w =
     (case r ctx repo ''git'' (hardened @ [''grep'', ''--ignore-case'', ''--fixed-strings'', ''--name-only'', ''-fnotes'']) w of
        (w', res, err) \<Rightarrow> (w', if err = None \<and> exit_code res = 0 then split_lines (cmd_stdout res) else []))"
proof
  show "task_keywords ''rename the -fnotes flag'' = [''rename'', ''-fnotes'', ''flag'']" by code_simp
qed (auto simp: grep_files_def new_selector_def git_args_def split: prod.split)

subsection \<open>What the score is\<close>

lemma bump_all_at: "bump_all n fs sc f = sc f + n * int (count_list fs f)"
  by (induction fs arbitrary: sc) (auto simp: bump_all_def bump_def algebra_simps)

lemma count_list_filter: "count_list (filter P xs) x = (if P x then count_list xs x else 0)"
  by (induction xs) auto

text \<open>The searches of \<open>score_keywords\<close> alone, and the score they make as one sum.\<close>

fun grep_all :: "'w selector \<Rightarrow> 'w ctx \<Rightarrow> string \<Rightarrow> string list \<Rightarrow> 'w \<Rightarrow> 'w \<times> string list list" where
  "grep_all s ctx repo [] w = (w, [])"
| "grep_all s ctx repo (kw # kws) w =
     (case grep_files s ctx repo kw w of
        (w1, hits) \<Rightarrow> (case grep_all s ctx repo kws w1 of (w2, hs) \<Rightarrow> (w2, hits # hs)))"

definition points :: "string list \<Rightarrow> string \<Rightarrow> string \<Rightarrow> string list \<Rightarrow> int" where
  "points tracked f kw hits =
     (if contains_str (to_lower f) kw then 3 * int (count_list tracked f) else 0) +
     (if f \<in> set tracked then 2 * int (count_list hits f) else 0)"

text \<open>
  The loop over the keywords computes a sum.  Its score of a file is three for each keyword the
  file's path contains and two for each mention by that keyword's search, whatever the searches return,
  and the searches run once per keyword in order.
\<close>

lemma score_is_sum:
  "fst (score_keywords s ctx repo tracked kws sc w) = fst (grep_all s ctx repo kws w) \<and>
   snd (score_keywords s ctx repo tracked kws sc w) f =
     sc f + sum_list (map2 (points tracked f) kws (snd (grep_all s ctx repo kws w)))"
proof (induction kws arbitrary: sc w)
  case (Cons kw kws)
  obtain w1 hits where g: "grep_files s ctx repo kw w = (w1, hits)" by (cases "grep_files s ctx repo kw w")
  obtain w2 hs where a: "grep_all s ctx repo kws w1 = (w2, hs)" by (cases "grep_all s ctx repo kws w1")
  show ?case
    using Cons [of "bump_all 2 (filter (\<lambda>f. f \<in> set tracked) hits)
        (bump_all 3 (filter (\<lambda>f. contains_str (to_lower f) kw) tracked) sc)" w1] g a
    by (simp add: Let_def points_def) (simp add: bump_all_at count_list_filter)
qed simp

subsection \<open>What is selected\<close>

lemma ranked_spec:
  "distinct (ranked tr sc) \<and> set (ranked tr sc) = {f \<in> set tr. 0 < sc f} \<and>
   sorted (map (\<lambda>f. - sc f) (ranked tr sc))"
  by (auto simp: ranked_def distinct_sort)

lemma sorted_prefix_beats:
  assumes "sorted (map k xs)" and "f \<in> set (take n xs)" and "g \<in> set xs" and "g \<notin> set (take n xs)"
  shows "k f \<le> k g"
proof -
  from assms(3,4) have "g \<in> set (drop n xs)" by (metis Un_iff append_take_drop_id set_append)
  moreover have "sorted (map k (take n xs) @ map k (drop n xs))"
    using assms(1) by (metis append_take_drop_id map_append)
  ultimately show ?thesis using assms(2) by (auto simp: sorted_append)
qed

lemma select_context_Inr:
  assumes "select_context s ctx repo t w = (w', Inr c)"
  obtains tracked sc where "snd (tracked_files s ctx repo w) = Inr tracked"
    "rc_tree c = take default_max_tree_paths tracked" "rc_total c = length tracked"
    "rc_keywords c = task_keywords t" "rc_files c = take (max_files s) (ranked tracked sc)"
proof -
  obtain w1 r where tr: "tracked_files s ctx repo w = (w1, r)" by (cases "tracked_files s ctx repo w")
  with assms obtain tracked where r: "r = Inr tracked"
    by (cases r) (auto simp: select_context_def)
  obtain w2 sc1 where sk: "score_keywords s ctx repo tracked (task_keywords t) (\<lambda>_. 0) w1 = (w2, sc1)"
    by (cases "score_keywords s ctx repo tracked (task_keywords t) (\<lambda>_. 0) w1")
  show thesis
  proof (cases "tracked = []")
    case True
    with assms tr r have "rc_files c = take (max_files s) (ranked tracked (\<lambda>_. 0))"
      by (auto simp: select_context_def ranked_def)
    with True assms tr r that [of tracked] show thesis by (auto simp: select_context_def)
  next
    case False
    with assms tr r sk that [of tracked] show thesis by (auto simp: select_context_def Let_def)
  qed
qed

text \<open>
  The selection is bounded and made of tracked files.  A successful \<open>Select\<close> returns distinct
  tracked files, at most \<open>maxFiles\<close> of them, the first 300 tracked paths as the tree, and at most twelve
  distinct keywords, none of them a stopword or shorter than three characters.
\<close>

lemma selection_bounded:
  assumes "select_context s ctx repo t w = (w', Inr c)"
  shows "\<exists>tracked. snd (tracked_files s ctx repo w) = Inr tracked \<and>
    distinct (rc_files c) \<and> set (rc_files c) \<subseteq> set tracked \<and> length (rc_files c) \<le> max_files s \<and>
    rc_tree c = take 300 tracked \<and> rc_total c = length tracked \<and>
    distinct (rc_keywords c) \<and> length (rc_keywords c) \<le> 12 \<and>
    list_all (\<lambda>k. 3 \<le> length k \<and> k \<notin> set stopwords) (rc_keywords c)"
proof -
  from assms obtain tracked sc where e: "snd (tracked_files s ctx repo w) = Inr tracked"
    "rc_tree c = take default_max_tree_paths tracked" "rc_total c = length tracked"
    "rc_keywords c = task_keywords t" "rc_files c = take (max_files s) (ranked tracked sc)"
    by (rule select_context_Inr)
  have "set (rc_files c) \<subseteq> set tracked"
    using ranked_spec [of tracked sc] set_take_subset [of "max_files s" "ranked tracked sc"] e by auto
  with e ranked_spec [of tracked sc] keywords_spec [of t] show ?thesis
    by (auto simp: default_max_tree_paths_def default_max_keywords_def list_all_iff)
qed

text \<open>A runner with three tracked files, one of which mentions the keyword.\<close>

definition demo_runner :: "unit runner" where
  "demo_runner ctx dir cmd as w =
     (w, empty_result\<lparr>cmd_stdout :=
        (if last as = ''ls-files'' then ''go.mod'' @ [CHR 0x0A] @ ''rate.go'' @ [CHR 0x0A] @ ''x.go''
         else ''x.go'')\<rparr>, None)"

lemma demo_select:
  "select_context (new_selector demo_runner) (\<lambda>_. None) ''/r'' ''Rate limits'' () =
     ((), Inr \<lparr>rc_files = [''x.go'', ''rate.go'', ''go.mod''], rc_tree = [''go.mod'', ''rate.go'', ''x.go''],
               rc_keywords = [''rate'', ''limits''], rc_total = 3\<rparr>)"
  by code_simp

theorem selection_bounded_witness:
  "snd (tracked_files (new_selector demo_runner) (\<lambda>_. None) ''/r'' ()) =
     Inr [''go.mod'', ''rate.go'', ''x.go''] \<and>
   set [''x.go'', ''rate.go'', ''go.mod''] \<subseteq> set [''go.mod'', ''rate.go'', ''x.go'']"
proof -
  have "snd (tracked_files (new_selector demo_runner) (\<lambda>_. None) ''/r'' ()) =
      Inr [''go.mod'', ''rate.go'', ''x.go'']" by code_simp
  with selection_bounded [OF demo_select] show ?thesis by auto
qed

end
