(* ===== verification/Processor.thy ===== *)
theory Processor
  imports Job_Run Repo_Context
begin

text \<open>
  \<open>internal/orchestration/processor.go\<close>, with the stages of \<open>review.go\<close>, \<open>fanout.go\<close> and
  \<open>artifacts.go\<close> that act on a run: how one job is worked through its states.

  A \<open>processor\<close> is the Go struct: an interface field that may be nil is an option (a flag for the bus,
  the artifact store and the canceller, whose models are part of the state).  What the struct does not
  hold is read from the world: the clock, \<open>jobCtx.Err()\<close>, the faults of the system calls of one
  store operation, and the order in which the verification goroutines finish.
\<close>

subsection \<open>The processor\<close>

text \<open>The workspace manager; the flag of \<open>ow_diff\<close> tells a diff on a context without cancellation.\<close>

record 'w workspaces =
  ow_create :: "string \<Rightarrow> string \<Rightarrow> ('w, workspace result) call"
  ow_cleanup :: "workspace \<Rightarrow> ('w, go_err option) call"
  ow_diff :: "bool \<Rightarrow> workspace \<Rightarrow> ('w, string result) call"

record 'w processor =
  p_codec :: json_codec
  p_now :: "'w \<Rightarrow> 'w \<times> time"
  p_ctx_err :: "'w \<Rightarrow> 'w \<times> go_err option"
  p_os :: "'w \<Rightarrow> 'w \<times> os_env"
  p_root :: "'w \<Rightarrow> 'w \<times> root_env"
  p_unreadable :: "'w \<Rightarrow> 'w \<times> (string \<Rightarrow> bool)"
  p_order :: "'w \<Rightarrow> 'w \<times> nat list"
  p_cancel :: nat
  p_canceller :: bool
  p_bus :: bool
  p_artifacts :: bool
  p_workspaces :: "'w workspaces option"
  p_verifier :: "('w \<times> tree) verifier option"
  p_planner :: "(planner_request \<Rightarrow> ('w, plan result) call) option"
  p_context :: "(string \<Rightarrow> string \<Rightarrow> ('w, repo_context result) call) option"
  p_implementor :: "(implementor_request \<Rightarrow> ('w, operation list result) call) option"
  p_reviewer :: "(reviewer_request \<Rightarrow> ('w, review result) call) option"
  p_variants :: int
  p_job_timeout :: duration

definition default_job_timeout :: duration where
  "default_job_timeout = 30 * minute"

definition job_timeout :: "'w processor \<Rightarrow> duration" where
  "job_timeout p = (if p_job_timeout p \<le> 0 then default_job_timeout else p_job_timeout p)"

definition nil_deref :: string where
  "nil_deref = ''runtime error: invalid memory address or nil pointer dereference''"

text \<open>The fields of the job behind the pointer \<open>job\<close>, and of an attempt behind a pointer to it.\<close>

definition job_var :: "('w, job) prog" where
  "job_var = bnd (getp jr_job) (\<lambda>jo. case jo of None \<Rightarrow> panic nil_deref | Some j \<Rightarrow> ret j)"

definition cand_var :: "nat option \<Rightarrow> ('w, candidate) prog" where
  "cand_var io = (case io of None \<Rightarrow> panic nil_deref | Some i \<Rightarrow> getp (\<lambda>s. jr_cands s ! i))"

definition set_cand :: "nat \<Rightarrow> (candidate \<Rightarrow> candidate) \<Rightarrow> ('w, unit) prog" where
  "set_cand i f = modp (\<lambda>s. s\<lparr>jr_cands := (jr_cands s)[i := f (jr_cands s ! i)]\<rparr>)"

subsection \<open>Events, status changes and how a job ends\<close>

definition publish_prog :: "json_codec \<Rightarrow> os_env \<Rightarrow> time \<Rightarrow> event \<Rightarrow> ('w, unit) prog" where
  "publish_prog c env now e s =
     (case pb_publish c env now e (jr_pb s) of
        (pb, Return _) \<Rightarrow> (s\<lparr>jr_pb := pb\<rparr>, Return ())
      | (pb, Panic r) \<Rightarrow> (s\<lparr>jr_pb := pb\<rparr>, Panic r))"

definition emit :: "'w processor \<Rightarrow> string \<Rightarrow> event_type \<Rightarrow> (string \<times> json) list \<Rightarrow> ('w, unit) prog" where
  "emit p k ty payload =
     (if \<not> p_bus p then ret ()
      else bnd (readp (p_os p)) (\<lambda>env. bnd (readp (p_now p)) (\<lambda>now.
        publish_prog (p_codec p) env now
          \<lparr>ev_job_id = k, ev_type = ty, ev_payload = payload, ev_created_at = 0\<rparr>)))"

text \<open>\<open>job.Transition\<close> on the job variable.\<close>

definition transition_prog :: "'w processor \<Rightarrow> job_status \<Rightarrow> ('w, go_err option) prog" where
  "transition_prog p st =
     bnd job_var (\<lambda>j. bnd (readp (p_now p)) (\<lambda>now.
       case transition now st j of (eo, j') \<Rightarrow> bnd (modp (\<lambda>s. s\<lparr>jr_job := Some j'\<rparr>)) (\<lambda>_. ret eo)))"

text \<open>\<open>Repo.Update\<close> of the job variable.\<close>

definition update_prog :: "'w processor \<Rightarrow> ('w, go_err option) prog" where
  "update_prog p =
     bnd job_var (\<lambda>j. bnd (readp (p_os p)) (\<lambda>env. (\<lambda>s.
       case fs_update (p_codec p) env j (pb_store (jr_pb s)) of
         (st, eo) \<Rightarrow> (s\<lparr>jr_pb := (jr_pb s)\<lparr>pb_store := st\<rparr>\<rparr>, Return eo))))"

definition advance :: "'w processor \<Rightarrow> job_status \<Rightarrow> ('w, go_err option) prog" where
  "advance p next_s =
     bnd (transition_prog p next_s) (\<lambda>eo. case eo of
       Some e \<Rightarrow> ret (Some (Errorf ''transition to %s: %w'' [FStr (status_string next_s), FW e]))
     | None \<Rightarrow> bnd (update_prog p) (\<lambda>eo. case eo of
         Some e \<Rightarrow> ret (Some (Errorf ''persist status %s: %w'' [FStr (status_string next_s), FW e]))
       | None \<Rightarrow> ret None))"

definition mark_failed :: "'w processor \<Rightarrow> go_err \<Rightarrow> ('w, go_err option) prog" where
  "mark_failed p cause =
     bnd (transition_prog p StatusFailed) (\<lambda>eo. case eo of
       Some e \<Rightarrow> ret (Some (Joined [cause, e]))
     | None \<Rightarrow> bnd job_var (\<lambda>j. bnd (emit p (job_id j) TypeJobFailed [(''error'', JErr cause)]) (\<lambda>_.
         bnd (update_prog p) (\<lambda>eo. case eo of
           Some e \<Rightarrow> ret (Some (Joined [cause, Errorf ''persist failed status: %w'' [FW e]]))
         | None \<Rightarrow> ret (Some cause)))))"

definition mark_cancelled :: "'w processor \<Rightarrow> ('w, go_err option) prog" where
  "mark_cancelled p =
     bnd (transition_prog p StatusCancelled) (\<lambda>eo. case eo of
       Some e \<Rightarrow> ret (Some e)
     | None \<Rightarrow> bnd job_var (\<lambda>j. bnd (emit p (job_id j) TypeJobCancelled []) (\<lambda>_. update_prog p)))"

definition end_interrupted :: "'w processor \<Rightarrow> go_err \<Rightarrow> ('w, go_err option) prog" where
  "end_interrupted p cause =
     (if err_is cause CtxDeadlineExceeded
      then bnd job_var (\<lambda>j. mark_failed p (Errorf ''job %s exceeded its %s deadline''
             [FStr (job_id j), FStr (show_duration (job_timeout p))]))
      else mark_cancelled p)"

subsection \<open>The stages\<close>

text \<open>What the steps pass on: the local variables of \<open>Process\<close> that outlive one iteration.\<close>

record loop_vars =
  lv_plan :: plan
  lv_files :: "string list"
  lv_tree :: "string list"
  lv_gate_err :: "go_err option"
  lv_feedback :: string
  lv_revisions :: nat
  lv_winner :: "nat option"

definition first_vars :: loop_vars where
  "first_vars =
     \<lparr>lv_plan = empty_plan, lv_files = [], lv_tree = [], lv_gate_err = None, lv_feedback = [],
      lv_revisions = 0, lv_winner = None\<rparr>"

definition step_json :: "plan_step \<Rightarrow> json" where
  "step_json s = JObj ([(''id'', JStr (ps_id s)), (''description'', JStr (ps_description s))] @
     (if ps_files s = [] then [] else [(''files'', JStrs (ps_files s))]))"

definition result_json :: "check_result \<Rightarrow> json" where
  "result_json r = JObj ([(''check'', JStr (vr_check r)), (''passed'', JBool (vr_passed r))] @
     (if vr_output r = [] then [] else [(''output'', JStr (vr_output r))]) @
     [(''duration_ms'', JInt (vr_duration r))] @
     (if vr_note r = [] then [] else [(''note'', JStr (vr_note r))]))"

definition outcome_json :: "variant_outcome \<Rightarrow> json" where
  "outcome_json v = JObj ([(''variant'', JInt (int (vo_variant v))), (''passed'', JBool (vo_passed v)),
     (''summary'', JStr (vo_summary v))] @ (if vo_error v = [] then [] else [(''error'', JStr (vo_error v))]))"

text \<open>Planning, with its context selection, whose failure leaves the request thin.\<close>

definition select_prog :: "'w processor \<Rightarrow> job \<Rightarrow> ('w, repo_context option) prog" where
  "select_prog p j =
     (case p_context p of
        None \<Rightarrow> ret None
      | Some sel \<Rightarrow> bnd (callp (sel (repo_path j) (task j))) (\<lambda>r. case r of
          Inl e \<Rightarrow> ret None
        | Inr c \<Rightarrow> ret (Some c)))"

definition do_plan :: "'w processor \<Rightarrow> string \<Rightarrow> loop_vars \<Rightarrow> ('w, go_err + loop_vars) prog" where
  "do_plan p k lv =
     (case p_planner p of
        None \<Rightarrow> ret (Inr lv)
      | Some planner \<Rightarrow> bnd job_var (\<lambda>j. bnd (select_prog p j) (\<lambda>co.
          let files = (case co of None \<Rightarrow> [] | Some c \<Rightarrow> rc_files c);
              tr = (case co of None \<Rightarrow> [] | Some c \<Rightarrow> rc_tree c);
              lv1 = (case co of None \<Rightarrow> lv | Some c \<Rightarrow> lv\<lparr>lv_files := files, lv_tree := tr\<rparr>)
          in bnd (callp (planner
               \<lparr>pq_task = task j, pq_repo_path = repo_path j, pq_files = files, pq_tree = tr\<rparr>)) (\<lambda>r. case r of
            Inl e \<Rightarrow> ret (Inl (Errorf ''plan job %s: %w'' [FStr k, FW e]))
          | Inr pl \<Rightarrow> bnd (emit p k TypePlanCreated
              [(''summary'', JStr (pn_summary pl)), (''steps'', JList (map step_json (pn_steps pl)))]) (\<lambda>_.
              ret (Inr (lv1\<lparr>lv_plan := pl\<rparr>)))))))"

text \<open>\<open>createCandidates\<close>: \<open>n\<close> attempts are still to be made, from number \<open>i\<close> on.\<close>

fun create_from ::
    "'w workspaces \<Rightarrow> string \<Rightarrow> string \<Rightarrow> int \<Rightarrow> nat \<Rightarrow> nat \<Rightarrow> candidate list \<Rightarrow>
     ('w, candidate list \<times> go_err option) prog" where
  "create_from w k repo total_n i 0 cs = ret (cs, None)"
| "create_from w k repo total_n i (Suc n) cs =
     bnd (callp (ow_create w (variant_id k i total_n) repo)) (\<lambda>r. case r of
       Inl e \<Rightarrow> ret (cs, Some (Errorf ''create workspace for variant %d: %w'' [FInt (int i), FW e]))
     | Inr ws \<Rightarrow> create_from w k repo total_n (Suc i) n (cs @ [new_candidate i ws]))"

definition create_candidates ::
    "'w workspaces \<Rightarrow> string \<Rightarrow> string \<Rightarrow> int \<Rightarrow> ('w, candidate list \<times> go_err option) prog" where
  "create_candidates w k repo total_n = create_from w k repo total_n 0 (nat total_n) []"

fun for_each :: "('a \<Rightarrow> ('w, unit) prog) \<Rightarrow> 'a list \<Rightarrow> ('w, unit) prog" where
  "for_each f [] = ret ()"
| "for_each f (x # xs) = bnd (f x) (\<lambda>_. for_each f xs)"

definition emit_created :: "'w processor \<Rightarrow> string \<Rightarrow> candidate \<Rightarrow> ('w, unit) prog" where
  "emit_created p k c =
     (case cd_ws c of
        None \<Rightarrow> panic nil_deref
      | Some ws \<Rightarrow> emit p k TypeWorkspaceCreated
          [(''variant'', JInt (int (cd_index c))), (''path'', JStr (ws_path ws)), (''branch'', JStr (ws_branch ws))])"

definition do_prepare :: "'w processor \<Rightarrow> string \<Rightarrow> loop_vars \<Rightarrow> ('w, go_err + loop_vars) prog" where
  "do_prepare p k lv =
     (case p_workspaces p of
        None \<Rightarrow> ret (Inr lv)
      | Some w \<Rightarrow> bnd job_var (\<lambda>j.
          bnd (create_candidates w k (repo_path j) (variant_count (p_variants p))) (\<lambda>(created, eo).
          bnd (modp (\<lambda>s. s\<lparr>jr_cands := created\<rparr>)) (\<lambda>_. case eo of
            Some e \<Rightarrow> ret (Inl (Errorf ''prepare workspaces for job %s: %w'' [FStr k, FW e]))
          | None \<Rightarrow> bnd (for_each (emit_created p k) created) (\<lambda>_. ret (Inr lv))))))"

text \<open>One attempt of \<open>implement\<close>: passed over, implemented, or failed with an error.\<close>

datatype attempt = Skipped | Implemented | Unimplemented go_err

definition apply_prog :: "root_env \<Rightarrow> string \<Rightarrow> operation list \<Rightarrow> ('w, go_err option) prog" where
  "apply_prog env ws ops s =
     (case apply_ops env ws ops (jr_tree s) of (t, eo) \<Rightarrow> (s\<lparr>jr_tree := t\<rparr>, Return eo))"

definition fail_attempt :: "nat \<Rightarrow> go_err \<Rightarrow> ('w, attempt) prog" where
  "fail_attempt i e = bnd (set_cand i (\<lambda>c. c\<lparr>cd_impl_err := Some e\<rparr>)) (\<lambda>_. ret (Unimplemented e))"

definition implement_one ::
    "'w processor \<Rightarrow> (implementor_request \<Rightarrow> ('w, operation list result) call) \<Rightarrow> string \<Rightarrow> loop_vars \<Rightarrow> nat \<Rightarrow>
     ('w, attempt) prog" where
  "implement_one p propose k lv i =
     bnd (cand_var (Some i)) (\<lambda>c. case cd_ws c of
       None \<Rightarrow> ret Skipped
     | Some ws \<Rightarrow>
       if lv_feedback lv \<noteq> [] \<and> cd_impl_err c \<noteq> None then ret Skipped
       else bnd job_var (\<lambda>j. bnd (readp (p_unreadable p)) (\<lambda>u. bnd (getp jr_tree) (\<lambda>t.
         bnd (callp (propose
           \<lparr>iq_task = task j, iq_plan = lv_plan lv,
            iq_files = read_sources u t (ws_path ws) (merge_paths (lv_files lv) (cd_touched c)),
            iq_tree = lv_tree lv, iq_feedback = lv_feedback lv\<rparr>)) (\<lambda>r. case r of
           Inl e \<Rightarrow> fail_attempt i (Errorf ''propose changes: %w'' [FW e])
         | Inr ops \<Rightarrow> bnd (readp (p_root p)) (\<lambda>env. bnd (apply_prog env (ws_path ws) ops) (\<lambda>eo. case eo of
             Some e \<Rightarrow> fail_attempt i (Errorf ''apply changes: %w'' [FW e])
           | None \<Rightarrow>
             bnd (set_cand i (\<lambda>c. c\<lparr>cd_touched := merge_paths (cd_touched c) (paths_of ops)\<rparr>)) (\<lambda>_.
             bnd (emit p k TypeImplementationCompleted
               [(''variant'', JInt (int (cd_index c))), (''operations'', JInt (int (length ops))),
                (''paths'', JStrs (paths_of ops))]) (\<lambda>_. ret Implemented)))))))))"

fun implement_from ::
    "'w processor \<Rightarrow> (implementor_request \<Rightarrow> ('w, operation list result) call) \<Rightarrow> string \<Rightarrow> loop_vars \<Rightarrow>
     nat list \<Rightarrow> nat \<Rightarrow> go_err option \<Rightarrow> ('w, nat \<times> go_err option) prog" where
  "implement_from p f k lv [] n last_err = ret (n, last_err)"
| "implement_from p f k lv (i # is) n last_err =
     bnd (implement_one p f k lv i) (\<lambda>a. case a of
       Skipped \<Rightarrow> implement_from p f k lv is n last_err
     | Implemented \<Rightarrow> implement_from p f k lv is (Suc n) last_err
     | Unimplemented e \<Rightarrow> implement_from p f k lv is n (Some e))"

definition do_implement :: "'w processor \<Rightarrow> string \<Rightarrow> loop_vars \<Rightarrow> ('w, go_err + loop_vars) prog" where
  "do_implement p k lv =
     bnd (getp jr_cands) (\<lambda>cs. case p_implementor p of
       None \<Rightarrow> ret (Inr lv)
     | Some f \<Rightarrow>
       if cs = [] then ret (Inr lv)
       else bnd (implement_from p f k lv [0..<length cs] 0 None) (\<lambda>(n, last_err).
         if n = 0
         then ret (Inl (case last_err of
                Some e \<Rightarrow> Errorf ''no variant could be implemented: %w'' [FW e]
              | None \<Rightarrow> Errorf ''no variant could be implemented: %s'' [FStr ''%!w(<nil>)'']))
         else ret (Inr lv)))"

text \<open>\<open>verify\<close>, which names an attempt even when the gate rejected every one.\<close>

definition verify_prog :: "('w \<times> tree) verifier \<Rightarrow> nat list \<Rightarrow> ('w, unit) prog" where
  "verify_prog v ns s =
     (case verify_candidates v ns (jr_cands s) (jr_world s, jr_tree s) of
        ((w, t), cs) \<Rightarrow> (s\<lparr>jr_world := w, jr_tree := t, jr_cands := cs\<rparr>, Return ()))"

definition emit_report :: "'w processor \<Rightarrow> string \<Rightarrow> candidate \<Rightarrow> ('w, unit) prog" where
  "emit_report p k c =
     emit p k TypeVerificationCompleted
       ([(''variant'', JInt (int (cd_index c))), (''passed'', JBool (passed c)),
         (''summary'', JStr (summary (cd_report c))),
         (''results'', JList (map result_json (rp_results (cd_report c))))] @
        (case failure c of None \<Rightarrow> [] | Some e \<Rightarrow> [(''error'', JErr e)]))"

definition verify :: "'w processor \<Rightarrow> string \<Rightarrow> ('w, nat option \<times> go_err option) prog" where
  "verify p k =
     (case p_verifier p of
        None \<Rightarrow> bnd (getp jr_cands) (\<lambda>cs. ret (representative cs, None))
      | Some v \<Rightarrow> bnd (readp (p_order p)) (\<lambda>ns. bnd (verify_prog v ns) (\<lambda>_. bnd (getp jr_cands) (\<lambda>cs.
          bnd (for_each (emit_report p k) cs) (\<lambda>_.
          let winner = select_winner cs; sm = summarise cs winner in
          bnd (if 1 < length cs
               then emit p k TypeFanoutCompleted
                 [(''total'', JInt (int (fo_total sm))), (''passed'', JInt (int (fo_passed sm))),
                  (''winner'', JInt (fo_winner sm)), (''results'', JList (map outcome_json (fo_results sm)))]
               else ret ()) (\<lambda>_. case winner of
            None \<Rightarrow> ret (representative cs, Some (fanout_failure cs sm))
          | Some i \<Rightarrow> ret (Some i, None)))))))"

definition write_artifact_prog :: "'w processor \<Rightarrow> string \<Rightarrow> string \<Rightarrow> ('w, go_err option) prog" where
  "write_artifact_prog p k diff =
     bnd (readp (p_os p)) (\<lambda>env. (\<lambda>s.
       case fs_write_artifact env k artifact_diff diff (pb_store (jr_pb s)) of
         (st, eo) \<Rightarrow> (s\<lparr>jr_pb := (jr_pb s)\<lparr>pb_store := st\<rparr>\<rparr>, Return eo)))"

definition diff_captured :: "candidate \<Rightarrow> string \<Rightarrow> (string \<times> json) list" where
  "diff_captured c diff =
     (if trim_space diff = []
      then [(''variant'', JInt (int (cd_index c))), (''bytes'', JInt 0), (''empty'', JBool True)]
      else [(''variant'', JInt (int (cd_index c))), (''bytes'', JInt (int (length diff))),
            (''files'', JStrs (changed_files diff))])"

definition capture_diff :: "'w processor \<Rightarrow> string \<Rightarrow> nat option \<Rightarrow> ('w, unit) prog" where
  "capture_diff p k io =
     (case (p_workspaces p, io) of
        (Some w, Some i) \<Rightarrow>
          if \<not> p_artifacts p then ret ()
          else bnd (cand_var io) (\<lambda>c. case cd_ws c of
            None \<Rightarrow> ret ()
          | Some ws \<Rightarrow> bnd (callp (ow_diff w True ws)) (\<lambda>r. case r of
              Inl e \<Rightarrow> ret ()
            | Inr diff \<Rightarrow>
              if trim_space diff = [] then emit p k TypeDiffCaptured (diff_captured c diff)
              else bnd (write_artifact_prog p k diff) (\<lambda>eo. case eo of
                Some e \<Rightarrow> ret ()
              | None \<Rightarrow> emit p k TypeDiffCaptured (diff_captured c diff))))
      | _ \<Rightarrow> ret ())"

definition do_verify :: "'w processor \<Rightarrow> string \<Rightarrow> loop_vars \<Rightarrow> ('w, go_err + loop_vars) prog" where
  "do_verify p k lv =
     bnd (getp jr_cands) (\<lambda>cs.
       if cs = [] then ret (Inr lv)
       else bnd (verify p k) (\<lambda>(winner, ge). bnd (capture_diff p k winner) (\<lambda>_.
         ret (Inr (lv\<lparr>lv_winner := winner, lv_gate_err := ge\<rparr>)))))"

subsection \<open>Reviewing (\<open>review.go\<close>)\<close>

datatype review_outcome = OutcomeApprove | OutcomeRevise string | OutcomeFail go_err

definition diff_of :: "'w processor \<Rightarrow> candidate \<Rightarrow> ('w, string result) prog" where
  "diff_of p c =
     (case (p_workspaces p, cd_ws c) of
        (Some w, Some ws) \<Rightarrow> callp (ow_diff w False ws)
      | _ \<Rightarrow> ret (Inl (Errorf ''no workspace to diff'' [])))"

definition gate_outcome :: "candidate \<Rightarrow> go_err \<Rightarrow> bool \<Rightarrow> review_outcome" where
  "gate_outcome best gate_err can_revise =
     (if cd_err best \<noteq> None \<and> rp_results (cd_report best) = []
      then OutcomeFail (Errorf ''verification could not run: %w'' [FW (the (failure best))])
      else if \<not> can_revise then OutcomeFail gate_err
      else OutcomeRevise (gate_feedback best))"

definition decide :: "string \<Rightarrow> bool \<Rightarrow> review \<Rightarrow> review_outcome" where
  "decide k can_revise v =
     (if rv_decision v = decision_approve then OutcomeApprove
      else if rv_decision v = decision_reject
      then OutcomeFail (Errorf ''review rejected job %s: %s'' [FStr k, FStr (rv_notes v)])
      else if \<not> can_revise
      then OutcomeFail (Errorf ''%w for job %s: %s''
             [FW (Sentinel ErrMaxRevisionsExceeded), FStr k, FStr (rv_notes v)])
      else OutcomeRevise (rv_notes v))"

definition model_review ::
    "'w processor \<Rightarrow> (reviewer_request \<Rightarrow> ('w, review result) call) \<Rightarrow> string \<Rightarrow> loop_vars \<Rightarrow> bool \<Rightarrow>
     ('w, review_outcome) prog" where
  "model_review p reviewer k lv can_revise =
     bnd job_var (\<lambda>j. bnd (cand_var (lv_winner lv)) (\<lambda>best.
     bnd (emit p k TypeReviewStarted [(''variant'', JInt (int (cd_index best)))]) (\<lambda>_.
     bnd (diff_of p best) (\<lambda>r. case r of
       Inl e \<Rightarrow> ret OutcomeApprove
     | Inr diff \<Rightarrow>
       bnd (callp (reviewer
         \<lparr>rq_task = task j, rq_plan = lv_plan lv, rq_diff = diff, rq_verification = cd_report best,
          rq_prior_feedback = lv_feedback lv, rq_changed_files = changed_files diff\<rparr>)) (\<lambda>r. case r of
         Inl e \<Rightarrow> ret (OutcomeFail (Errorf ''review job %s: %w'' [FStr k, FW e]))
       | Inr opinion \<Rightarrow>
         bnd (emit p k TypeReviewCompleted
           [(''variant'', JInt (int (cd_index best))), (''decision'', JStr (rv_decision opinion)),
            (''notes'', JStr (rv_notes opinion)), (''reasons'', JStrs (rv_reasons opinion))]) (\<lambda>_.
         ret (decide k can_revise opinion)))))))"

definition review_prog :: "'w processor \<Rightarrow> string \<Rightarrow> loop_vars \<Rightarrow> bool \<Rightarrow> ('w, review_outcome) prog" where
  "review_prog p k lv can_revise =
     (case lv_gate_err lv of
        Some ge \<Rightarrow>
          if lv_winner lv = None \<and> \<not> can_revise then ret (OutcomeFail ge)
          else bnd (cand_var (lv_winner lv)) (\<lambda>best. ret (gate_outcome best ge can_revise))
      | None \<Rightarrow>
          (case p_reviewer p of
             None \<Rightarrow> ret OutcomeApprove
           | Some reviewer \<Rightarrow> model_review p reviewer k lv can_revise))"

definition revision_steps :: "job_status list" where
  "revision_steps = [StatusWaitingForRevision, StatusImplementing, StatusVerifying, StatusReviewing]"

definition do_review ::
    "'w processor \<Rightarrow> string \<Rightarrow> loop_vars \<Rightarrow> ('w, go_err + loop_vars \<times> job_status list) prog" where
  "do_review p k lv =
     bnd (getp jr_cands) (\<lambda>cs.
       if cs = [] then ret (Inr (lv, []))
       else bnd (review_prog p k lv (p_implementor p \<noteq> None \<and> lv_revisions lv < max_revisions)) (\<lambda>ro.
         case ro of
           OutcomeFail e \<Rightarrow> ret (Inl e)
         | OutcomeApprove \<Rightarrow> ret (Inr (lv, []))
         | OutcomeRevise notes \<Rightarrow>
             bnd (modp (\<lambda>s. s\<lparr>jr_metrics := revision_requested (jr_metrics s)\<rparr>)) (\<lambda>_.
             bnd (emit p k TypeRevisionRequested
               [(''attempt'', JInt (int (Suc (lv_revisions lv)))), (''notes'', JStr notes)]) (\<lambda>_.
             ret (Inr (lv\<lparr>lv_revisions := Suc (lv_revisions lv), lv_feedback := notes,
                          lv_gate_err := None\<rparr>, revision_steps))))))"

subsection \<open>The work list\<close>

definition map_step :: "go_err + loop_vars \<Rightarrow> go_err + loop_vars \<times> job_status list" where
  "map_step r = (case r of Inl e \<Rightarrow> Inl e | Inr lv \<Rightarrow> Inr (lv, []))"

definition step_work ::
    "'w processor \<Rightarrow> string \<Rightarrow> loop_vars \<Rightarrow> job_status \<Rightarrow> ('w, go_err + loop_vars \<times> job_status list) prog" where
  "step_work p k lv st =
     (case st of
        StatusPlanning \<Rightarrow> bnd (do_plan p k lv) (\<lambda>r. ret (map_step r))
      | StatusPreparingWorkspace \<Rightarrow> bnd (do_prepare p k lv) (\<lambda>r. ret (map_step r))
      | StatusImplementing \<Rightarrow> bnd (do_implement p k lv) (\<lambda>r. ret (map_step r))
      | StatusVerifying \<Rightarrow> bnd (do_verify p k lv) (\<lambda>r. ret (map_step r))
      | StatusReviewing \<Rightarrow> do_review p k lv
      | _ \<Rightarrow> ret (Inr (lv, [])))"

text \<open>
  One iteration.  \<open>Inl\<close> is a \<open>return\<close> of \<open>Process\<close> with its error; \<open>Inr\<close> goes on, with steps appended
  to the list.
\<close>

definition stop :: "('w, go_err option) prog \<Rightarrow> ('w, go_err option + loop_vars \<times> job_status list) prog" where
  "stop m = bnd m (\<lambda>eo. ret (Inl eo))"

definition run_step ::
    "'w processor \<Rightarrow> string \<Rightarrow> loop_vars \<Rightarrow> job_status \<Rightarrow>
     ('w, go_err option + loop_vars \<times> job_status list) prog" where
  "run_step p k lv st =
     bnd (readp (p_ctx_err p)) (\<lambda>co. case co of
       Some e \<Rightarrow> stop (end_interrupted p e)
     | None \<Rightarrow>
       bnd (emit p k TypeStepStarted [(''status'', JStr (status_string st))]) (\<lambda>_.
       bnd (advance p st) (\<lambda>eo. case eo of
         Some e \<Rightarrow> stop (mark_failed p e)
       | None \<Rightarrow> bnd (step_work p k lv st) (\<lambda>r. case r of
           Inl e \<Rightarrow> stop (mark_failed p e)
         | Inr next_lv \<Rightarrow>
           bnd (emit p k TypeStepCompleted [(''status'', JStr (status_string st))]) (\<lambda>_.
           bnd (readp (p_ctx_err p)) (\<lambda>co. case co of
             Some e \<Rightarrow> stop (end_interrupted p e)
           | None \<Rightarrow> ret (Inr next_lv)))))))"

text \<open>After the work list: the last checkpoint, the guard on the gate's verdict, and \<open>completed\<close>.\<close>

definition finish_job :: "'w processor \<Rightarrow> string \<Rightarrow> loop_vars \<Rightarrow> ('w, go_err option) prog" where
  "finish_job p k lv =
     bnd (readp (p_ctx_err p)) (\<lambda>co. case co of
       Some e \<Rightarrow> end_interrupted p e
     | None \<Rightarrow> (case lv_gate_err lv of
         Some e \<Rightarrow> mark_failed p e
       | None \<Rightarrow>
         bnd (emit p k TypeStepStarted [(''status'', JStr (status_string StatusCompleted))]) (\<lambda>_.
         bnd (advance p StatusCompleted) (\<lambda>eo. case eo of
           Some e \<Rightarrow> mark_failed p e
         | None \<Rightarrow>
           bnd (emit p k TypeStepCompleted [(''status'', JStr (status_string StatusCompleted))]) (\<lambda>_.
           bnd (emit p k TypeJobCompleted []) (\<lambda>_. ret None))))))"

subsection \<open>The work list ends\<close>

lemma keeps_review_outcome [keeps_intros]:
  "(x = OutcomeApprove \<Longrightarrow> keeps P m) \<Longrightarrow> (\<And>n. x = OutcomeRevise n \<Longrightarrow> keeps P (f n)) \<Longrightarrow>
   (\<And>e. x = OutcomeFail e \<Longrightarrow> keeps P (g e)) \<Longrightarrow>
     keeps P (case x of OutcomeApprove \<Rightarrow> m | OutcomeRevise n \<Rightarrow> f n | OutcomeFail e \<Rightarrow> g e)"
  by (cases x) simp_all

lemma keeps_attempt [keeps_intros]:
  "(x = Skipped \<Longrightarrow> keeps P m) \<Longrightarrow> (x = Implemented \<Longrightarrow> keeps P n) \<Longrightarrow>
   (\<And>e. x = Unimplemented e \<Longrightarrow> keeps P (g e)) \<Longrightarrow>
     keeps P (case x of Skipped \<Rightarrow> m | Implemented \<Rightarrow> n | Unimplemented e \<Rightarrow> g e)"
  by (cases x) simp_all

lemma yields_review_outcome [yields_intros]:
  "(x = OutcomeApprove \<Longrightarrow> yields m Q) \<Longrightarrow> (\<And>n. x = OutcomeRevise n \<Longrightarrow> yields (f n) Q) \<Longrightarrow>
   (\<And>e. x = OutcomeFail e \<Longrightarrow> yields (g e) Q) \<Longrightarrow>
     yields (case x of OutcomeApprove \<Rightarrow> m | OutcomeRevise n \<Rightarrow> f n | OutcomeFail e \<Rightarrow> g e) Q"
  by (cases x) simp_all

text \<open>Only a review appends steps, and then it has used up one of the revisions.\<close>

definition same_round :: "loop_vars \<Rightarrow> go_err + loop_vars \<Rightarrow> bool" where
  "same_round lv r = (case r of Inl e \<Rightarrow> True | Inr lv' \<Rightarrow> lv_revisions lv' = lv_revisions lv)"

definition next_round :: "loop_vars \<Rightarrow> 'e + loop_vars \<times> job_status list \<Rightarrow> bool" where
  "next_round lv r =
     (case r of
        Inl e \<Rightarrow> True
      | Inr (lv', extra) \<Rightarrow>
          (lv_revisions lv' = lv_revisions lv \<and> extra = []) \<or>
          (lv_revisions lv' = Suc (lv_revisions lv) \<and> lv_revisions lv < max_revisions \<and> extra = revision_steps))"

lemma map_step_round: "same_round lv r \<Longrightarrow> next_round lv (map_step r)"
  by (auto simp: same_round_def next_round_def map_step_def split: sum.splits)

lemma yields_stages:
  "yields (do_plan p k lv) (same_round lv)" "yields (do_prepare p k lv) (same_round lv)"
  "yields (do_implement p k lv) (same_round lv)" "yields (do_verify p k lv) (same_round lv)"
  unfolding do_plan_def do_prepare_def do_implement_def do_verify_def
  by (intro yields_intros; simp add: same_round_def split: option.split)+

lemma review_prog_cannot_revise:
  "\<not> can_revise \<Longrightarrow> yields (review_prog p k lv can_revise) (\<lambda>ro. \<forall>n. ro \<noteq> OutcomeRevise n)"
  unfolding review_prog_def model_review_def
  by (intro yields_intros; simp add: gate_outcome_def decide_def)+

lemma yields_do_review: "yields (do_review p k lv) (next_round lv)"
proof -
  let ?can = "p_implementor p \<noteq> None \<and> lv_revisions lv < max_revisions"
  have r: "yields (review_prog p k lv ?can) (\<lambda>ro. (\<exists>n. ro = OutcomeRevise n) \<longrightarrow> ?can)"
    using review_prog_cannot_revise [of ?can p k lv] yields_any [of "review_prog p k lv ?can"]
    by (cases ?can) (auto simp: yields_def)
  show ?thesis
    unfolding do_review_def
    by (intro yields_after yields_case yields_bnd [OF r] yields_review_outcome yields_simple)
      (simp_all add: next_round_def)
qed

lemma yields_map_step: "yields m (same_round lv) \<Longrightarrow> yields (bnd m (\<lambda>r. ret (map_step r))) (next_round lv)"
  by (erule yields_bnd) (simp add: yields_simple map_step_round)

lemma yields_step_work: "yields (step_work p k lv st) (next_round lv)"
  unfolding step_work_def
  by (cases st)
    (simp_all add: yields_map_step yields_stages yields_do_review yields_simple next_round_def)

lemma yields_run_step: "yields (run_step p k lv st) (next_round lv)"
  unfolding run_step_def stop_def
  by (intro yields_after yields_case yields_bnd [OF yields_step_work] yields_simple)
    (auto simp: next_round_def)

text \<open>
  The loop over the steps.  It ends because a revision uses up one of \<open>MaxRevisions\<close> and adds four
  steps.
\<close>

function step_loop ::
    "'w processor \<Rightarrow> string \<Rightarrow> loop_vars \<Rightarrow> job_status list \<Rightarrow> ('w, go_err option) prog" where
  "step_loop p k lv [] s = finish_job p k lv s"
| "step_loop p k lv (st # rest) s =
     (case run_step p k lv st s of
        (s1, Panic r) \<Rightarrow> (s1, Panic r)
      | (s1, Return (Inl eo)) \<Rightarrow> (s1, Return eo)
      | (s1, Return (Inr (lv', extra))) \<Rightarrow> step_loop p k lv' (rest @ extra) s1)"
  by pat_completeness auto
termination
proof (relation "measure (\<lambda>(p, k, lv, steps, s). length steps + 4 * (max_revisions - lv_revisions lv))")
  fix p :: "'a processor" and k lv st rest s s1 r x y lv' extra
  assume "(s1, r) = run_step p k lv st s" and "r = Return x" and "x = Inr y" and "(lv', extra) = y"
  then have "next_round lv (Inr (lv', extra) :: go_err option + loop_vars \<times> job_status list)"
    using yieldsD [OF yields_run_step, of p k lv st s s1 x] by simp
  then show "((p, k, lv', rest @ extra, s1), (p, k, lv, st # rest, s)) \<in>
      measure (\<lambda>(p, k, lv, steps, s). length steps + 4 * (max_revisions - lv_revisions lv))"
    by (auto simp: next_round_def revision_steps_def)
qed simp

subsection \<open>\<open>Process\<close>\<close>

definition first_steps :: "job_status list" where
  "first_steps =
     [StatusPlanning, StatusPreparingWorkspace, StatusImplementing, StatusVerifying, StatusReviewing]"

definition process_body :: "'w processor \<Rightarrow> string \<Rightarrow> time \<Rightarrow> ('w, go_err option) prog" where
  "process_body p k started =
     bnd (getp (\<lambda>s. fs_get k (pb_store (jr_pb s)))) (\<lambda>r. case r of
       Inl e \<Rightarrow> ret (Some (Errorf ''load job %s: %w'' [FStr k, FW e]))
     | Inr j \<Rightarrow>
       bnd (modp (\<lambda>s. s\<lparr>jr_job := Some j\<rparr>)) (\<lambda>_.
       bnd (modp (\<lambda>s. s\<lparr>jr_metrics := queue_waited (word_of_int (started - created_at j)) (jr_metrics s)\<rparr>)) (\<lambda>_.
       bnd (emit p k TypeJobStarted []) (\<lambda>_.
       step_loop p k first_vars first_steps))))"

text \<open>The deferred functions: the removal of the worktrees, the recovery, and the metrics.\<close>

definition cleanup_one :: "'w workspaces \<Rightarrow> candidate \<Rightarrow> ('w, unit) prog" where
  "cleanup_one w c =
     (case cd_ws c of
        None \<Rightarrow> ret ()
      | Some ws \<Rightarrow> bnd (callp (ow_cleanup w ws)) (\<lambda>_. ret ()))"

definition cleanup_all :: "'w processor \<Rightarrow> ('w, unit) prog" where
  "cleanup_all p =
     (case p_workspaces p of
        None \<Rightarrow> ret ()
      | Some w \<Rightarrow> bnd (getp jr_cands) (\<lambda>cs. for_each (cleanup_one w) cs))"

definition recover_job :: "'w processor \<Rightarrow> string \<Rightarrow> ('w, go_err option) prog" where
  "recover_job p r =
     (let cause = Errorf ''%w: %v'' [FW (Sentinel ErrPanic), FStr r] in
      bnd (getp jr_job) (\<lambda>jo. case jo of None \<Rightarrow> ret (Some cause) | Some j \<Rightarrow> mark_failed p cause))"

definition end_metrics :: "'w processor \<Rightarrow> time \<Rightarrow> ('w, unit) prog" where
  "end_metrics p started =
     bnd (readp (p_now p)) (\<lambda>now. modp (\<lambda>s. s\<lparr>jr_metrics :=
       job_ended (case jr_job s of None \<Rightarrow> ''failed'' | Some j \<Rightarrow> status_string (status j))
         (word_of_int (now - started)) (jr_metrics s)\<rparr>))"

text \<open>\<open>defer p.Canceller.Release(jobID)\<close> after \<open>Track\<close>, around the deferred removal of the worktrees.\<close>

definition tracked_run :: "'w processor \<Rightarrow> string \<Rightarrow> ('w, 'a) prog \<Rightarrow> ('w, 'a) prog" where
  "tracked_run p k m =
     (if p_canceller p
      then bnd (modp (\<lambda>s. s\<lparr>jr_cancels := cn_track k (p_cancel p) (jr_cancels s)\<rparr>)) (\<lambda>_.
        deferred m (modp (\<lambda>s. s\<lparr>jr_cancels := cn_release k (jr_cancels s)\<rparr>)))
      else m)"

definition process :: "'w processor \<Rightarrow> string \<Rightarrow> ('w, go_err option) prog" where
  "process p k =
     bnd (modp (\<lambda>s. s\<lparr>jr_job := None, jr_cands := []\<rparr>)) (\<lambda>_.
     bnd (readp (p_now p)) (\<lambda>started.
     bnd (modp (\<lambda>s. s\<lparr>jr_metrics := job_started (jr_metrics s)\<rparr>)) (\<lambda>_.
     deferred
       (recovered (tracked_run p k (deferred (process_body p k started) (cleanup_all p))) (recover_job p))
       (end_metrics p started))))"

end
