(* ===== verification/Processor_Frame.thy ===== *)
theory Processor_Frame
  imports Processor
begin

text \<open>
  What the steps of a run cannot break.  Each locale lists the primitive changes an invariant must
  survive, and proves that the operations made of those changes keep it: events and artifacts
  (\<open>quiet_invariant\<close>), the attempts (\<open>cands_invariant\<close>), the status of the job (\<open>status_invariant\<close>).
  The loop over the steps has a rule of its own, with an invariant per remaining work list.
\<close>

subsection \<open>Programs shared by the invariants\<close>

lemma keeps_for_each: "(\<And>x. keeps P (f x)) \<Longrightarrow> keeps P (for_each f xs)"
  by (induction xs) (simp_all add: keeps_intros)

lemma keeps_job_var [keeps_intros]: "keeps P job_var"
  unfolding job_var_def by (intro keeps_intros)

lemma keeps_cand_var [keeps_intros]: "keeps P (cand_var io)"
  unfolding cand_var_def by (intro keeps_intros)

lemma keeps_stop [keeps_intros]: "keeps P m \<Longrightarrow> keeps P (stop m)"
  unfolding stop_def by (intro keeps_intros)

text \<open>The loop rule: \<open>R lv steps\<close> is what holds when \<open>steps\<close> are still to be done.\<close>

lemma step_loop_rule:
  assumes step: "\<And>lv st rest. triple (R lv (st # rest)) (run_step p k lv st)
      (\<lambda>r s. case r of Inl eo \<Rightarrow> Q eo s | Inr (lv', extra) \<Rightarrow> R lv' (rest @ extra) s) E"
    and fin: "\<And>lv. triple (R lv []) (finish_job p k lv) Q E"
  shows "triple (R lv steps) (step_loop p k lv steps) Q E"
proof -
  have "R lv steps s \<Longrightarrow> case step_loop p k lv steps s of (s', Return eo) \<Rightarrow> Q eo s' | (s', Panic r) \<Rightarrow> E s'" for s
    using step fin
  proof (induction p k lv steps s rule: step_loop.induct)
    case (1 p k lv s)
    then show ?case by (simp add: triple_def)
  next
    case (2 p k lv st rest s)
    obtain s1 oc where rs: "run_step p k lv st s = (s1, oc)" by (cases "run_step p k lv st s")
    have post: "case oc of Return r \<Rightarrow> (case r of Inl eo \<Rightarrow> Q eo s1 | Inr (lv', extra) \<Rightarrow> R lv' (rest @ extra) s1)
        | Panic r \<Rightarrow> E s1"
      by (rule tripleD [OF 2(3) 2(2) rs])
    show ?case
    proof (cases oc)
      case (Return r)
      show ?thesis
      proof (cases r)
        case (Inl eo)
        with post rs Return show ?thesis by simp
      next
        case (Inr y)
        obtain lv' extra where y: "y = (lv', extra)" by (cases y)
        with post Return Inr have "R lv' (rest @ extra) s1" by simp
        from 2(1) [OF rs [symmetric] Return Inr y [symmetric] this 2(3,4)] rs Return Inr y
        show ?thesis by simp
      qed
    qed (use post rs in simp)
  qed
  then show ?thesis by (simp add: triple_def)
qed

lemma triple_stop:
  "triple P m Q E \<Longrightarrow> triple P (stop m) (\<lambda>r s. case r of Inl eo \<Rightarrow> Q eo s | Inr x \<Rightarrow> R x s) E"
  unfolding stop_def by (erule triple_bnd) (auto simp: triple_def ret_def)

lemma triple_ctx:
  assumes "keeps P (readp (p_ctx_err p))" and "\<And>e. triple P (f e) Q E" and "triple P g Q E"
  shows "triple P (bnd (readp (p_ctx_err p)) (\<lambda>co. case co of Some e \<Rightarrow> f e | None \<Rightarrow> g)) Q E"
proof (rule triple_bnd)
  show "triple P (readp (p_ctx_err p)) (\<lambda>_. P) E"
    using assms(1) by (auto simp: keeps_iff triple_def readp_def split: prod.splits)
qed (use assms(2,3) in \<open>auto split: option.split\<close>)

text \<open>
  The rule for one step: \<open>P\<close> holds before it, \<open>P'\<close> once the job has moved, \<open>F\<close> when the move or the work
  failed, \<open>R\<close> when the step's work is done, and \<open>Q\<close> at a return.
\<close>

lemma run_step_rule:
  assumes ctx: "keeps P (readp (p_ctx_err p))" "\<And>x. keeps (R x) (readp (p_ctx_err p))"
    and emits: "\<And>ty pl. triple P (emit p k ty pl) (\<lambda>_. P) E" "\<And>x ty pl. triple (R x) (emit p k ty pl) (\<lambda>_. R x) E"
    and interrupted: "\<And>e. triple P (end_interrupted p e) Q E" "\<And>x e. triple (R x) (end_interrupted p e) Q E"
    and failed: "\<And>e. triple F (mark_failed p e) Q E"
    and adv: "triple P (advance p st) (\<lambda>eo s. case eo of Some e \<Rightarrow> F s | None \<Rightarrow> P' s) E"
    and work: "triple P' (step_work p k lv st) (\<lambda>r s. case r of Inl e \<Rightarrow> F s | Inr x \<Rightarrow> R x s) E"
  shows "triple P (run_step p k lv st) (\<lambda>r s. case r of Inl eo \<Rightarrow> Q eo s | Inr x \<Rightarrow> R x s) E"
    (is "triple _ _ ?Q _")
proof -
  have last: "triple (R x) (bnd (emit p k TypeStepCompleted pl) (\<lambda>_.
      bnd (readp (p_ctx_err p)) (\<lambda>co. case co of
        Some e \<Rightarrow> stop (end_interrupted p e) | None \<Rightarrow> ret (Inr x)))) ?Q E" for x pl
    by (rule triple_bnd [OF emits(2)], rule triple_ctx [OF ctx(2) triple_stop [OF interrupted(2)]])
      (rule triple_ret, simp)
  have after: "triple (\<lambda>s. case r of Inl e \<Rightarrow> F s | Inr x \<Rightarrow> R x s) (case r of
        Inl e \<Rightarrow> stop (mark_failed p e)
      | Inr x \<Rightarrow> bnd (emit p k TypeStepCompleted [(''status'', JStr (status_string st))]) (\<lambda>_.
          bnd (readp (p_ctx_err p)) (\<lambda>co. case co of
            Some e \<Rightarrow> stop (end_interrupted p e) | None \<Rightarrow> ret (Inr x)))) ?Q E" for r
    using triple_stop [OF failed] last by (cases r) simp_all
  have moved: "triple (\<lambda>s. case eo of Some e \<Rightarrow> F s | None \<Rightarrow> P' s) (case eo of
        Some e \<Rightarrow> stop (mark_failed p e)
      | None \<Rightarrow> bnd (step_work p k lv st) (\<lambda>r. case r of
          Inl e \<Rightarrow> stop (mark_failed p e)
        | Inr x \<Rightarrow> bnd (emit p k TypeStepCompleted [(''status'', JStr (status_string st))]) (\<lambda>_.
            bnd (readp (p_ctx_err p)) (\<lambda>co. case co of
              Some e \<Rightarrow> stop (end_interrupted p e) | None \<Rightarrow> ret (Inr x))))) ?Q E" for eo
    using triple_stop [OF failed] triple_bnd [OF work after] by (cases eo) simp_all
  show ?thesis
    unfolding run_step_def
    by (rule triple_ctx [OF ctx(1) triple_stop [OF interrupted(1)]], rule triple_bnd [OF emits(1)],
        rule triple_bnd [OF adv moved])
qed

subsection \<open>Events and artifacts\<close>

text \<open>
  An invariant kept by whatever the run reads from the world, and by the calls of the collaborators
  that neither make nor remove worktrees.
\<close>

definition calls_keep :: "'w processor \<Rightarrow> ('w job_run \<Rightarrow> bool) \<Rightarrow> bool" where
  "calls_keep p P =
     (keeps P (readp (p_now p)) \<and> keeps P (readp (p_ctx_err p)) \<and> keeps P (readp (p_os p)) \<and>
      keeps P (readp (p_root p)) \<and> keeps P (readp (p_unreadable p)) \<and> keeps P (readp (p_order p)) \<and>
      (\<forall>f req. p_planner p = Some f \<longrightarrow> keeps P (callp (f req))) \<and>
      (\<forall>f repo t. p_context p = Some f \<longrightarrow> keeps P (callp (f repo t))) \<and>
      (\<forall>f req. p_implementor p = Some f \<longrightarrow> keeps P (callp (f req))) \<and>
      (\<forall>f req. p_reviewer p = Some f \<longrightarrow> keeps P (callp (f req))) \<and>
      (\<forall>w b ws. p_workspaces p = Some w \<longrightarrow> keeps P (callp (ow_diff w b ws))))"

lemma inner_calls: "inner P \<Longrightarrow> calls_keep p P"
  by (simp add: calls_keep_def keeps_inner)

lemma keeps_verify_prog:
  assumes "inner P" and "\<And>s cs. P s \<Longrightarrow> length cs = length (jr_cands s) \<Longrightarrow> P (s\<lparr>jr_cands := cs\<rparr>)"
  shows "keeps P (verify_prog v ns)"
proof (rule keepsI)
  fix s assume "P s"
  then have "P (s\<lparr>jr_world := w, jr_tree := t\<rparr>)" for w t by (simp add: innerD2 [OF assms(1)])
  from assms(2) [OF this] show "P (fst (verify_prog v ns s))" by (simp add: verify_prog_def split_beta)
qed

locale quiet_invariant =
  fixes p :: "'w processor" and k :: string and I :: "'w job_run \<Rightarrow> bool"
  assumes calls_I: "calls_keep p I"
    and publish_I: "I s \<Longrightarrow> I (s\<lparr>jr_pb := fst (pb_publish (p_codec p) env now e (jr_pb s))\<rparr>)"
    and artifact_I: "I s \<Longrightarrow>
      I (s\<lparr>jr_pb := (jr_pb s)\<lparr>pb_store := fst (fs_write_artifact env k artifact_diff d (pb_store (jr_pb s)))\<rparr>\<rparr>)"
begin

lemma reads_I:
  "keeps I (readp (p_now p))" "keeps I (readp (p_ctx_err p))" "keeps I (readp (p_os p))"
  "keeps I (readp (p_root p))" "keeps I (readp (p_unreadable p))" "keeps I (readp (p_order p))"
  using calls_I by (simp_all add: calls_keep_def)

lemma collaborators_I:
  "p_planner p = Some f1 \<Longrightarrow> keeps I (callp (f1 req1))"
  "p_context p = Some f2 \<Longrightarrow> keeps I (callp (f2 repo t))"
  "p_implementor p = Some f3 \<Longrightarrow> keeps I (callp (f3 req3))"
  "p_reviewer p = Some f4 \<Longrightarrow> keeps I (callp (f4 req4))"
  "p_workspaces p = Some w \<Longrightarrow> keeps I (callp (ow_diff w b ws))"
  using calls_I by (simp_all add: calls_keep_def)

lemma keeps_publish: "keeps I (publish_prog (p_codec p) env now e)"
  by (rule keepsI) (auto simp: publish_prog_def split_beta publish_I split: outcome.split)

lemma keeps_emit: "keeps I (emit p k' ty payload)"
  unfolding emit_def by (intro keeps_intros reads_I keeps_publish)

lemmas quiet_intros = keeps_intros reads_I keeps_emit

lemma keeps_write_artifact: "keeps I (write_artifact_prog p k d)"
  unfolding write_artifact_prog_def
  by (intro quiet_intros) (rule keepsI, simp add: split_beta artifact_I)

lemma keeps_plan: "keeps I (do_plan p k lv)"
  unfolding do_plan_def select_prog_def by (intro quiet_intros collaborators_I)

lemma keeps_emit_created: "keeps I (emit_created p k c)"
  unfolding emit_created_def by (intro quiet_intros)

lemma keeps_emit_report: "keeps I (emit_report p k c)"
  unfolding emit_report_def by (intro quiet_intros)

lemma keeps_capture: "keeps I (capture_diff p k io)"
  unfolding capture_diff_def by (intro quiet_intros collaborators_I keeps_write_artifact; simp)

lemma keeps_review: "keeps I (review_prog p k lv can)"
  unfolding review_prog_def model_review_def diff_of_def by (intro quiet_intros collaborators_I; simp)

text \<open>Making and removing worktrees is for invariants that do not speak of them.\<close>

lemma keeps_create:
  assumes "inner I"
  shows "keeps I (create_candidates w k repo n)"
proof -
  have "keeps I (create_from w k repo n i m cs)" for i m cs
    by (induction m arbitrary: i cs) (simp_all, (intro quiet_intros keeps_inner [OF assms]; simp)+)
  then show ?thesis by (simp add: create_candidates_def)
qed

lemma keeps_cleanup: "inner I \<Longrightarrow> keeps I (cleanup_all p)"
  unfolding cleanup_all_def cleanup_one_def by (intro quiet_intros keeps_inner keeps_for_each)

end

subsection \<open>The attempts\<close>

locale cands_invariant = quiet_invariant +
  assumes set_cand_I: "I s \<Longrightarrow> i < length (jr_cands s) \<Longrightarrow> cd_ws c = cd_ws (jr_cands s ! i) \<Longrightarrow>
      I (s\<lparr>jr_cands := (jr_cands s)[i := c]\<rparr>)"
    and tree_I: "I s \<Longrightarrow> I (s\<lparr>jr_tree := t\<rparr>)"
    and verifier_I: "p_verifier p = Some v \<Longrightarrow> keeps I (verify_prog v ns)"
begin

lemma keeps_set_cand:
  assumes "\<And>c. cd_ws (f c) = cd_ws c"
  shows "keeps I (set_cand i f)"
  unfolding set_cand_def
proof (rule keeps_modp)
  fix s assume "I s"
  then show "I (s\<lparr>jr_cands := (jr_cands s)[i := f (jr_cands s ! i)]\<rparr>)"
    using set_cand_I [of s i "f (jr_cands s ! i)"] assms
    by (cases "i < length (jr_cands s)") (simp_all add: list_update_beyond)
qed

lemma keeps_apply: "keeps I (apply_prog env ws ops)"
  by (rule keepsI) (simp add: apply_prog_def split_beta tree_I)

lemma keeps_prepare:
  assumes "inner I" and "\<And>s cs. I s \<Longrightarrow> I (s\<lparr>jr_cands := cs\<rparr>)"
  shows "keeps I (do_prepare p k lv)"
  unfolding do_prepare_def
  by (intro quiet_intros keeps_create keeps_for_each keeps_emit_created keeps_modp assms)

lemma keeps_implement: "keeps I (do_implement p k lv)"
proof -
  have one: "keeps I (implement_one p f k lv i)" if "p_implementor p = Some f" for f i
    unfolding implement_one_def fail_attempt_def
    by (intro quiet_intros collaborators_I keeps_apply keeps_set_cand; simp add: that)
  have "keeps I (implement_from p f k lv is n e)" if "p_implementor p = Some f" for f "is" n e
    by (induction "is" arbitrary: n e) (simp_all, (intro quiet_intros one that; simp)+)
  then show ?thesis unfolding do_implement_def by (intro quiet_intros)
qed

lemma keeps_verify: "keeps I (verify p k)"
  unfolding verify_def
  by (intro quiet_intros verifier_I keeps_for_each keeps_emit_report)

lemma keeps_do_verify: "keeps I (do_verify p k lv)"
  unfolding do_verify_def by (intro quiet_intros keeps_verify keeps_capture)

lemma keeps_work:
  assumes revision: "\<And>s. I s \<Longrightarrow> I (s\<lparr>jr_metrics := revision_requested (jr_metrics s)\<rparr>)"
    and prepare: "st = StatusPreparingWorkspace \<Longrightarrow> keeps I (do_prepare p k lv)"
  shows "keeps I (step_work p k lv st)"
proof -
  have "keeps I (do_review p k lv)"
    unfolding do_review_def by (intro quiet_intros keeps_review keeps_modp revision)
  then show ?thesis
    unfolding step_work_def using keeps_plan prepare keeps_implement keeps_do_verify
    by (cases st) (simp_all add: keeps_intros)
qed

end

subsection \<open>The status of the job\<close>

text \<open>\<open>A\<close> is the set of statuses to which a move keeps the invariant.\<close>

locale status_invariant = quiet_invariant +
  fixes A :: "job_status set"
  assumes job_I: "I s \<Longrightarrow> jr_job s = Some j \<Longrightarrow> st \<in> A \<Longrightarrow> I (s\<lparr>jr_job := Some (snd (transition now st j))\<rparr>)"
    and update_I: "I s \<Longrightarrow> jr_job s = Some j \<Longrightarrow>
      I (s\<lparr>jr_pb := (jr_pb s)\<lparr>pb_store := fst (fs_update (p_codec p) env j (pb_store (jr_pb s)))\<rparr>\<rparr>)"
    and endings: "StatusFailed \<in> A" "StatusCancelled \<in> A"
begin

lemma keeps_transition:
  assumes "st \<in> A"
  shows "keeps I (transition_prog p st)"
proof (rule keepsI)
  fix s assume I: "I s"
  show "I (fst (transition_prog p st s))"
  proof (cases "jr_job s")
    case None
    with I show ?thesis by (simp add: transition_prog_def job_var_def bnd_def getp_def panic_def)
  next
    case (Some j)
    obtain w now where now: "p_now p (jr_world s) = (w, now)" by (cases "p_now p (jr_world s)")
    have "I (s\<lparr>jr_world := w\<rparr>)" using keepsD [OF reads_I(1) I] now by (simp add: readp_def)
    from job_I [OF this _ assms, of j now] Some now show ?thesis
      by (simp add: transition_prog_def job_var_def bnd_def getp_def ret_def readp_def modp_def split_beta)
  qed
qed

lemma keeps_update: "keeps I (update_prog p)"
proof (rule keepsI)
  fix s assume I: "I s"
  show "I (fst (update_prog p s))"
  proof (cases "jr_job s")
    case None
    with I show ?thesis by (simp add: update_prog_def job_var_def bnd_def getp_def panic_def)
  next
    case (Some j)
    obtain w env where os: "p_os p (jr_world s) = (w, env)" by (cases "p_os p (jr_world s)")
    have "I (s\<lparr>jr_world := w\<rparr>)" using keepsD [OF reads_I(3) I] os by (simp add: readp_def)
    from update_I [OF this, of j env] Some os show ?thesis
      by (simp add: update_prog_def job_var_def bnd_def getp_def ret_def readp_def split_beta)
  qed
qed

lemma keeps_advance: "st \<in> A \<Longrightarrow> keeps I (advance p st)"
  unfolding advance_def by (intro quiet_intros keeps_transition keeps_update)

lemma keeps_failed: "keeps I (mark_failed p e)"
  unfolding mark_failed_def by (intro quiet_intros keeps_transition keeps_update endings)

lemma keeps_cancelled: "keeps I (mark_cancelled p)"
  unfolding mark_cancelled_def by (intro quiet_intros keeps_transition keeps_update endings)

lemma keeps_interrupted: "keeps I (end_interrupted p e)"
  unfolding end_interrupted_def by (intro quiet_intros keeps_failed keeps_cancelled)

lemma keeps_recover: "keeps I (recover_job p r)"
  unfolding recover_job_def by (intro quiet_intros keeps_failed)

lemma keeps_finish: "StatusCompleted \<in> A \<Longrightarrow> keeps I (finish_job p k lv)"
  unfolding finish_job_def by (intro quiet_intros keeps_failed keeps_interrupted keeps_advance)

end

subsection \<open>The whole run\<close>

text \<open>An invariant that no part of a run can touch is kept by all of it.\<close>

locale run_invariant = cands_invariant p k I + status_invariant p k I UNIV
  for p :: "'w processor" and k :: string and I :: "'w job_run \<Rightarrow> bool" +
  assumes inner_I: "inner I"
    and metrics_I: "I s \<Longrightarrow> I (s\<lparr>jr_metrics := m\<rparr>)"
    and fresh_I: "I s \<Longrightarrow> I (s\<lparr>jr_cands := cs\<rparr>)"
    and load_I: "I s \<Longrightarrow> I (s\<lparr>jr_job := jo\<rparr>)"
begin

lemma keeps_step: "keeps I (run_step p k lv st)"
  unfolding run_step_def
  by (intro quiet_intros keeps_failed keeps_interrupted keeps_advance keeps_work keeps_prepare [OF inner_I]
      metrics_I fresh_I UNIV_I)

lemma keeps_loop: "keeps I (step_loop p k lv steps)"
  unfolding keeps_def
proof (rule step_loop_rule [where R = "\<lambda>_ _. I"])
  fix lv st
  show "triple I (run_step p k lv st) (\<lambda>r s. case r of Inl eo \<Rightarrow> I s | Inr (lv', extra) \<Rightarrow> I s) I"
    by (rule triple_post [OF keeps_step [unfolded keeps_def]]) (auto split: sum.split)
qed (rule keeps_finish [unfolded keeps_def], simp)

lemma keeps_body: "keeps I (process_body p k started)"
  unfolding process_body_def
  by (intro quiet_intros keeps_modp metrics_I load_I keeps_loop)

end

end
