(* ===== verification/Processor_Props.thy ===== *)
theory Processor_Props
  imports Processor_Frame
begin

text \<open>
  How a run ends: every job that is worked on reaches a terminal status in the store and on disk,
  whatever the collaborators do, panics included, as long as the store can write.
\<close>

subsection \<open>The job in the store\<close>

text \<open>The store lists the job, and its synced file on disk holds the job's encoding.\<close>

definition recorded :: "json_codec \<Rightarrow> job \<Rightarrow> store \<Rightarrow> bool" where
  "recorded c j st =
     (aget (st_index st) (job_id j) = Some j \<and>
      (\<exists>b. enc_job c j = Some b \<and>
           get_file (st_fs st) (job_id j) job_file = Some \<lparr>fbytes = b, synced = True\<rparr>))"

lemma recorded_append [simp]: "recorded c j (fst (fs_append c' env e st)) = recorded c j st"
  by (simp add: recorded_def fs_append_job_files)

lemma artifact_not_job [simp]: "artifact_diff \<noteq> job_file"
  by (simp add: artifact_diff_def job_file_def)

lemma recorded_artifact [simp]: "recorded c j (fst (fs_write_artifact env k artifact_diff d st)) = recorded c j st"
  by (simp add: recorded_def fs_write_artifact_files)

text \<open>A store whose job writes all succeed, with a codec that encodes every job.\<close>

definition writable :: "os_env \<Rightarrow> bool" where
  "writable env = list_all (\<lambda>call. os_fail env call = None)
     [OsMkdirAll, OsCreateTemp, OsWrite, OsSync, OsClose, OsRename]"

definition steady_store :: "'w processor \<Rightarrow> bool" where
  "steady_store p = ((\<forall>w. writable (snd (p_os p w))) \<and> (\<forall>j. enc_job (p_codec p) j \<noteq> None))"

lemma write_job_steady:
  assumes "writable env" and "enc_job c j = Some b"
  shows "\<exists>fs'. write_job c env j fs = (fs', None)"
  using assms by (simp add: write_job_def write_job_trace_def writable_def Let_def split: option.split)

lemma fs_update_steady:
  assumes "writable env" and "enc_job c j \<noteq> None" and "aget (st_index st) (job_id j) \<noteq> None"
  shows "\<exists>st'. fs_update c env j st = (st', None) \<and> recorded c j st'"
proof -
  from assms(2) obtain b where b: "enc_job c j = Some b" by blast
  from write_job_steady [OF assms(1) b] obtain fs' where w: "write_job c env j (st_fs st) = (fs', None)" by blast
  from write_job_ok [OF w] b have "get_file fs' (job_id j) job_file = Some \<lparr>fbytes = b, synced = True\<rparr>" by auto
  with w assms(3) b show ?thesis by (auto simp: fs_update_def recorded_def)
qed

subsection \<open>Between the steps and inside them\<close>

text \<open>
  \<open>held\<close>: the job variable and the record of the job agree, and the job satisfies \<open>Q\<close>.  \<open>half\<close>: the
  variable has moved on and the store still has an older record.
\<close>

definition held :: "'w processor \<Rightarrow> string \<Rightarrow> (job \<Rightarrow> bool) \<Rightarrow> 'w job_run \<Rightarrow> bool" where
  "held p k Q s =
     (bus_inv (pb_inner (jr_pb s)) \<and>
      (\<exists>j. jr_job s = Some j \<and> job_id j = k \<and> Q j \<and> recorded (p_codec p) j (pb_store (jr_pb s))))"

definition half :: "'w processor \<Rightarrow> string \<Rightarrow> (job \<Rightarrow> bool) \<Rightarrow> 'w job_run \<Rightarrow> bool" where
  "half p k Q s =
     (bus_inv (pb_inner (jr_pb s)) \<and>
      (\<exists>j. jr_job s = Some j \<and> job_id j = k \<and> Q j \<and> aget (st_index (pb_store (jr_pb s))) k \<noteq> None))"

lemma publish_bus_inv: "bus_inv (pb_inner pb) \<Longrightarrow> bus_inv (pb_inner (fst (pb_publish c env now e pb)))"
  by (cases rule: pb_publish_cases [of pb c env now e]) simp_all

lemma inner_held: "inner (held p k Q)"
  by (simp add: inner_def held_def)

lemma inner_half: "inner (half p k Q)"
  by (simp add: inner_def half_def)

interpretation held: cands_invariant p k "held p k Q"
proof
  show "calls_keep p (held p k Q)" by (rule inner_calls [OF inner_held])
next
  fix s :: "'a job_run" and env now e
  assume "held p k Q s"
  then show "held p k Q (s\<lparr>jr_pb := fst (pb_publish (p_codec p) env now e (jr_pb s))\<rparr>)"
    by (auto simp: held_def publish_bus_inv pb_publish_store)
next
  fix v ns show "keeps (held p k Q) (verify_prog v ns)"
    by (rule keeps_verify_prog [OF inner_held]) (simp add: held_def)
qed (auto simp: held_def)

interpretation half: quiet_invariant p k "half p k Q"
proof
  show "calls_keep p (half p k Q)" by (rule inner_calls [OF inner_half])
next
  fix s :: "'a job_run" and env now e
  assume "half p k Q s"
  then show "half p k Q (s\<lparr>jr_pb := fst (pb_publish (p_codec p) env now e (jr_pb s))\<rparr>)"
    by (auto simp: half_def publish_bus_inv pb_publish_index)
qed (auto simp: half_def fs_write_artifact_files)

lemma held_revision: "held p k Q s \<Longrightarrow> held p k Q (s\<lparr>jr_metrics := m\<rparr>)"
  by (simp add: held_def)

lemma held_work: "keeps (held p k Q) (step_work p k lv st)"
  by (rule held.keeps_work [OF held_revision held.keeps_prepare [OF inner_held]]) (simp_all add: held_def)

text \<open>On a bus in its invariant nothing that is published panics.\<close>

lemma publish_calm:
  assumes "bus_inv (pb_inner (jr_pb s))"
  shows "\<exists>s'. publish_prog c env now e s = (s', Return ())"
  using pb_publish_no_panic [OF assms, of c env now e]
  by (auto simp: publish_prog_def split: prod.split)

lemma emit_calm:
  assumes "keeps I (emit p k ty payload)" and "\<And>s. I s \<Longrightarrow> bus_inv (pb_inner (jr_pb s))" and "inner I"
  shows "triple I (emit p k ty payload) (\<lambda>_. I) (\<lambda>_. False)"
proof (rule tripleI)
  fix s s' x assume "I s" and "emit p k ty payload s = (s', Return x)"
  with keepsD [OF assms(1), of s] show "I s'" by simp
next
  fix s s' r assume I: "I s" and e: "emit p k ty payload s = (s', Panic r)"
  have "bus_inv (pb_inner (jr_pb s))" by (rule assms(2)) (rule I)
  with e show False
    using publish_calm [of "s\<lparr>jr_world := w\<rparr>" for w]
    by (auto simp: emit_def ret_def bnd_def readp_def split: if_splits prod.splits) (metis prod.inject outcome.distinct(1))+
qed

lemma emit_held: "triple (held p k Q) (emit p k' ty payload) (\<lambda>_. held p k Q) (\<lambda>_. False)"
  by (rule emit_calm [OF held.keeps_emit _ inner_held]) (simp add: held_def)

lemma emit_half: "triple (half p k Q) (emit p k' ty payload) (\<lambda>_. half p k Q) (\<lambda>_. False)"
  by (rule emit_calm [OF half.keeps_emit _ inner_half]) (simp add: half_def)

subsection \<open>Moves of the job\<close>

lemma job_var_held: "triple (held p k Q) job_var (\<lambda>j s. held p k Q s \<and> jr_job s = Some j) (\<lambda>_. False)"
  by (rule tripleI) (auto simp: job_var_def bnd_def getp_def ret_def panic_def held_def split: option.splits)

lemma job_var_half: "triple (half p k Q) job_var (\<lambda>_. half p k Q) (\<lambda>_. False)"
  by (rule tripleI) (auto simp: job_var_def bnd_def getp_def ret_def panic_def half_def split: option.splits)

lemma transition_held:
  "triple (held p k Q) (transition_prog p st)
     (\<lambda>eo s. case eo of
        Some e \<Rightarrow> held p k (\<lambda>j. Q j \<and> \<not> can_transition (status j) st) s
      | None \<Rightarrow> half p k (\<lambda>j. status j = st) s) (\<lambda>_. False)"
proof (rule tripleI)
  fix s s' x assume "held p k Q s" and t: "transition_prog p st s = (s', Return x)"
  then obtain j where j: "jr_job s = Some j" "job_id j = k" "Q j" "bus_inv (pb_inner (jr_pb s))"
    "recorded (p_codec p) j (pb_store (jr_pb s))" by (auto simp: held_def)
  obtain w now where "p_now p (jr_world s) = (w, now)" by (cases "p_now p (jr_world s)")
  with j t have s': "s' = s\<lparr>jr_world := w, jr_job := Some (snd (transition now st j))\<rparr>"
    and x: "x = fst (transition now st j)"
    by (auto simp: transition_prog_def job_var_def bnd_def getp_def ret_def readp_def modp_def split_beta)
  from j s' x show "case x of
        Some e \<Rightarrow> held p k (\<lambda>j. Q j \<and> \<not> can_transition (status j) st) s'
      | None \<Rightarrow> half p k (\<lambda>j. status j = st) s'"
    by (auto simp: transition_def held_def half_def recorded_def)
qed (auto simp: held_def transition_prog_def job_var_def bnd_def getp_def ret_def readp_def modp_def
    split: prod.splits)

lemma update_half:
  assumes "steady_store p"
  shows "triple (half p k Q) (update_prog p) (\<lambda>eo s. eo = None \<and> held p k Q s) (\<lambda>_. False)"
proof (rule tripleI)
  fix s s' x assume "half p k Q s" and u: "update_prog p s = (s', Return x)"
  then obtain j where j: "jr_job s = Some j" "job_id j = k" "Q j" "bus_inv (pb_inner (jr_pb s))"
    "aget (st_index (pb_store (jr_pb s))) (job_id j) \<noteq> None" by (auto simp: half_def)
  obtain w env where os: "p_os p (jr_world s) = (w, env)" by (cases "p_os p (jr_world s)")
  have "writable env" using assms os by (metis snd_conv steady_store_def)
  moreover have "enc_job (p_codec p) j \<noteq> None" using assms by (simp add: steady_store_def)
  ultimately obtain st' where
    "fs_update (p_codec p) env j (pb_store (jr_pb s)) = (st', None)" "recorded (p_codec p) j st'"
    using fs_update_steady [OF _ _ j(5)] by blast
  with j os u show "x = None \<and> held p k Q s'"
    by (auto simp: update_prog_def job_var_def bnd_def getp_def ret_def readp_def held_def)
qed (auto simp: half_def update_prog_def job_var_def bnd_def getp_def ret_def readp_def split: prod.splits)

lemma held_mono: "held p k Q s \<Longrightarrow> (\<And>j. Q j \<Longrightarrow> Q' j) \<Longrightarrow> held p k Q' s"
  by (auto simp: held_def)

lemma advance_held:
  assumes "steady_store p"
  shows "triple (held p k Q) (advance p st)
    (\<lambda>eo s. case eo of None \<Rightarrow> held p k (\<lambda>j. status j = st) s | Some e \<Rightarrow> held p k Q s) (\<lambda>_. False)"
  unfolding advance_def
proof (rule triple_bnd [OF transition_held])
  fix x
  let ?Q = "\<lambda>eo s. case eo of None \<Rightarrow> held p k (\<lambda>j. status j = st) s | Some e \<Rightarrow> held p k Q s"
  show "triple (\<lambda>s. case x of
        Some e \<Rightarrow> held p k (\<lambda>j. Q j \<and> \<not> can_transition (status j) st) s
      | None \<Rightarrow> half p k (\<lambda>j. status j = st) s)
    (case x of
       Some e \<Rightarrow> ret (Some (Errorf ''transition to %s: %w'' [FStr (status_string st), FW e]))
     | None \<Rightarrow> bnd (update_prog p) (\<lambda>eo. case eo of
         Some e \<Rightarrow> ret (Some (Errorf ''persist status %s: %w'' [FStr (status_string st), FW e]))
       | None \<Rightarrow> ret None)) ?Q (\<lambda>_. False)"
  proof (cases x)
    case None
    have "triple (\<lambda>s. eo = None \<and> held p k (\<lambda>j. status j = st) s)
        (case eo of Some e \<Rightarrow> ret (Some (Errorf ''persist status %s: %w'' [FStr (status_string st), FW e]))
         | None \<Rightarrow> ret None) ?Q (\<lambda>_. False)" for eo
      by (cases eo) (auto simp: triple_def ret_def)
    with None update_half [OF assms] show ?thesis by (auto intro: triple_bnd)
  next
    case (Some e)
    then show ?thesis by (auto simp: triple_def ret_def elim: held_mono)
  qed
qed

text \<open>How a run that returns \<open>eo\<close> leaves the job.\<close>

definition ended :: "go_err option \<Rightarrow> job \<Rightarrow> bool" where
  "ended eo j =
     (terminal (status j) \<and> (eo = None \<longrightarrow> status j \<in> {StatusCompleted, StatusCancelled}))"

text \<open>The common shape of the two ways to end early: move, announce, write.\<close>

lemma ending_held:
  assumes steady: "steady_store p" and mv: "st \<in> {StatusFailed, StatusCancelled}"
    and bad: "\<And>e. \<exists>e'. bad e = Some e'"
    and good: "\<And>j. status j = st \<Longrightarrow> ended good j" and f: "f None = ret good"
  shows "triple (held p k Q)
    (bnd (transition_prog p st) (\<lambda>eo. case eo of
       Some e \<Rightarrow> ret (bad e)
     | None \<Rightarrow> bnd job_var (\<lambda>j. bnd (emit p (job_id j) ty payload) (\<lambda>_. bnd (update_prog p) f))))
    (\<lambda>eo s. held p k (ended eo) s) (\<lambda>_. False)"
proof (rule triple_bnd [OF transition_held])
  fix x
  have u: "triple (\<lambda>s. eo = None \<and> held p k (\<lambda>j. status j = st) s) (f eo)
      (\<lambda>eo s. held p k (ended eo) s) (\<lambda>_. False)" for eo
    using good f by (cases eo) (auto simp: triple_def ret_def elim: held_mono)
  have n: "triple (half p k (\<lambda>j. status j = st))
      (bnd job_var (\<lambda>j. bnd (emit p (job_id j) ty payload) (\<lambda>_. bnd (update_prog p) f)))
      (\<lambda>eo s. held p k (ended eo) s) (\<lambda>_. False)"
    by (intro triple_bnd [OF job_var_half] triple_bnd [OF emit_half] triple_bnd [OF update_half [OF steady]] u)
  show "triple (\<lambda>s. case x of
        Some e \<Rightarrow> held p k (\<lambda>j. Q j \<and> \<not> can_transition (status j) st) s
      | None \<Rightarrow> half p k (\<lambda>j. status j = st) s)
    (case x of
       Some e \<Rightarrow> ret (bad e)
     | None \<Rightarrow> bnd job_var (\<lambda>j. bnd (emit p (job_id j) ty payload) (\<lambda>_. bnd (update_prog p) f)))
    (\<lambda>eo s. held p k (ended eo) s) (\<lambda>_. False)"
  proof (cases x)
    case None
    with n show ?thesis by simp
  next
    case (Some e)
    have "ended (bad e) j" if "\<not> can_transition (status j) st" for j
      using that mv bad [of e] nonterminal_can_fail [of "status j"] nonterminal_can_cancel [of "status j"]
      by (auto simp: ended_def)
    with Some show ?thesis by (auto simp: triple_def ret_def elim: held_mono)
  qed
qed

lemma failed_held:
  assumes "steady_store p"
  shows "triple (held p k Q) (mark_failed p cause) (\<lambda>eo s. eo \<noteq> None \<and> held p k (ended eo) s) (\<lambda>_. False)"
proof -
  have "triple (held p k Q) (mark_failed p cause) (\<lambda>eo s. held p k (ended eo) s) (\<lambda>_. False)"
    unfolding mark_failed_def
    by (rule ending_held [OF assms, where good = "Some cause" and bad = "\<lambda>e. Some (Joined [cause, e])"
        and f = "\<lambda>eo. case eo of
           Some e \<Rightarrow> ret (Some (Joined [cause, Errorf ''persist failed status: %w'' [FW e]]))
         | None \<Rightarrow> ret (Some cause)"]) (auto simp: ended_def)
  moreover have "yields (mark_failed p cause) (\<lambda>eo. eo \<noteq> None)"
    unfolding mark_failed_def by (intro yields_intros) simp_all
  ultimately show ?thesis by (auto simp: triple_def yields_def split: prod.splits outcome.splits)
qed

lemma bnd_ret [simp]: "bnd m ret = m"
  by (auto simp: bnd_def ret_def fun_eq_iff split: prod.split outcome.split)

lemma cancelled_held:
  assumes "steady_store p"
  shows "triple (held p k Q) (mark_cancelled p) (\<lambda>eo s. held p k (ended eo) s) (\<lambda>_. False)"
  unfolding mark_cancelled_def
  using ending_held [OF assms, where good = None and bad = Some and f = ret and st = StatusCancelled
      and ty = TypeJobCancelled and payload = "[]" and k = k and Q = Q]
  by (simp add: ended_def)

lemma interrupted_held:
  assumes "steady_store p"
  shows "triple (held p k Q) (end_interrupted p cause) (\<lambda>eo s. held p k (ended eo) s) (\<lambda>_. False)"
proof (cases "err_is cause CtxDeadlineExceeded")
  case True
  have "triple (\<lambda>s. held p k Q s \<and> jr_job s = Some j)
      (mark_failed p e) (\<lambda>eo s. held p k (ended eo) s) (\<lambda>_. False)" for j e
    using failed_held [OF assms, of k Q e] by (auto simp: triple_def split: prod.splits outcome.splits)
  with True show ?thesis
    unfolding end_interrupted_def by (simp add: triple_bnd [OF job_var_held])
qed (simp add: end_interrupted_def cancelled_held [OF assms])

subsection \<open>Steps, the loop, and the whole run\<close>

abbreviation any_job :: "job \<Rightarrow> bool" where
  "any_job \<equiv> \<lambda>_. True"

lemma failed_any:
  assumes "steady_store p"
  shows "triple (held p k Q) (mark_failed p cause) (\<lambda>eo s. held p k (ended eo) s) E"
  by (rule triple_calm, rule triple_post [OF failed_held [OF assms]]) simp

lemma run_step_held:
  assumes steady: "steady_store p"
  shows "triple (held p k any_job) (run_step p k lv st)
    (\<lambda>r s. case r of Inl eo \<Rightarrow> held p k (ended eo) s | Inr _ \<Rightarrow> held p k any_job s) (held p k any_job)"
proof (rule run_step_rule [where F = "held p k any_job" and P' = "held p k (\<lambda>j. status j = st)"])
  have "triple (held p k (\<lambda>j. status j = st)) (step_work p k lv st) (\<lambda>_. held p k any_job) (held p k any_job)"
    using held_work [of p k any_job lv st, unfolded keeps_def] by (rule triple_pre) (auto elim: held_mono)
  then show "triple (held p k (\<lambda>j. status j = st)) (step_work p k lv st)
      (\<lambda>r s. case r of Inl e \<Rightarrow> held p k any_job s | Inr x \<Rightarrow> held p k any_job s) (held p k any_job)"
    by (rule triple_post) (simp split: sum.split)
  show "triple (held p k any_job) (advance p st)
      (\<lambda>eo s. case eo of Some e \<Rightarrow> held p k any_job s | None \<Rightarrow> held p k (\<lambda>j. status j = st) s) (held p k any_job)"
    by (rule triple_calm [OF advance_held [OF steady]])
qed (rule held.reads_I triple_calm [OF emit_held] triple_calm [OF interrupted_held [OF steady]] failed_any [OF steady])+

lemma finish_held:
  assumes steady: "steady_store p"
  shows "triple (held p k any_job) (finish_job p k lv) (\<lambda>eo s. held p k (ended eo) s) (\<lambda>_. False)"
    (is "triple _ _ ?Q _")
  unfolding finish_job_def
proof (rule triple_ctx [OF held.reads_I(2) interrupted_held [OF steady]], rule triple_option)
  fix e show "triple (held p k any_job) (mark_failed p e) ?Q (\<lambda>_. False)" by (rule failed_any [OF steady])
next
  have ok: "triple (held p k (\<lambda>j. status j = StatusCompleted))
      (bnd (emit p k TypeStepCompleted [(''status'', JStr (status_string StatusCompleted))]) (\<lambda>_.
        bnd (emit p k TypeJobCompleted []) (\<lambda>_. ret None))) ?Q (\<lambda>_. False)"
    by (intro triple_bnd [OF emit_held] triple_ret) (auto simp: ended_def elim: held_mono)
  show "triple (held p k any_job)
      (bnd (emit p k TypeStepStarted [(''status'', JStr (status_string StatusCompleted))]) (\<lambda>_.
       bnd (advance p StatusCompleted) (\<lambda>eo. case eo of
         Some e \<Rightarrow> mark_failed p e
       | None \<Rightarrow> bnd (emit p k TypeStepCompleted [(''status'', JStr (status_string StatusCompleted))]) (\<lambda>_.
           bnd (emit p k TypeJobCompleted []) (\<lambda>_. ret None))))) ?Q (\<lambda>_. False)"
  proof (intro triple_bnd [OF emit_held] triple_bnd [OF advance_held [OF steady]])
    fix eo
    show "triple (\<lambda>s. case eo of None \<Rightarrow> held p k (\<lambda>j. status j = StatusCompleted) s | Some e \<Rightarrow> held p k any_job s)
      (case eo of
         Some e \<Rightarrow> mark_failed p e
       | None \<Rightarrow> bnd (emit p k TypeStepCompleted [(''status'', JStr (status_string StatusCompleted))]) (\<lambda>_.
           bnd (emit p k TypeJobCompleted []) (\<lambda>_. ret None))) ?Q (\<lambda>_. False)"
      using failed_any [OF steady, of k any_job] ok by (cases eo) simp_all
  qed
qed

lemma step_loop_held:
  assumes "steady_store p"
  shows "triple (held p k any_job) (step_loop p k lv steps) (\<lambda>eo s. held p k (ended eo) s) (held p k any_job)"
proof (rule step_loop_rule [where R = "\<lambda>_ _. held p k any_job"])
  fix lv st
  show "triple (held p k any_job) (run_step p k lv st)
      (\<lambda>r s. case r of Inl eo \<Rightarrow> held p k (ended eo) s | Inr (lv', extra) \<Rightarrow> held p k any_job s) (held p k any_job)"
    by (rule triple_post [OF run_step_held [OF assms]]) (auto split: sum.splits)
qed (rule triple_calm [OF finish_held [OF assms]])

text \<open>Before the run: the job is in the store, and the bus is sound.\<close>

definition loadable :: "'w processor \<Rightarrow> job \<Rightarrow> 'w job_run \<Rightarrow> bool" where
  "loadable p j s =
     (bus_inv (pb_inner (jr_pb s)) \<and> recorded (p_codec p) j (pb_store (jr_pb s)))"

lemma inner_loadable: "inner (loadable p j)"
  by (simp add: inner_def loadable_def)

lemma body_held:
  assumes steady: "steady_store p" and k: "job_id j = k"
  shows "triple (loadable p j) (process_body p k started) (\<lambda>eo s. held p k (ended eo) s) (held p k any_job)"
proof (rule tripleI)
  fix s s' :: "'a job_run" and x
  assume l: "loadable p j s"
  then have g: "fs_get k (pb_store (jr_pb s)) = Inr j" using k by (simp add: loadable_def recorded_def fs_get_def)
  let ?s = "s\<lparr>jr_job := Some j, jr_metrics := queue_waited (word_of_int (started - created_at j)) (jr_metrics s)\<rparr>"
  have h: "held p k any_job ?s" using l k by (simp add: loadable_def held_def)
  have b: "process_body p k started s =
      bnd (emit p k TypeJobStarted []) (\<lambda>_. step_loop p k first_vars first_steps) ?s"
    using g by (simp add: process_body_def bnd_def getp_def modp_def)
  have t: "triple (held p k any_job) (bnd (emit p k TypeJobStarted []) (\<lambda>_. step_loop p k first_vars first_steps))
      (\<lambda>eo s. held p k (ended eo) s) (held p k any_job)"
    by (intro triple_bnd [OF triple_calm [OF emit_held]] step_loop_held [OF steady])
  show "process_body p k started s = (s', Return x) \<Longrightarrow> held p k (ended x) s'"
    using triple_return [OF t h] b by simp
  fix r show "process_body p k started s = (s', Panic r) \<Longrightarrow> held p k any_job s'"
    using triple_panic [OF t h] b by simp
qed

lemma held_cleanup: "triple (held p k Q) (cleanup_all p) (\<lambda>_. held p k Q) (held p k any_job)"
  using held.keeps_cleanup [OF inner_held, of p k Q, unfolded keeps_def] by (rule triple_conseq) (auto elim: held_mono)

lemma triple_tracked:
  assumes "triple P m Q E" and "\<And>s x. P (s\<lparr>jr_cancels := x\<rparr>) = P s"
    and "\<And>eo s x. Q eo (s\<lparr>jr_cancels := x\<rparr>) = Q eo s" and "\<And>s x. E (s\<lparr>jr_cancels := x\<rparr>) = E s"
  shows "triple P (tracked_run p k m) Q E"
proof -
  have "triple P (deferred m (modp (\<lambda>s. s\<lparr>jr_cancels := cn_release k (jr_cancels s)\<rparr>))) Q E"
    by (rule triple_deferred [OF assms(1)]) (simp_all add: triple_modp assms)
  then show ?thesis
    unfolding tracked_run_def
    by (auto intro!: triple_bnd [where R = "\<lambda>_. P"] triple_modp simp: assms)
qed

lemma recover_held:
  assumes "steady_store p"
  shows "triple (held p k any_job) (recover_job p r) (\<lambda>eo s. held p k (ended eo) s) (\<lambda>_. False)"
proof -
  have "triple (\<lambda>s. held p k any_job s \<and> jr_job s = jo) (case jo of None \<Rightarrow> ret (Some cause) | Some j \<Rightarrow> mark_failed p cause)
      (\<lambda>eo s. held p k (ended eo) s) (\<lambda>_. False)" for jo cause
  proof (cases jo)
    case None
    then show ?thesis by (auto simp: triple_def ret_def held_def)
  next
    case (Some j)
    show ?thesis unfolding Some option.case
      by (rule triple_pre [OF failed_any [OF assms, of k any_job]]) simp
  qed
  then show ?thesis
    unfolding recover_job_def Let_def
    by (auto intro!: triple_bnd [where R = "\<lambda>jo s. held p k any_job s \<and> jr_job s = jo"] triple_getp)
qed

lemma end_metrics_held: "triple (held p k Q) (end_metrics p started) (\<lambda>_. held p k Q) E"
  unfolding end_metrics_def
  by (rule triple_bnd [OF triple_readp [OF inner_held]]) (auto intro!: triple_modp held_revision)

lemma process_held:
  assumes "steady_store p" and "job_id j = k"
  shows "triple (loadable p j) (process p k) (\<lambda>eo s. held p k (ended eo) s) (\<lambda>_. False)"
  unfolding process_def
proof (intro triple_bnd [where R = "\<lambda>_. loadable p j"])
  fix started
  have "triple (loadable p j) (deferred (process_body p k started) (cleanup_all p))
      (\<lambda>eo s. held p k (ended eo) s) (held p k any_job)"
    by (rule triple_deferred [OF body_held [OF assms]]) (rule held_cleanup)+
  then have "triple (loadable p j) (tracked_run p k (deferred (process_body p k started) (cleanup_all p)))
      (\<lambda>eo s. held p k (ended eo) s) (held p k any_job)"
    by (rule triple_tracked) (simp_all add: held_def loadable_def)
  from triple_recovered [OF this recover_held [OF assms(1)]]
  show "triple (loadable p j)
      (deferred (recovered (tracked_run p k (deferred (process_body p k started) (cleanup_all p))) (recover_job p))
        (end_metrics p started)) (\<lambda>eo s. held p k (ended eo) s) (\<lambda>_. False)"
    by (rule triple_deferred) (rule end_metrics_held, simp add: triple_def)
qed (auto intro!: triple_modp triple_readp inner_loadable simp: loadable_def)

subsection \<open>Every job ends\<close>

text \<open>
  C2: no job is left mid-flight.  Whatever the planner, the implementor, the verifier, the reviewer, the
  workspace manager and the context do, panics included, \<open>Process\<close> returns and does not panic; the job
  is then in a terminal status, in the store's index and in the synced file on disk, and an error-free
  return means that it completed or was cancelled.  The store must be able to write; the event log may
  fail at any time.
\<close>

theorem process_ends_terminal:
  assumes "steady_store p" and "bus_inv (pb_inner (jr_pb s))"
    and "recorded (p_codec p) j (pb_store (jr_pb s))" and "job_id j = k"
  shows "\<exists>s' eo j'. process p k s = (s', Return eo) \<and> jr_job s' = Some j' \<and> job_id j' = k \<and>
    recorded (p_codec p) j' (pb_store (jr_pb s')) \<and> terminal (status j') \<and>
    (eo = None \<longrightarrow> status j' \<in> {StatusCompleted, StatusCancelled})"
proof -
  have l: "loadable p j s" using assms(2,3) by (simp add: loadable_def)
  obtain s' oc where p: "process p k s = (s', oc)" by (cases "process p k s")
  from tripleD [OF process_held [OF assms(1,4)] l p] p show ?thesis
    by (cases oc) (auto simp: held_def ended_def)
qed

text \<open>A processor without collaborators, and a run of it over a store with one queued job.\<close>

definition plain_codec :: json_codec where
  "plain_codec =
     \<lparr>enc_job = (\<lambda>j. Some (status_string (status j))), dec_job = (\<lambda>_. None),
      enc_event = (\<lambda>_. Some ''{}''), dec_event = (\<lambda>_. None)\<rparr>"

definition bare_processor :: "nat processor" where
  "bare_processor =
     \<lparr>p_codec = plain_codec, p_now = (\<lambda>w. (Suc w, 5)), p_ctx_err = (\<lambda>w. (Suc w, None)),
      p_os = (\<lambda>w. (Suc w, no_faults)), p_root = (\<lambda>w. (w, steady_root)), p_unreadable = (\<lambda>w. (w, \<lambda>_. False)),
      p_order = (\<lambda>w. (w, [])), p_cancel = 0, p_canceller = True, p_bus = False, p_artifacts = False,
      p_workspaces = None, p_verifier = None, p_planner = None, p_context = None, p_implementor = None,
      p_reviewer = None, p_variants = 1, p_job_timeout = 0\<rparr>"

definition queued_job :: job where
  "queued_job =
     \<lparr>job_id = ''j'', task = ''task'', repo_path = ''/r'', status = StatusQueued, created_at = 1, updated_at = 1\<rparr>"

definition one_job_store :: store where
  "one_job_store =
     \<lparr>st_fs = \<lparr>fs_dirs = [(''j'', [(job_file, \<lparr>fbytes = ''queued'', synced = True\<rparr>)])], fs_locked = True\<rparr>,
      st_index = [(''j'', queued_job)]\<rparr>"

definition start_run :: "nat job_run" where
  "start_run =
     \<lparr>jr_world = 0, jr_tree = [], jr_pb = \<lparr>pb_inner = new_in_process_bus, pb_store = one_job_store\<rparr>,
      jr_cancels = new_canceller, jr_metrics = Some metrics_new, jr_job = None, jr_cands = []\<rparr>"

lemma bare_steady: "steady_store bare_processor"
  by (simp add: steady_store_def bare_processor_def writable_def no_faults_def plain_codec_def)

lemma start_loadable: "loadable bare_processor queued_job start_run"
  by (simp add: loadable_def start_run_def new_bus_inv recorded_def one_job_store_def queued_job_def
      bare_processor_def plain_codec_def get_file_def)

theorem process_ends_terminal_witness:
  "\<exists>s' eo j'. process bare_processor ''j'' start_run = (s', Return eo) \<and> jr_job s' = Some j' \<and>
    job_id j' = ''j'' \<and> recorded plain_codec j' (pb_store (jr_pb s')) \<and> terminal (status j') \<and>
    (eo = None \<longrightarrow> status j' \<in> {StatusCompleted, StatusCancelled})"
proof -
  have "bus_inv (pb_inner (jr_pb start_run))"
    and "recorded (p_codec bare_processor) queued_job (pb_store (jr_pb start_run))"
    using start_loadable by (simp_all add: loadable_def)
  from process_ends_terminal [OF bare_steady this] show ?thesis
    by (simp add: queued_job_def bare_processor_def)
qed

end
