(* ===== verification/Processor_Gate.thy ===== *)
theory Processor_Gate
  imports Processor_Props
begin

text \<open>
  Deterministic checks outrank every judgement: a job whose processor has a verifier and workspaces
  completes only with an attempt that passed its checks.
\<close>

subsection \<open>What holds before each step\<close>

text \<open>The job has not completed, or, at the end, completed with an attempt that passed.\<close>

definition notdone :: "'w job_run \<Rightarrow> bool" where
  "notdone s = (\<forall>j. jr_job s = Some j \<longrightarrow> status j \<noteq> StatusCompleted)"

definition fair :: "'w job_run \<Rightarrow> bool" where
  "fair s = (notdone s \<or> list_ex passed (jr_cands s))"

text \<open>A work list in which an attempt that is made or changed is verified later.\<close>

fun verified_later :: "job_status list \<Rightarrow> bool" where
  "verified_later [] = True"
| "verified_later (st # rest) =
     (st \<noteq> StatusCompleted \<and>
      (st \<in> {StatusPreparingWorkspace, StatusImplementing} \<longrightarrow> StatusVerifying \<in> set rest) \<and>
      verified_later rest)"

definition made :: "job_status list \<Rightarrow> 'w job_run \<Rightarrow> bool" where
  "made steps s = (StatusPreparingWorkspace \<in> set steps \<or> jr_cands s \<noteq> [])"

definition judged_ok :: "job_status list \<Rightarrow> loop_vars \<Rightarrow> 'w job_run \<Rightarrow> bool" where
  "judged_ok steps lv s =
     (StatusVerifying \<in> set steps \<or> lv_gate_err lv \<noteq> None \<or> list_ex passed (jr_cands s))"

definition gate_inv :: "loop_vars \<Rightarrow> job_status list \<Rightarrow> 'w job_run \<Rightarrow> bool" where
  "gate_inv lv steps s = (verified_later steps \<and> notdone s \<and> made steps s \<and> judged_ok steps lv s)"

lemma verified_later_revision: "verified_later steps \<Longrightarrow> verified_later (steps @ revision_steps)"
  by (induction steps) (auto simp: revision_steps_def)

lemma prepared_then_verified:
  "verified_later steps \<Longrightarrow> StatusPreparingWorkspace \<in> set steps \<Longrightarrow> StatusVerifying \<in> set steps"
  by (induction steps) auto

lemma transition_status_other:
  "status (snd (transition now st j)) = StatusCompleted \<Longrightarrow> st \<noteq> StatusCompleted \<Longrightarrow> status j = StatusCompleted"
  by (auto simp: transition_def split: if_splits)

lemma inner_gate:
  "inner (\<lambda>s. P (jr_cands s))" "inner notdone" "inner fair" "inner (gate_inv lv steps)"
  "inner (\<lambda>s. notdone s \<and> made steps s)"
  by (simp_all add: inner_def notdone_def fair_def gate_inv_def made_def judged_ok_def)

lemmas gate_calls = inner_gate [THEN inner_calls]

interpretation onc: status_invariant p k "\<lambda>s. P (jr_cands s)" UNIV
  by unfold_locales (simp_all add: gate_calls)

interpretation nd: cands_invariant p k notdone
  by unfold_locales (auto intro!: gate_calls keeps_verify_prog inner_gate simp: notdone_def)

interpretation nd: status_invariant p k notdone "- {StatusCompleted}"
  by unfold_locales (auto simp: notdone_def dest: transition_status_other)

interpretation fair: status_invariant p k fair "- {StatusCompleted}"
  by unfold_locales (auto intro!: gate_calls simp: fair_def notdone_def dest: transition_status_other)

interpretation gate: status_invariant p k "gate_inv lv steps" "- {StatusCompleted}"
  by unfold_locales
    (auto intro!: gate_calls simp: gate_inv_def notdone_def made_def judged_ok_def dest: transition_status_other)

interpretation made: cands_invariant p k "\<lambda>s. notdone s \<and> made steps s"
  by (unfold_locales; (rule gate_calls | (rule keeps_verify_prog [OF inner_gate(5)], force simp: notdone_def made_def)
      | auto simp: notdone_def made_def))

subsection \<open>The stages\<close>

lemma triple_keeps_yields:
  assumes "keeps P m" and "yields m Y" and "\<And>s. P s \<Longrightarrow> E s"
  shows "triple P m (\<lambda>r s. P s \<and> Y r) E"
proof (rule tripleI)
  fix s s' x assume "P s" "m s = (s', Return x)"
  with keepsD [OF assms(1), of s] yieldsD [OF assms(2), of s s' x] show "P s' \<and> Y x" by simp
next
  fix s s' r assume "P s" "m s = (s', Panic r)"
  with keepsD [OF assms(1), of s] assms(3) show "E s'" by simp
qed

definition same_gate :: "loop_vars \<Rightarrow> go_err + loop_vars \<Rightarrow> bool" where
  "same_gate lv r = (case r of Inl e \<Rightarrow> True | Inr lv' \<Rightarrow> lv_gate_err lv' = lv_gate_err lv)"

lemma plan_gate: "yields (do_plan p k lv) (same_gate lv)"
  unfolding do_plan_def by (intro yields_intros; simp add: same_gate_def split: option.split)

text \<open>What a step leaves for the rest of the work list; a step that fails leaves the job not completed.\<close>

definition step_post :: "job_status list \<Rightarrow> go_err + loop_vars \<times> job_status list \<Rightarrow> 'w job_run \<Rightarrow> bool" where
  "step_post rest r s =
     (case r of Inl e \<Rightarrow> notdone s | Inr (lv', extra) \<Rightarrow> gate_inv lv' (rest @ extra) s)"

lemma triple_map_step:
  assumes "triple P m (\<lambda>r s. case r of Inl e \<Rightarrow> notdone s | Inr lv' \<Rightarrow> gate_inv lv' rest s) E"
  shows "triple P (bnd m (\<lambda>r. ret (map_step r))) (step_post rest) E"
  by (rule triple_bnd [OF assms])
    (auto simp: triple_def ret_def map_step_def step_post_def split: sum.split)

lemma gate_notdone: "gate_inv lv steps s \<Longrightarrow> notdone s"
  by (simp add: gate_inv_def)

lemma plan_post:
  "triple (gate_inv lv (StatusPlanning # rest)) (do_plan p k lv)
     (\<lambda>r s. case r of Inl e \<Rightarrow> notdone s | Inr lv' \<Rightarrow> gate_inv lv' rest s) notdone"
  by (rule triple_post [OF triple_keeps_yields [OF gate.keeps_plan plan_gate gate_notdone]])
    (auto simp: gate_inv_def made_def judged_ok_def same_gate_def split: sum.splits)

lemma create_candidates_some:
  "0 < n \<Longrightarrow> yields (create_candidates w k repo n) (\<lambda>(created, eo). eo = None \<longrightarrow> created \<noteq> [])"
proof -
  have "cs \<noteq> [] \<or> 0 < m \<Longrightarrow> yields (create_from w k repo n i m cs) (\<lambda>(created, eo). eo = None \<longrightarrow> created \<noteq> [])"
    for i m cs
  proof (induction m arbitrary: i cs)
    case (Suc m)
    show ?case
      unfolding create_from.simps by (intro yields_after yields_case Suc yields_simple) auto
  qed (auto intro: yields_simple)
  then show "0 < n \<Longrightarrow> ?thesis" by (simp add: create_candidates_def)
qed

lemma prepare_makes:
  assumes "p_workspaces p \<noteq> None"
  shows "triple notdone (do_prepare p k lv)
    (\<lambda>r s. notdone s \<and> (case r of Inl e \<Rightarrow> True | Inr lv' \<Rightarrow> lv' = lv \<and> jr_cands s \<noteq> [])) notdone"
proof -
  from assms obtain w where w: "p_workspaces p = Some w" by blast
  have set: "triple notdone (modp (\<lambda>s. s\<lparr>jr_cands := created\<rparr>)) (\<lambda>_ s. notdone s \<and> jr_cands s = created) notdone"
    for created by (rule triple_modp) (simp add: notdone_def)
  have emits: "triple (\<lambda>s. notdone s \<and> jr_cands s = created) (for_each (emit_created p k) created)
      (\<lambda>_ s. notdone s \<and> jr_cands s = created) notdone" for created
  proof -
    have "keeps notdone (for_each (emit_created p k) created)"
      and "keeps (\<lambda>s. jr_cands s = created) (for_each (emit_created p k) created)"
      by (intro keeps_for_each nd.keeps_emit_created onc.keeps_emit_created)+
    then have "keeps (\<lambda>s. notdone s \<and> jr_cands s = created) (for_each (emit_created p k) created)"
      by (simp add: keeps_iff)
    from this [unfolded keeps_def] show ?thesis by (rule triple_conseq) auto
  qed
  have n: "0 < variant_count (p_variants p)" using variant_count_bounds [of "p_variants p"] by linarith
  have tail: "triple (\<lambda>s. notdone s \<and> (eo = None \<longrightarrow> created \<noteq> []))
      (bnd (modp (\<lambda>s. s\<lparr>jr_cands := created\<rparr>)) (\<lambda>_. case eo of
         Some e \<Rightarrow> ret (Inl (Errorf ''prepare workspaces for job %s: %w'' [FStr k, FW e]))
       | None \<Rightarrow> bnd (for_each (emit_created p k) created) (\<lambda>_. ret (Inr lv))))
      (\<lambda>r s. notdone s \<and> (case r of Inl e \<Rightarrow> True | Inr lv' \<Rightarrow> lv' = lv \<and> jr_cands s \<noteq> [])) notdone" for created eo
  proof (cases eo)
    case None
    have "triple (\<lambda>s. created \<noteq> [] \<and> notdone s)
      (bnd (modp (\<lambda>s. s\<lparr>jr_cands := created\<rparr>)) (\<lambda>_. bnd (for_each (emit_created p k) created) (\<lambda>_. ret (Inr lv))))
      (\<lambda>r s. notdone s \<and> (case r of Inl e \<Rightarrow> True | Inr lv' \<Rightarrow> lv' = lv \<and> jr_cands s \<noteq> [])) notdone"
      by (rule triple_pureI, rule triple_bnd [OF set], rule triple_bnd [OF emits]) (auto simp: triple_def ret_def)
    then show ?thesis using None by (simp add: conj_commute)
  next
    case (Some e)
    then show ?thesis
      by (auto simp: triple_def bnd_def modp_def ret_def notdone_def)
  qed
  show ?thesis
    unfolding do_prepare_def w option.case
    by (rule triple_bnd [OF keeps_job_var [unfolded keeps_def]],
        rule triple_bnd [OF triple_keeps_yields [OF nd.keeps_create [OF inner_gate(2)] create_candidates_some [OF n]]])
      (auto intro!: triple_pair tail)
qed

lemma prepare_post:
  assumes "p_workspaces p \<noteq> None"
  shows "triple (gate_inv lv (StatusPreparingWorkspace # rest)) (do_prepare p k lv)
     (\<lambda>r s. case r of Inl e \<Rightarrow> notdone s | Inr lv' \<Rightarrow> gate_inv lv' rest s) notdone"
proof (cases "verified_later (StatusPreparingWorkspace # rest)")
  case True
  show ?thesis
    by (rule triple_conseq [OF prepare_makes [OF assms]])
      (use True in \<open>auto simp: gate_inv_def made_def judged_ok_def split: sum.splits\<close>)
qed (auto simp: gate_inv_def triple_def)

lemma implement_same: "yields (do_implement p k lv) (\<lambda>r. case r of Inl e \<Rightarrow> True | Inr lv' \<Rightarrow> lv' = lv)"
  unfolding do_implement_def by (intro yields_intros) simp_all

lemma implement_post:
  "triple (gate_inv lv (StatusImplementing # rest)) (do_implement p k lv)
     (\<lambda>r s. case r of Inl e \<Rightarrow> notdone s | Inr lv' \<Rightarrow> gate_inv lv' rest s) notdone"
proof (cases "verified_later (StatusImplementing # rest)")
  case True
  show ?thesis
    by (rule triple_conseq [OF triple_keeps_yields [OF made.keeps_implement implement_same]])
      (use True in \<open>auto simp: gate_inv_def made_def judged_ok_def split: sum.splits\<close>)
qed (auto simp: gate_inv_def triple_def)

text \<open>The gate itself: without an error, the winner it names passed.\<close>

lemma triple_any: "triple P m (\<lambda>_ _. True) (\<lambda>_. True)"
  by (auto simp: triple_def split: prod.split outcome.split)

lemma verify_verdict:
  assumes "p_verifier p \<noteq> None"
  shows "triple P (verify p k) (\<lambda>(w, ge) s. ge = None \<longrightarrow> list_ex passed (jr_cands s)) (\<lambda>_. True)"
proof -
  from assms obtain v where v: "p_verifier p = Some v" by blast
  let ?Q = "\<lambda>(w :: nat option, ge :: go_err option) s. ge = None \<longrightarrow> list_ex passed (jr_cands s)"
  have pick: "triple (\<lambda>s. jr_cands s = cs) (case select_winner cs of
          None \<Rightarrow> ret (representative cs, Some e) | Some i \<Rightarrow> ret (Some i, None)) ?Q (\<lambda>_. True)" for cs e
  proof (cases "select_winner cs")
    case (Some i)
    from select_winner_passed [OF this] have "list_ex passed cs" by (auto simp: list_ex_length)
    with Some show ?thesis by (auto simp: triple_def ret_def)
  qed (auto simp: triple_def ret_def)
  have fan: "triple (\<lambda>s. jr_cands s = cs) (if b then emit p k ty payload else ret ())
      (\<lambda>_ s. jr_cands s = cs) (\<lambda>_. True)" for cs b ty payload
    by (rule triple_conseq [OF keeps_case(1) [OF onc.keeps_emit keeps_simple(1), unfolded keeps_def]]) auto
  have each: "triple (\<lambda>s. jr_cands s = cs) (for_each (emit_report p k) cs) (\<lambda>_ s. jr_cands s = cs) (\<lambda>_. True)" for cs
    by (rule triple_conseq [OF keeps_for_each [OF onc.keeps_emit_report, unfolded keeps_def]]) auto
  show ?thesis
    unfolding verify_def v option.case Let_def
    by (rule triple_bnd [OF triple_any], rule triple_bnd [OF triple_any],
        rule triple_bnd [where R = "\<lambda>cs s. jr_cands s = cs"], rule triple_getp, rule refl,
        rule triple_bnd [OF each], rule triple_bnd [OF fan], rule pick)
qed

lemma triple_conj:
  "triple P m Q E \<Longrightarrow> triple P' m Q' E' \<Longrightarrow> triple (\<lambda>s. P s \<and> P' s) m (\<lambda>x s. Q x s \<and> Q' x s) (\<lambda>s. E s \<and> E' s)"
  by (rule tripleI) (auto dest: triple_return triple_panic)

lemma do_verify_post:
  assumes "p_verifier p \<noteq> None"
  shows "triple (gate_inv lv (StatusVerifying # rest)) (do_verify p k lv)
     (\<lambda>r s. case r of Inl e \<Rightarrow> notdone s | Inr lv' \<Rightarrow> gate_inv lv' rest s) notdone"
proof (cases "verified_later rest")
  case True
  let ?Q = "\<lambda>r s. case r of Inl e \<Rightarrow> notdone s | Inr lv' \<Rightarrow> gate_inv lv' rest s"
  let ?I = "\<lambda>s. notdone s \<and> made rest s"
  have cap: "triple (\<lambda>s. ?I s \<and> (ge = None \<longrightarrow> list_ex passed (jr_cands s)))
      (bnd (capture_diff p k w) (\<lambda>_. ret (Inr (lv\<lparr>lv_winner := w, lv_gate_err := ge\<rparr>)))) ?Q notdone" for w ge
  proof -
    have "keeps (\<lambda>s. ?I s \<and> (ge = None \<longrightarrow> list_ex passed (jr_cands s))) (capture_diff p k w)"
      using made.keeps_capture [of rest p k w] onc.keeps_capture [of "\<lambda>cs. ge = None \<longrightarrow> list_ex passed cs" p k w]
      by (simp add: keeps_iff)
    from this [unfolded keeps_def]
    have "triple (\<lambda>s. ?I s \<and> (ge = None \<longrightarrow> list_ex passed (jr_cands s))) (capture_diff p k w)
        (\<lambda>_ s. ?I s \<and> (ge = None \<longrightarrow> list_ex passed (jr_cands s))) notdone"
      by (rule triple_conseq) auto
    then show ?thesis
      by (rule triple_bnd) (rule triple_ret, auto simp: gate_inv_def judged_ok_def made_def True)
  qed
  have ver: "triple ?I (verify p k) (\<lambda>x s. ?I s \<and> (case x of (w, ge) \<Rightarrow> ge = None \<longrightarrow> list_ex passed (jr_cands s))) notdone"
    by (rule triple_conseq [OF triple_conj [OF made.keeps_verify [unfolded keeps_def] verify_verdict [OF assms, where P = "\<lambda>_. True"]]])
      auto
  have go: "triple (\<lambda>s. gate_inv lv (StatusVerifying # rest) s \<and> jr_cands s = cs)
      (if cs = [] then ret (Inr lv)
       else bnd (verify p k) (\<lambda>(winner, ge). bnd (capture_diff p k winner) (\<lambda>_.
         ret (Inr (lv\<lparr>lv_winner := winner, lv_gate_err := ge\<rparr>))))) ?Q notdone" for cs
  proof (cases "cs = []")
    case cs: True
    have "gate_inv lv (StatusVerifying # rest) s \<and> jr_cands s = [] \<Longrightarrow> gate_inv lv rest s" for s :: "'a job_run"
      using prepared_then_verified [OF True] by (auto simp: gate_inv_def made_def judged_ok_def)
    with cs show ?thesis by (auto simp: triple_def ret_def)
  next
    case False
    have "triple ?I (bnd (verify p k) (\<lambda>(winner, ge). bnd (capture_diff p k winner) (\<lambda>_.
         ret (Inr (lv\<lparr>lv_winner := winner, lv_gate_err := ge\<rparr>))))) ?Q notdone"
    proof (rule triple_bnd [OF ver])
      fix x :: "nat option \<times> go_err option"
      show "triple (\<lambda>s. ?I s \<and> (case x of (w, ge) \<Rightarrow> ge = None \<longrightarrow> list_ex passed (jr_cands s)))
          (case x of (winner, ge) \<Rightarrow> bnd (capture_diff p k winner) (\<lambda>_.
             ret (Inr (lv\<lparr>lv_winner := winner, lv_gate_err := ge\<rparr>)))) ?Q notdone"
        using cap by (cases x) simp
    qed
    from triple_pre [OF this, of "\<lambda>s. gate_inv lv (StatusVerifying # rest) s \<and> jr_cands s = cs"] False
    show ?thesis by (auto simp: gate_inv_def made_def)
  qed
  show ?thesis
    unfolding do_verify_def
    by (rule triple_bnd [where R = "\<lambda>cs s. gate_inv lv (StatusVerifying # rest) s \<and> jr_cands s = cs"],
        rule triple_getp, simp, rule go)
qed (auto simp: gate_inv_def triple_def)

text \<open>A review leaves the attempts and the verdict, or sends the job back to be verified again.\<close>

definition review_ok :: "loop_vars \<Rightarrow> go_err + loop_vars \<times> job_status list \<Rightarrow> bool" where
  "review_ok lv r =
     (case r of Inl e \<Rightarrow> True | Inr (lv', extra) \<Rightarrow> extra = [] \<and> lv' = lv \<or> extra = revision_steps)"

lemma review_yields: "yields (do_review p k lv) (review_ok lv)"
  unfolding do_review_def by (intro yields_intros; simp add: review_ok_def)

lemma gate_metrics: "gate_inv lv steps s \<Longrightarrow> gate_inv lv steps (s\<lparr>jr_metrics := m\<rparr>)"
  by (simp add: gate_inv_def notdone_def made_def judged_ok_def)

lemma review_keeps: "keeps (gate_inv lv steps) (do_review p k lv)"
  unfolding do_review_def
  by (intro gate.quiet_intros gate.keeps_review keeps_modp gate_metrics)

lemma review_post:
  "triple (gate_inv lv (StatusReviewing # rest)) (do_review p k lv) (step_post rest) notdone"
proof (rule triple_post [OF triple_keeps_yields [OF review_keeps review_yields gate_notdone]])
  fix r and s :: "'a job_run"
  assume "gate_inv lv (StatusReviewing # rest) s \<and> review_ok lv r"
  then show "step_post rest r s"
    using verified_later_revision [of rest]
    by (auto simp: step_post_def review_ok_def gate_inv_def made_def judged_ok_def revision_steps_def
        split: sum.splits)
qed

lemma work_post:
  assumes "p_workspaces p \<noteq> None" and "p_verifier p \<noteq> None"
  shows "triple (gate_inv lv (st # rest)) (step_work p k lv st) (step_post rest) notdone"
proof -
  have skip: "triple (gate_inv lv (st # rest)) (ret (Inr (lv, []))) (step_post rest) notdone"
    if "st \<notin> {StatusPreparingWorkspace, StatusVerifying}"
    using that by (auto simp: triple_def ret_def step_post_def gate_inv_def made_def judged_ok_def)
  have "step_work p k lv st = ret (Inr (lv, []))"
    if "st \<notin> {StatusPlanning, StatusPreparingWorkspace, StatusImplementing, StatusVerifying, StatusReviewing}"
    using that by (cases st) (simp_all add: step_work_def)
  with skip triple_map_step [OF plan_post, of lv rest p k] triple_map_step [OF prepare_post [OF assms(1)], of lv rest k]
    triple_map_step [OF implement_post, of lv rest p k] triple_map_step [OF do_verify_post [OF assms(2)], of lv rest k]
    review_post [of lv rest p k]
  show ?thesis
    by (cases "st \<in> {StatusPlanning, StatusPreparingWorkspace, StatusImplementing, StatusVerifying, StatusReviewing}")
      (auto simp: step_work_def)
qed

subsection \<open>The run\<close>

lemma notdone_fair: "notdone s \<Longrightarrow> fair s"
  by (simp add: fair_def)

lemma keeps_weaken:
  "keeps P m \<Longrightarrow> (\<And>s. Q s \<Longrightarrow> P s) \<Longrightarrow> (\<And>s. P s \<Longrightarrow> R s) \<Longrightarrow> (\<And>s. P s \<Longrightarrow> E s) \<Longrightarrow> triple Q m (\<lambda>_. R) E"
  unfolding keeps_def by (erule triple_conseq) auto

lemma gate_fair: "gate_inv lv steps s \<Longrightarrow> fair s"
  by (simp add: gate_notdone notdone_fair)

text \<open>Whatever leaves a job uncompleted is fair, whether it returns or panics.\<close>

lemma ends_fair:
  assumes "keeps notdone m" and "\<And>s. P s \<Longrightarrow> notdone s"
  shows "triple P m (\<lambda>_. fair) fair"
  by (rule keeps_weaken [OF assms]) (simp_all add: notdone_fair)

lemma gate_emit: "triple (gate_inv lv steps) (emit p k ty pl) (\<lambda>_. gate_inv lv steps) fair"
  by (rule keeps_weaken [OF gate.keeps_emit]) (simp_all, rule gate_fair)

lemma run_step_gate:
  assumes "p_workspaces p \<noteq> None" and "p_verifier p \<noteq> None"
  shows "triple (gate_inv lv (st # rest)) (run_step p k lv st)
    (\<lambda>r s. case r of Inl eo \<Rightarrow> fair s | Inr x \<Rightarrow> (case x of (lv', extra) \<Rightarrow> gate_inv lv' (rest @ extra)) s) fair"
proof (cases "verified_later (st # rest)")
  case True
  let ?R = "\<lambda>(lv', extra). gate_inv lv' (rest @ extra)"
  show ?thesis
  proof (rule run_step_rule [where F = notdone and P' = "gate_inv lv (st # rest)" and R = ?R])
    have "triple (gate_inv lv (st # rest)) (step_work p k lv st) (step_post rest) fair"
      by (rule triple_conseq [OF work_post [OF assms]]) (simp_all add: notdone_fair)
    then show "triple (gate_inv lv (st # rest)) (step_work p k lv st)
        (\<lambda>r s. case r of Inl e \<Rightarrow> notdone s | Inr x \<Rightarrow> ?R x s) fair"
      by (rule triple_post) (auto simp: step_post_def split: sum.splits)
    have "st \<noteq> StatusCompleted" using True by simp
    then have "triple (gate_inv lv (st # rest)) (advance p st) (\<lambda>_. gate_inv lv (st # rest)) fair"
      by (intro keeps_weaken [OF gate.keeps_advance]) (simp_all, rule gate_fair)
    then show "triple (gate_inv lv (st # rest)) (advance p st)
        (\<lambda>eo s. case eo of Some e \<Rightarrow> notdone s | None \<Rightarrow> gate_inv lv (st # rest) s) fair"
      by (rule triple_post) (simp add: gate_notdone split: option.split)
  next
    fix x :: "loop_vars \<times> job_status list" and e ty pl
    obtain lv' extra where x: "x = (lv', extra)" by (cases x)
    show "keeps (?R x) (readp (p_ctx_err p))" unfolding x prod.case by (rule gate.reads_I)
    show "triple (?R x) (emit p k ty pl) (\<lambda>_. ?R x) fair" unfolding x prod.case by (rule gate_emit)
    show "triple (?R x) (end_interrupted p e) (\<lambda>_. fair) fair"
      unfolding x prod.case by (rule ends_fair [OF nd.keeps_interrupted gate_notdone])
  next
    fix e show "triple notdone (mark_failed p e) (\<lambda>_. fair) fair"
      by (rule ends_fair [OF nd.keeps_failed])
    show "triple (gate_inv lv (st # rest)) (end_interrupted p e) (\<lambda>_. fair) fair"
      by (rule ends_fair [OF nd.keeps_interrupted gate_notdone])
  qed (rule gate.reads_I gate_emit)+
qed (auto simp: gate_inv_def triple_def)

lemma finish_gate: "triple (gate_inv lv []) (finish_job p k lv) (\<lambda>_. fair) fair"
proof (cases "lv_gate_err lv")
  case (Some e)
  have n: "triple (gate_inv lv []) m (\<lambda>_. fair) fair" if "keeps notdone m" for m :: "('a, go_err option) prog"
    by (rule keeps_weaken [OF that]) (simp_all add: gate_notdone notdone_fair)
  show ?thesis
    unfolding finish_job_def Some option.case
    by (rule triple_ctx [OF gate.reads_I(2) n [OF nd.keeps_interrupted] n [OF nd.keeps_failed]])
next
  case None
  show ?thesis
    by (rule keeps_weaken [OF onc.keeps_finish [where P = "list_ex passed"]])
      (use None in \<open>auto simp: gate_inv_def judged_ok_def fair_def\<close>)
qed

lemma first_gate: "notdone s \<Longrightarrow> gate_inv first_vars first_steps s"
  by (simp add: gate_inv_def made_def judged_ok_def first_steps_def)

lemma process_fair:
  assumes "p_workspaces p \<noteq> None" and "p_verifier p \<noteq> None"
  shows "triple (\<lambda>s. \<forall>j. fs_get k (pb_store (jr_pb s)) = Inr j \<longrightarrow> status j \<noteq> StatusCompleted)
    (process p k) (\<lambda>_. fair) fair"
    (is "triple ?P _ _ _")
proof -
  let ?P' = "\<lambda>s. ?P s \<and> jr_job s = None"
  have inn: "inner ?P'" by (simp add: inner_def)
  have loop: "triple notdone (bnd (emit p k TypeJobStarted []) (\<lambda>_. step_loop p k first_vars first_steps))
      (\<lambda>_. fair) fair"
  proof (rule triple_bnd [OF keeps_weaken [OF nd.keeps_emit, where Q = notdone and R = notdone]])
    have "triple (gate_inv first_vars first_steps) (step_loop p k first_vars first_steps) (\<lambda>_. fair) fair"
      by (rule step_loop_rule [where R = gate_inv and Q = "\<lambda>_. fair", OF _ finish_gate],
          rule triple_post [OF run_step_gate [OF assms]]) (auto split: sum.splits)
    then show "triple notdone (step_loop p k first_vars first_steps) (\<lambda>_. fair) fair"
      by (rule triple_pre) (rule first_gate)
  qed (simp_all add: notdone_fair)
  have body: "triple ?P' (process_body p k started) (\<lambda>_. fair) fair" for started
  proof (rule tripleI)
    fix s s' :: "'a job_run" and x
    let ?s = "\<lambda>j. s\<lparr>jr_job := Some j, jr_metrics := queue_waited (word_of_int (started - created_at j)) (jr_metrics s)\<rparr>"
    assume P: "?P' s"
    have b: "process_body p k started s = (case fs_get k (pb_store (jr_pb s)) of
        Inl e \<Rightarrow> (s, Return (Some (Errorf ''load job %s: %w'' [FStr k, FW e])))
      | Inr j \<Rightarrow> bnd (emit p k TypeJobStarted []) (\<lambda>_. step_loop p k first_vars first_steps) (?s j))"
      by (simp add: process_body_def bnd_def getp_def modp_def ret_def split: sum.split)
    have nd: "notdone (?s j)" if "fs_get k (pb_store (jr_pb s)) = Inr j" for j
      using P that by (simp add: notdone_def)
    show "process_body p k started s = (s', Return x) \<Longrightarrow> fair s'"
      using triple_return [OF loop nd] b P by (auto simp: fair_def notdone_def split: sum.splits)
    fix r show "process_body p k started s = (s', Panic r) \<Longrightarrow> fair s'"
      using triple_panic [OF loop nd] b by (auto split: sum.splits)
  qed
  have fairs: "triple fair m (\<lambda>_. fair) fair" if "keeps fair m" for m :: "('a, 'b) prog"
    using that by (simp add: keeps_def)
  have ends: "keeps fair (end_metrics p started)" for started
    unfolding end_metrics_def
    by (intro fair.quiet_intros keeps_modp) (simp add: fair_def notdone_def)
  show ?thesis
    unfolding process_def
  proof (intro triple_bnd [where R = "\<lambda>_. ?P'"])
    fix started
    have "triple ?P' (deferred (process_body p k started) (cleanup_all p)) (\<lambda>_. fair) fair"
      by (rule triple_deferred [OF body]) (rule fair.keeps_cleanup [OF inner_gate(3), unfolded keeps_def])+
    then have "triple ?P' (tracked_run p k (deferred (process_body p k started) (cleanup_all p))) (\<lambda>_. fair) fair"
      by (rule triple_tracked) (simp_all add: fair_def notdone_def)
    from triple_recovered [OF this fair.keeps_recover [unfolded keeps_def]]
    show "triple ?P'
        (deferred (recovered (tracked_run p k (deferred (process_body p k started) (cleanup_all p))) (recover_job p))
          (end_metrics p started)) (\<lambda>_. fair) fair"
      by (rule triple_deferred) (rule ends [unfolded keeps_def])+
  qed (auto intro!: triple_modp triple_readp inn)
qed


definition gated_workspaces :: "nat workspaces" where
  "gated_workspaces =
     \<lparr>ow_create = (\<lambda>k repo (w, t). ((w, t), Return (Inr (reconstruct ''/wt'' k repo)))),
      ow_cleanup = (\<lambda>ws (w, t). ((w, t), Return None)),
      ow_diff = (\<lambda>b ws (w, t). ((w, t), Return (Inr ''x'')))\<rparr>"

definition gated_processor :: "nat processor" where
  "gated_processor = bare_processor
     \<lparr>p_workspaces := Some gated_workspaces,
      p_verifier := Some (\<lambda>path s. (s, Return (\<lparr>rp_results =
        [\<lparr>vr_check = ''go test'', vr_passed = True, vr_output = [], vr_duration = 1, vr_note = []\<rparr>]\<rparr>, None)))\<rparr>"

lemma gated_completes:
  "map_option status (jr_job (fst (process gated_processor ''j'' start_run))) = Some StatusCompleted"
  by code_simp


end
