(* ===== verification/Processor_Ends.thy ===== *)
theory Processor_Ends
  imports Processor_Gate
begin

text \<open>
  What a run leaves behind besides its job: the metrics, the canceller's table and the worktrees, and
  the two ways in which the code does not keep its word.
\<close>

subsection \<open>The counters of a run\<close>

text \<open>
  \<open>running r0 n s\<close>: the registry is the one from before the run with the gauge raised by one and \<open>n\<close>
  revisions more; nothing else that a run counts has moved yet.
\<close>

definition running :: "registry \<Rightarrow> nat \<Rightarrow> 'w job_run \<Rightarrow> bool" where
  "running r0 n s =
     (\<exists>r. jr_metrics s = Some r \<and> active_jobs r = active_jobs r0 + 1 \<and>
       jobs_completed r = jobs_completed r0 \<and> jobs_failed r = jobs_failed r0 \<and>
       jobs_cancelled r = jobs_cancelled r0 \<and> revisions_requested r = revisions_requested r0 + of_nat n)"

definition some_rounds :: "registry \<Rightarrow> 'w job_run \<Rightarrow> bool" where
  "some_rounds r0 s = (\<exists>n \<le> max_revisions. running r0 n s)"

text \<open>The revisions that were counted are those the loop has made.\<close>

definition counted :: "registry \<Rightarrow> loop_vars \<Rightarrow> 'w job_run \<Rightarrow> bool" where
  "counted r0 lv s = (running r0 (lv_revisions lv) s \<and> lv_revisions lv \<le> max_revisions)"

lemma inner_counts: "inner (some_rounds r0)" "inner (counted r0 lv)"
  by (auto simp: inner_def running_def some_rounds_def counted_def)

lemmas count_calls = inner_counts [THEN inner_calls]

interpretation rounds: status_invariant p k "some_rounds r0" UNIV
  by unfold_locales (auto intro!: count_calls simp: some_rounds_def running_def)

interpretation counted: cands_invariant p k "counted r0 lv"
  by unfold_locales (auto intro!: count_calls keeps_verify_prog inner_counts simp: counted_def running_def)

interpretation counted: status_invariant p k "counted r0 lv" UNIV
  by unfold_locales (simp_all add: counted_def running_def)

lemma running_revision:
  "running r0 n s \<Longrightarrow> running r0 (Suc n) (s\<lparr>jr_metrics := revision_requested (jr_metrics s)\<rparr>)"
  by (auto simp: running_def revision_requested_def)

lemma counted_some: "counted r0 lv s \<Longrightarrow> some_rounds r0 s"
  by (auto simp: counted_def some_rounds_def)

definition rounds_post :: "registry \<Rightarrow> 'e + loop_vars \<times> job_status list \<Rightarrow> 'w job_run \<Rightarrow> bool" where
  "rounds_post r0 r s = (case r of Inl e \<Rightarrow> some_rounds r0 s | Inr (lv', extra) \<Rightarrow> counted r0 lv' s)"

lemma counted_map_step:
  assumes "keeps (counted r0 lv) m" and "yields m (same_round lv)"
  shows "triple (counted r0 lv) (bnd m (\<lambda>r. ret (map_step r))) (rounds_post r0) (some_rounds r0)"
  by (rule triple_bnd [OF triple_keeps_yields [OF assms counted_some]])
    (auto simp: triple_def ret_def map_step_def rounds_post_def same_round_def counted_def some_rounds_def
      split: sum.splits)

lemma counted_review: "triple (counted r0 lv) (do_review p k lv) (rounds_post r0) (some_rounds r0)"
proof -
  let ?can = "p_implementor p \<noteq> None \<and> lv_revisions lv < max_revisions"
  have r: "yields (review_prog p k lv ?can) (\<lambda>ro. (\<exists>n. ro = OutcomeRevise n) \<longrightarrow> ?can)"
    using review_prog_cannot_revise [of ?can p k lv] yields_any [of "review_prog p k lv ?can"]
    by (cases ?can) (auto simp: yields_def)
  have revise: "triple (\<lambda>s. counted r0 lv s \<and> ?can)
      (bnd (modp (\<lambda>s. s\<lparr>jr_metrics := revision_requested (jr_metrics s)\<rparr>)) (\<lambda>_.
       bnd (emit p k ty pl) (\<lambda>_. ret (Inr (lv\<lparr>lv_revisions := Suc (lv_revisions lv), lv_feedback := fb,
          lv_gate_err := None\<rparr>, revision_steps))))) (rounds_post r0) (some_rounds r0)" for ty pl fb
  proof -
    let ?lv = "lv\<lparr>lv_revisions := Suc (lv_revisions lv), lv_feedback := fb, lv_gate_err := None\<rparr>"
    have m: "triple (\<lambda>s. counted r0 lv s \<and> ?can)
        (modp (\<lambda>s. s\<lparr>jr_metrics := revision_requested (jr_metrics s)\<rparr>)) (\<lambda>_. counted r0 ?lv) (some_rounds r0)"
      by (rule triple_modp) (auto simp: counted_def running_revision)
    have e: "triple (counted r0 ?lv) (emit p k ty pl) (\<lambda>_. counted r0 ?lv) (some_rounds r0)"
      by (rule keeps_weaken [OF counted.keeps_emit]) (simp_all, rule counted_some)
    show ?thesis
      by (rule triple_bnd [OF m], rule triple_bnd [OF e], rule triple_ret) (simp add: rounds_post_def)
  qed
  have go: "triple (\<lambda>s. counted r0 lv s \<and> ((\<exists>n. ro = OutcomeRevise n) \<longrightarrow> ?can)) (case ro of
        OutcomeFail e \<Rightarrow> ret (Inl e)
      | OutcomeApprove \<Rightarrow> ret (Inr (lv, []))
      | OutcomeRevise notes \<Rightarrow>
          bnd (modp (\<lambda>s. s\<lparr>jr_metrics := revision_requested (jr_metrics s)\<rparr>)) (\<lambda>_.
          bnd (emit p k TypeRevisionRequested
            [(''attempt'', JInt (int (Suc (lv_revisions lv)))), (''notes'', JStr notes)]) (\<lambda>_.
          ret (Inr (lv\<lparr>lv_revisions := Suc (lv_revisions lv), lv_feedback := notes, lv_gate_err := None\<rparr>,
            revision_steps))))) (rounds_post r0) (some_rounds r0)" for ro
    using revise
    by (cases ro) (auto intro!: triple_ret simp: rounds_post_def counted_some)
  show ?thesis
    unfolding do_review_def
    by (rule triple_bnd [where R = "\<lambda>_. counted r0 lv"], rule triple_getp, assumption, rule triple_if,
        rule triple_ret, simp add: rounds_post_def,
        rule triple_bnd [OF triple_keeps_yields [OF counted.keeps_review r counted_some] go])
qed

lemma counted_work: "triple (counted r0 lv) (step_work p k lv st) (rounds_post r0) (some_rounds r0)"
proof -
  have prep: "keeps (counted r0 lv) (do_prepare p k lv)"
    by (rule counted.keeps_prepare [OF inner_counts(2)]) (simp add: counted_def running_def)
  have skip: "triple (counted r0 lv) (ret (Inr (lv, []))) (rounds_post r0) (some_rounds r0)"
    by (rule triple_ret) (simp add: rounds_post_def)
  show ?thesis
    unfolding step_work_def
    using counted_map_step [OF counted.keeps_plan yields_stages(1)] counted_map_step [OF prep yields_stages(2)]
      counted_map_step [OF counted.keeps_implement yields_stages(3)]
      counted_map_step [OF counted.keeps_do_verify yields_stages(4)] counted_review skip
    by (cases st) simp_all
qed

lemma counted_emit: "triple (counted r0 lv) (emit p k ty pl) (\<lambda>_. counted r0 lv) (some_rounds r0)"
  by (rule keeps_weaken [OF counted.keeps_emit]) (simp_all, rule counted_some)

lemma counted_interrupted: "triple (counted r0 lv) (end_interrupted p e) (\<lambda>_. some_rounds r0) (some_rounds r0)"
  by (rule keeps_weaken [OF rounds.keeps_interrupted]) (simp_all, rule counted_some)

lemma counted_step:
  "triple (counted r0 lv) (run_step p k lv st)
     (\<lambda>r s. case r of Inl eo \<Rightarrow> some_rounds r0 s | Inr x \<Rightarrow> counted r0 (fst x) s) (some_rounds r0)"
proof (rule run_step_rule [where F = "some_rounds r0" and P' = "counted r0 lv" and R = "\<lambda>x. counted r0 (fst x)"])
  show "triple (counted r0 lv) (step_work p k lv st)
      (\<lambda>r s. case r of Inl e \<Rightarrow> some_rounds r0 s | Inr x \<Rightarrow> counted r0 (fst x) s) (some_rounds r0)"
    by (rule triple_post [OF counted_work]) (auto simp: rounds_post_def split: sum.splits)
  have "triple (counted r0 lv) (advance p st) (\<lambda>_. counted r0 lv) (some_rounds r0)"
    by (rule keeps_weaken [OF counted.keeps_advance]) (simp_all, rule counted_some)
  then show "triple (counted r0 lv) (advance p st)
      (\<lambda>eo s. case eo of Some e \<Rightarrow> some_rounds r0 s | None \<Rightarrow> counted r0 lv s) (some_rounds r0)"
    by (rule triple_post) (simp add: counted_some split: option.split)
  fix e show "triple (some_rounds r0) (mark_failed p e) (\<lambda>_. some_rounds r0) (some_rounds r0)"
    by (rule rounds.keeps_failed [unfolded keeps_def])
qed (rule counted.reads_I counted_emit counted_interrupted)+

lemma counted_finish: "triple (counted r0 lv) (finish_job p k lv) (\<lambda>_. some_rounds r0) (some_rounds r0)"
  by (rule keeps_weaken [OF rounds.keeps_finish]) (simp_all, rule counted_some)

lemma counted_loop:
  "triple (counted r0 lv) (step_loop p k lv steps) (\<lambda>_. some_rounds r0) (some_rounds r0)"
  by (rule step_loop_rule [where R = "\<lambda>lv _. counted r0 lv" and Q = "\<lambda>_. some_rounds r0", OF _ counted_finish],
      rule triple_post [OF counted_step]) (auto split: sum.splits)

text \<open>The gauge is raised before the run and the deferred function lowers it, with the outcome.\<close>

lemma loop_rounds:
  "triple (running r0 0) (bnd (emit p k TypeJobStarted []) (\<lambda>_. step_loop p k first_vars first_steps))
     (\<lambda>_. some_rounds r0) (some_rounds r0)"
proof -
  have c: "running r0 0 = counted r0 first_vars" by (simp add: counted_def first_vars_def fun_eq_iff)
  show ?thesis unfolding c by (rule triple_bnd [OF counted_emit counted_loop])
qed

lemma body_rounds: "triple (running r0 0) (process_body p k started) (\<lambda>_. some_rounds r0) (some_rounds r0)"
proof -
  have m: "triple (running r0 0) (modp f) (\<lambda>_. running r0 0) (some_rounds r0)"
    if "\<And>s. running r0 0 s \<Longrightarrow> running r0 0 (f s)" for f :: "'a job_run \<Rightarrow> 'a job_run"
    by (rule triple_modp) (rule that)
  have r: "running r0 0 s \<Longrightarrow> some_rounds r0 s" for s :: "'a job_run"
    by (auto simp: some_rounds_def)
  show ?thesis
    unfolding process_body_def
    by (rule triple_bnd [where R = "\<lambda>_. running r0 0"], rule triple_getp, assumption, rule triple_sum,
        rule triple_ret, erule r, rule triple_bnd [OF m], simp add: running_def,
        rule triple_bnd [OF m], force simp: running_def queue_waited_def, rule loop_rounds)
qed

text \<open>The status the metrics see: a job that never loaded counts as failed.\<close>

definition last_status :: "'w job_run \<Rightarrow> job_status" where
  "last_status s = (case jr_job s of None \<Rightarrow> StatusFailed | Some j \<Rightarrow> status j)"

definition settled :: "registry \<Rightarrow> 'w job_run \<Rightarrow> bool" where
  "settled r0 s =
     (\<exists>r n. jr_metrics s = Some r \<and> active_jobs r = active_jobs r0 \<and>
        jobs_completed r = jobs_completed r0 + (if last_status s = StatusCompleted then 1 else 0) \<and>
        jobs_cancelled r = jobs_cancelled r0 + (if last_status s = StatusCancelled then 1 else 0) \<and>
        jobs_failed r = jobs_failed r0 + (if last_status s \<in> {StatusCompleted, StatusCancelled} then 0 else 1) \<and>
        n \<le> max_revisions \<and> revisions_requested r = revisions_requested r0 + of_nat n)"

lemma end_metrics_settles: "triple (some_rounds r0) (end_metrics p started) (\<lambda>_. settled r0) E"
proof -
  have st: "(case jo of None \<Rightarrow> ''failed'' | Some j \<Rightarrow> status_string (status j)) =
      status_string (case jo of None \<Rightarrow> StatusFailed | Some j \<Rightarrow> status j)" for jo :: "job option"
    by (cases jo) simp_all
  have s: "status_string x = ''completed'' \<longleftrightarrow> x = StatusCompleted"
    "status_string x = ''cancelled'' \<longleftrightarrow> x = StatusCancelled" for x by (cases x; simp)+
  have "triple (some_rounds r0) (modp (\<lambda>s. s\<lparr>jr_metrics := job_ended
      (case jr_job s of None \<Rightarrow> ''failed'' | Some j \<Rightarrow> status_string (status j)) v (jr_metrics s)\<rparr>))
      (\<lambda>_. settled r0) E" for v
  proof (rule triple_modp)
    fix s :: "'a job_run"
    assume "some_rounds r0 s"
    then obtain r n where r: "jr_metrics s = Some r" "active_jobs r = active_jobs r0 + 1"
      "jobs_completed r = jobs_completed r0" "jobs_failed r = jobs_failed r0"
      "jobs_cancelled r = jobs_cancelled r0" "revisions_requested r = revisions_requested r0 + of_nat n"
      "n \<le> max_revisions" by (auto simp: some_rounds_def running_def)
    then show "settled r0 (s\<lparr>jr_metrics := job_ended
        (case jr_job s of None \<Rightarrow> ''failed'' | Some j \<Rightarrow> status_string (status j)) v (jr_metrics s)\<rparr>)"
      unfolding st settled_def by (auto simp: job_ended_def Let_def last_status_def s intro!: exI [of _ n])
  qed
  then show ?thesis
    unfolding end_metrics_def by (rule triple_bnd [OF triple_readp [OF inner_counts(1)]])
qed

lemma triple_deferred_last:
  "triple P m (\<lambda>_. R) R \<Longrightarrow> triple R d (\<lambda>_. S) S \<Longrightarrow> triple P (deferred m d) (\<lambda>_. S) S"
  by (fastforce simp: triple_def deferred_def split: prod.splits outcome.splits)

lemma process_settles:
  "triple (\<lambda>s. jr_metrics s = Some r0) (process p k) (\<lambda>_. settled r0) (settled r0)"
  unfolding process_def
proof (rule triple_bnd [where R = "\<lambda>_ s. jr_metrics s = Some r0"], simp add: triple_modp,
    rule triple_bnd [where R = "\<lambda>_ s. jr_metrics s = Some r0"], rule triple_readp, simp add: inner_def,
    rule triple_bnd [where R = "\<lambda>_. running r0 0"], rule triple_modp, simp add: running_def job_started_def)
  fix started
  have "triple (running r0 0) (deferred (process_body p k started) (cleanup_all p)) (\<lambda>_. some_rounds r0) (some_rounds r0)"
    by (rule triple_deferred_last [OF body_rounds]) (rule rounds.keeps_cleanup [OF inner_counts(1), unfolded keeps_def])
  then have "triple (running r0 0) (tracked_run p k (deferred (process_body p k started) (cleanup_all p)))
      (\<lambda>_. some_rounds r0) (some_rounds r0)"
    by (rule triple_tracked) (simp_all add: some_rounds_def running_def)
  from triple_recovered [OF this rounds.keeps_recover [unfolded keeps_def]]
  show "triple (running r0 0)
      (deferred (recovered (tracked_run p k (deferred (process_body p k started) (cleanup_all p))) (recover_job p))
        (end_metrics p started)) (\<lambda>_. settled r0) (settled r0)"
    by (rule triple_deferred_last) (rule end_metrics_settles)
qed

lemma inner_cancels: "inner (\<lambda>s. P (jr_cancels s))"
  by (simp add: inner_def)

interpretation cancels: run_invariant p k "\<lambda>s. P (jr_cancels s)"
  by unfold_locales (auto intro!: inner_calls inner_cancels keeps_verify_prog)

lemma tracked_releases:
  assumes "p_canceller p" and "\<And>P. keeps (\<lambda>s. P (jr_cancels s)) m"
  shows "tracked (jr_cancels (fst (tracked_run p k m s))) k' =
    (if k' = k then None else tracked (jr_cancels s) k')"
proof -
  let ?s = "s\<lparr>jr_cancels := cn_track k (p_cancel p) (jr_cancels s)\<rparr>"
  have "jr_cancels (fst (m ?s)) = cn_track k (p_cancel p) (jr_cancels s)"
    using keepsD [OF assms(2) [of "\<lambda>c. c = cn_track k (p_cancel p) (jr_cancels s)"], of ?s] by simp
  with assms(1) show ?thesis by (simp add: tracked_run_def bnd_def modp_def)
qed

lemma process_releases:
  assumes "p_canceller p"
  shows "tracked (jr_cancels (fst (process p k s))) k' = (if k' = k then None else tracked (jr_cancels s) k')"
proof -
  let ?m = "\<lambda>started. deferred (process_body p k started) (cleanup_all p)"
  have m: "keeps (\<lambda>s. P (jr_cancels s)) (?m started)" for P started
    by (intro keeps_intros cancels.keeps_body cancels.keeps_cleanup inner_cancels)
  have e: "jr_cancels (fst (end_metrics p started s)) = jr_cancels s" for started s
    by (simp add: end_metrics_def bnd_def readp_def modp_def split_beta)
  have r: "jr_cancels (fst (recovered n (recover_job p) s)) = jr_cancels (fst (n s))" for n s
    using keepsD [OF cancels.keeps_recover [of "\<lambda>c. c = jr_cancels (fst (n s))" p], of "fst (n s)"]
    by (simp add: recovered_def split_beta split: outcome.split)
  show ?thesis
    using tracked_releases [OF assms m]
    by (simp add: process_def bnd_def modp_def readp_def split_beta e r)
qed

text \<open>
  C22: a run leaves the counters exact and nothing in the canceller.  However \<open>Process\<close> ends, by a panic
  too, the gauge of active jobs is what it was, exactly one of the three outcomes has gone up by one,
  the one that the job's last status says, at most one revision was counted, and the canceller no
  longer knows the job while every other entry is as before.
\<close>

theorem process_accounts:
  assumes "process p k s = (s', oc)" and "jr_metrics s = Some r0" and "p_canceller p"
  shows "\<exists>r. jr_metrics s' = Some r \<and> active_jobs r = active_jobs r0 \<and>
    jobs_completed r = jobs_completed r0 + (if last_status s' = StatusCompleted then 1 else 0) \<and>
    jobs_cancelled r = jobs_cancelled r0 + (if last_status s' = StatusCancelled then 1 else 0) \<and>
    jobs_failed r = jobs_failed r0 + (if last_status s' \<in> {StatusCompleted, StatusCancelled} then 0 else 1) \<and>
    revisions_requested r \<in> {revisions_requested r0, revisions_requested r0 + 1} \<and>
    tracked (jr_cancels s') = (tracked (jr_cancels s))(k := None)"
proof -
  have "settled r0 s'"
    using tripleD [OF process_settles assms(2,1)] by (cases oc) simp_all
  then obtain r n where r: "jr_metrics s' = Some r" "active_jobs r = active_jobs r0"
    "jobs_completed r = jobs_completed r0 + (if last_status s' = StatusCompleted then 1 else 0)"
    "jobs_cancelled r = jobs_cancelled r0 + (if last_status s' = StatusCancelled then 1 else 0)"
    "jobs_failed r = jobs_failed r0 + (if last_status s' \<in> {StatusCompleted, StatusCancelled} then 0 else 1)"
    "n \<le> 1" "revisions_requested r = revisions_requested r0 + of_nat n"
    by (auto simp: settled_def max_revisions_def)
  from \<open>n \<le> 1\<close> have "n = 0 \<or> n = 1" by auto
  with r(7) have "revisions_requested r \<in> {revisions_requested r0, revisions_requested r0 + 1}" by auto
  moreover have "tracked (jr_cancels s') = (tracked (jr_cancels s))(k := None)"
    using process_releases [OF assms(3), of k s] assms(1) by (simp add: fun_eq_iff)
  ultimately show ?thesis using r by blast
qed

lemma bare_completes:
  "map_option status (jr_job (fst (process bare_processor ''j'' start_run))) = Some StatusCompleted"
  by code_simp

theorem process_accounts_witness:
  "\<exists>r. jr_metrics (fst (process bare_processor ''j'' start_run)) = Some r \<and> jobs_completed r = 1 \<and>
    active_jobs r = 0 \<and> jobs_failed r = 0"
proof -
  have "last_status (fst (process bare_processor ''j'' start_run)) = StatusCompleted"
    using bare_completes by (auto simp: last_status_def)
  moreover have m: "jr_metrics start_run = Some metrics_new" and c: "p_canceller bare_processor"
    by (simp_all add: start_run_def bare_processor_def)
  ultimately show ?thesis
    using process_accounts [OF prod.collapse [symmetric] m c, of "''j''"] by (auto simp: metrics_new_def)
qed

end
