(* ===== verification/Processor_Worktrees.thy ===== *)
theory Processor_Worktrees
  imports Processor_Ends
begin

text \<open>
  A job never leaves a worktree behind: what the deferred cleanup of \<open>Process\<close> guarantees, what it needs
  of the workspace manager, and the one way around it.  \<open>live w\<close> is the set of worktrees that exist in
  the world \<open>w\<close>.
\<close>

subsection \<open>What the workspace manager promises\<close>

definition within :: "('w \<Rightarrow> workspace set) \<Rightarrow> workspace set \<Rightarrow> 'w job_run \<Rightarrow> bool" where
  "within live M s = (live (jr_world s) \<subseteq> M)"

definition worktrees :: "candidate list \<Rightarrow> workspace set" where
  "worktrees cs = {ws. Some ws \<in> set (map cd_ws cs)}"

text \<open>Every worktree that is not of \<open>L\<close> belongs to an attempt.\<close>

definition owned :: "('w \<Rightarrow> workspace set) \<Rightarrow> workspace set \<Rightarrow> 'w job_run \<Rightarrow> bool" where
  "owned live L s = (live (jr_world s) \<subseteq> L \<union> worktrees (jr_cands s))"

text \<open>
  Only \<open>Create\<close> makes a worktree, and then it returns it; \<open>Cleanup\<close> returns and its worktree is gone;
  neither panics.
\<close>

definition create_tracked ::
    "('w \<Rightarrow> workspace set) \<Rightarrow> (string \<Rightarrow> string \<Rightarrow> ('w, workspace result) call) \<Rightarrow> bool" where
  "create_tracked live f =
     (\<forall>k repo x t. case f k repo (x, t) of
        ((x', t'), Return (Inl e)) \<Rightarrow> live x' \<subseteq> live x
      | ((x', t'), Return (Inr ws)) \<Rightarrow> live x' \<subseteq> insert ws (live x)
      | (_, Panic r) \<Rightarrow> False)"

definition cleanup_tracked :: "('w \<Rightarrow> workspace set) \<Rightarrow> (workspace \<Rightarrow> ('w, go_err option) call) \<Rightarrow> bool" where
  "cleanup_tracked live f =
     (\<forall>ws x t. case f ws (x, t) of
        ((x', t'), Return eo) \<Rightarrow> live x' \<subseteq> live x - {ws}
      | (_, Panic r) \<Rightarrow> False)"

definition tracks_worktrees :: "'w processor \<Rightarrow> ('w \<Rightarrow> workspace set) \<Rightarrow> bool" where
  "tracks_worktrees p live =
     ((\<forall>M. calls_keep p (within live M)) \<and>
      (\<forall>v ns M. p_verifier p = Some v \<longrightarrow> keeps (within live M) (verify_prog v ns)) \<and>
      (\<forall>w. p_workspaces p = Some w \<longrightarrow>
         create_tracked live (ow_create w) \<and> cleanup_tracked live (ow_cleanup w)))"

lemma tracks_calls:
  assumes "tracks_worktrees p live"
  shows "calls_keep p (within live M)"
    and "p_verifier p = Some v \<Longrightarrow> keeps (within live M) (verify_prog v ns)"
  using assms by (simp_all add: tracks_worktrees_def)

lemma tracks_create:
  assumes "tracks_worktrees p live" and "p_workspaces p = Some w"
    and "ow_create w k repo (x, t) = ((x', t'), r)"
  shows "(\<exists>e. r = Return (Inl e) \<and> live x' \<subseteq> live x) \<or> (\<exists>ws. r = Return (Inr ws) \<and> live x' \<subseteq> insert ws (live x))"
proof -
  have "create_tracked live (ow_create w)" using assms(1,2) by (simp add: tracks_worktrees_def)
  from this [unfolded create_tracked_def, THEN spec [of _ k], THEN spec [of _ repo], THEN spec [of _ x],
      THEN spec [of _ t]] assms(3) show ?thesis
    by (simp split: outcome.splits sum.splits)
qed

lemma tracks_cleanup:
  assumes "tracks_worktrees p live" and "p_workspaces p = Some w"
    and "ow_cleanup w ws (x, t) = ((x', t'), r)"
  shows "(\<exists>eo. r = Return eo) \<and> live x' \<subseteq> live x - {ws}"
proof -
  have "cleanup_tracked live (ow_cleanup w)" using assms(1,2) by (simp add: tracks_worktrees_def)
  from this [unfolded cleanup_tracked_def, THEN spec [of _ ws], THEN spec [of _ x], THEN spec [of _ t]] assms(3) show ?thesis
    by (simp split: outcome.splits)
qed

lemma keeps_owned:
  assumes "\<And>M. keeps (within live M) m" and "\<And>s. worktrees (jr_cands (fst (m s))) = worktrees (jr_cands s)"
  shows "keeps (owned live L) m"
proof (rule keepsI)
  fix s assume "owned live L s"
  then have "within live (L \<union> worktrees (jr_cands s)) s" by (simp add: owned_def within_def)
  from keepsD [OF assms(1) this] show "owned live L (fst (m s))"
    by (simp add: owned_def within_def assms(2))
qed

lemma calls_frame [simp]:
  "jr_cands (fst (readp g s)) = jr_cands s" "jr_cands (fst (callp h s)) = jr_cands s"
  by (simp_all add: readp_def callp_def split_beta)

lemma calls_owned: "(\<And>M. calls_keep p (within live M)) \<Longrightarrow> calls_keep p (owned live L)"
  by (simp add: calls_keep_def keeps_owned)

lemma worktrees_update: "i < length cs \<Longrightarrow> cd_ws c = cd_ws (cs ! i) \<Longrightarrow> worktrees (cs[i := c]) = worktrees cs"
proof -
  assume "i < length cs" and "cd_ws c = cd_ws (cs ! i)"
  then have "map cd_ws (cs[i := c]) = map cd_ws cs"
    by (auto intro: nth_equalityI simp: nth_list_update)
  then show "worktrees (cs[i := c]) = worktrees cs" by (simp only: worktrees_def)
qed

lemma verify_worktrees: "worktrees (jr_cands (fst (verify_prog v ns s))) = worktrees (jr_cands s)"
  by (simp add: verify_prog_def split_beta worktrees_def verify_candidates_map)

lemma owned_invariant:
  assumes "tracks_worktrees p live"
  shows "cands_invariant p k (owned live L)" and "status_invariant p k (owned live L) UNIV"
    and "status_invariant p k (within live L) UNIV"
proof -
  have c: "calls_keep p (owned live L)" by (rule calls_owned) (rule tracks_calls(1) [OF assms])
  have v: "p_verifier p = Some v \<Longrightarrow> keeps (owned live L) (verify_prog v ns)" for v ns
    by (rule keeps_owned) (simp_all add: tracks_calls(2) [OF assms] verify_worktrees)
  show "cands_invariant p k (owned live L)"
    by (unfold_locales; (rule c | rule v | simp add: owned_def worktrees_update); assumption?)
  show "status_invariant p k (owned live L) UNIV"
    by (unfold_locales; (rule c | simp add: owned_def))
  show "status_invariant p k (within live L) UNIV"
    by (unfold_locales; (rule tracks_calls(1) [OF assms] | simp add: within_def))
qed

subsection \<open>Making the worktrees\<close>

lemma worktrees_simps [simp]:
  "worktrees [] = {}" "worktrees (cs @ [new_candidate i ws]) = insert ws (worktrees cs)"
  by (auto simp: worktrees_def new_candidate_def)

lemma create_owned:
  assumes tr: "tracks_worktrees p live" and w: "p_workspaces p = Some w"
  shows "triple (within live (L \<union> worktrees cs)) (create_from w k repo m i n cs)
    (\<lambda>(created, eo). within live (L \<union> worktrees created)) (\<lambda>_. False)"
proof (induction n arbitrary: i cs)
  case 0
  show ?case by (auto intro: triple_ret)
next
  case (Suc n)
  let ?r = "\<lambda>r s. case r of
      Inl e \<Rightarrow> within live (L \<union> worktrees cs) s
    | Inr ws \<Rightarrow> within live (L \<union> worktrees (cs @ [new_candidate i ws])) s"
  have c: "triple (within live (L \<union> worktrees cs)) (callp (ow_create w (variant_id k i m) repo)) ?r (\<lambda>_. False)"
  proof (rule tripleI)
    fix s s' x
    assume l: "within live (L \<union> worktrees cs) s" and c: "callp (ow_create w (variant_id k i m) repo) s = (s', Return x)"
    obtain x' t' oc where o1: "ow_create w (variant_id k i m) repo (jr_world s, jr_tree s) = ((x', t'), oc)"
      by (metis prod.exhaust)
    have e: "oc = Return x" "jr_world s' = x'" using c o1 by (auto simp: callp_def)
    have L: "live (jr_world s) \<subseteq> L \<union> worktrees cs" using l by (simp add: within_def)
    show "?r x s'"
    proof (cases x)
      case (Inl err)
      with tracks_create [OF tr w o1] e L show ?thesis by (simp add: within_def)
    next
      case (Inr ws)
      with tracks_create [OF tr w o1] e have "live x' \<subseteq> insert ws (live (jr_world s))" by simp
      with L have "live x' \<subseteq> L \<union> insert ws (worktrees cs)" by blast
      with Inr e show ?thesis by (simp add: within_def)
    qed
  next
    fix s s' r
    assume c: "callp (ow_create w (variant_id k i m) repo) s = (s', Panic r)"
    obtain x' t' oc where o1: "ow_create w (variant_id k i m) repo (jr_world s, jr_tree s) = ((x', t'), oc)"
      by (metis prod.exhaust)
    from tracks_create [OF tr w o1] c o1 show False by (auto simp: callp_def)
  qed
  show ?case
    unfolding create_from.simps
  proof (rule triple_bnd [OF c])
    fix r
    show "triple (?r r) (case r of
         Inl e \<Rightarrow> ret (cs, Some (Errorf ''create workspace for variant %d: %w'' [FInt (int i), FW e]))
       | Inr ws \<Rightarrow> create_from w k repo m (Suc i) n (cs @ [new_candidate i ws]))
       (\<lambda>(created, eo). within live (L \<union> worktrees created)) (\<lambda>_. False)"
    proof (cases r)
      case (Inl e)
      then show ?thesis by (auto intro: triple_ret)
    next
      case (Inr ws)
      show ?thesis unfolding Inr sum.case by (rule Suc.IH)
    qed
  qed
qed

lemma prepare_owned:
  assumes tr: "tracks_worktrees p live" and w: "p_workspaces p \<noteq> None"
  shows "triple (within live L) (do_prepare p k lv) (\<lambda>_. owned live L) (\<lambda>s. owned live L s)"
proof -
  from w obtain w where w: "p_workspaces p = Some w" by blast
  have weak: "within live L s \<Longrightarrow> owned live L s" for s :: "'a job_run" by (auto simp: within_def owned_def)
  have cr: "triple (within live L) (create_candidates w k repo m)
      (\<lambda>(created, eo). within live (L \<union> worktrees created)) (owned live L)" for repo m
    using create_owned [OF tr w, of L "[]"] by (auto simp: create_candidates_def intro: triple_calm)
  have rest: "triple (within live (L \<union> worktrees created))
      (bnd (modp (\<lambda>s. s\<lparr>jr_cands := created\<rparr>)) (\<lambda>_. case eo of
         Some e \<Rightarrow> ret (Inl (Errorf ''prepare workspaces for job %s: %w'' [FStr k, FW e]))
       | None \<Rightarrow> bnd (for_each (emit_created p k) created) (\<lambda>_. ret (Inr lv))))
      (\<lambda>_. owned live L) (owned live L)" for created eo
  proof (rule triple_bnd [where R = "\<lambda>_. owned live L"])
    show "triple (within live (L \<union> worktrees created)) (modp (\<lambda>s. s\<lparr>jr_cands := created\<rparr>)) (\<lambda>_. owned live L) (owned live L)"
      by (rule triple_modp) (simp add: within_def owned_def)
    have "keeps (owned live L) (case eo of
         Some e \<Rightarrow> ret (Inl (Errorf ''prepare workspaces for job %s: %w'' [FStr k, FW e]))
       | None \<Rightarrow> bnd (for_each (emit_created p k) created) (\<lambda>_. ret (Inr lv)))"
      by (intro keeps_intros keeps_for_each
          quiet_invariant.keeps_emit_created [OF cands_invariant.axioms(1) [OF owned_invariant(1) [OF tr]]])
    then show "triple (owned live L) (case eo of
         Some e \<Rightarrow> ret (Inl (Errorf ''prepare workspaces for job %s: %w'' [FStr k, FW e]))
       | None \<Rightarrow> bnd (for_each (emit_created p k) created) (\<lambda>_. ret (Inr lv)))
      (\<lambda>_. owned live L) (owned live L)" by (simp add: keeps_def)
  qed
  have job: "triple (within live L) job_var (\<lambda>_. within live L) (owned live L)"
    using keeps_job_var [of "within live L", unfolded keeps_def] by (rule triple_conseq) (auto dest: weak)
  show ?thesis
    unfolding do_prepare_def w option.case
    by (rule triple_bnd [OF job], rule triple_bnd [OF cr]) (auto intro: rest split: prod.split)
qed

subsection \<open>The run\<close>

text \<open>Worktrees are made once: before that there are no attempts, and no step makes them again.\<close>

definition once :: "job_status list \<Rightarrow> 'w job_run \<Rightarrow> bool" where
  "once steps s =
     (count_list steps StatusPreparingWorkspace \<le> 1 \<and>
      (StatusPreparingWorkspace \<in> set steps \<longrightarrow> jr_cands s = []))"

lemma inner_once: "inner (once steps)"
  by (simp add: inner_def once_def)

interpretation once: cands_invariant p k "once steps"
  by (unfold_locales; (rule inner_calls [OF inner_once]
      | (rule keeps_verify_prog [OF inner_once], simp add: once_def, metis length_0_conv) | (simp add: once_def)); force?)

interpretation once: status_invariant p k "once steps" UNIV
  by unfold_locales (auto simp: once_def)

definition owned_inv :: "('w \<Rightarrow> workspace set) \<Rightarrow> workspace set \<Rightarrow> job_status list \<Rightarrow> 'w job_run \<Rightarrow> bool" where
  "owned_inv live L steps s = (owned live L s \<and> once steps s)"

lemma keeps_conj: "keeps P m \<Longrightarrow> keeps Q m \<Longrightarrow> keeps (\<lambda>s. P s \<and> Q s) m"
  by (simp add: keeps_iff)

lemma once_rest: "once (st # rest) s \<Longrightarrow> st \<noteq> StatusPreparingWorkspace \<Longrightarrow> once rest s"
  by (simp add: once_def)

lemma once_extra:
  "once rest s \<Longrightarrow> next_round lv (Inr (lv', extra) :: go_err + loop_vars \<times> job_status list) \<Longrightarrow> once (rest @ extra) s"
  by (auto simp: once_def next_round_def revision_steps_def)

lemma work_owned:
  assumes tr: "tracks_worktrees p live" and w: "p_workspaces p \<noteq> None"
  shows "triple (owned_inv live L (st # rest)) (step_work p k lv st)
    (\<lambda>r s. case r of Inl e \<Rightarrow> owned live L s | Inr (lv', extra) \<Rightarrow> owned_inv live L (rest @ extra) s) (owned live L)"
proof (cases "st = StatusPreparingWorkspace")
  case True
  have pre: "within live L s" if "owned_inv live L (StatusPreparingWorkspace # rest) s" for s :: "'a job_run"
    using that by (auto simp: owned_inv_def owned_def once_def within_def)
  have prep: "triple (owned_inv live L (st # rest)) (do_prepare p k lv) (\<lambda>_. owned live L) (owned live L)"
    using prepare_owned [OF assms, of L k lv] by (rule triple_pre) (simp add: True pre)
  show ?thesis
  proof (cases "StatusPreparingWorkspace \<in> set rest")
    case twice: True
    then have "\<not> owned_inv live L (st # rest) s" for s :: "'a job_run"
      using True by (auto simp: owned_inv_def once_def count_list_0_iff)
    then show ?thesis by (simp add: triple_def)
  next
    case False
    then have "owned_inv live L rest s = owned live L s" for s :: "'a job_run"
      by (auto simp: owned_inv_def once_def count_list_0_iff)
    then show ?thesis
      unfolding True step_work_def job_status.case
      by (intro triple_bnd [OF prep [unfolded True]])
        (auto simp: triple_def ret_def map_step_def split: sum.split)
  qed
next
  case False
  have "keeps (owned live L) (step_work p k lv st)"
    by (rule cands_invariant.keeps_work [OF owned_invariant(1) [OF tr]]) (simp_all add: False owned_def)
  moreover have "keeps (once (st # rest)) (step_work p k lv st)"
    by (rule once.keeps_work) (simp_all add: False once_def)
  ultimately have "keeps (owned_inv live L (st # rest)) (step_work p k lv st)"
    unfolding owned_inv_def by (rule keeps_conj)
  from triple_keeps_yields [OF this yields_step_work, where E = "owned live L"]
  have t: "triple (owned_inv live L (st # rest)) (step_work p k lv st)
      (\<lambda>r s. owned_inv live L (st # rest) s \<and> next_round lv r) (owned live L)"
    by (simp add: owned_inv_def)
  show ?thesis
  proof (rule triple_post [OF t])
    fix r :: "go_err + loop_vars \<times> job_status list" and s :: "'a job_run"
    assume r: "owned_inv live L (st # rest) s \<and> next_round lv r"
    then have "owned live L s" and "once rest s" using once_rest [OF _ False] by (auto simp: owned_inv_def)
    with r show "case r of Inl e \<Rightarrow> owned live L s | Inr (lv', extra) \<Rightarrow> owned_inv live L (rest @ extra) s"
      by (auto simp: owned_inv_def intro: once_extra split: sum.split)
  qed
qed

text \<open>The rest of a step and of the run keeps the two.\<close>

lemma owned_keeps:
  assumes tr: "tracks_worktrees p live"
  shows "keeps (owned_inv live L steps) (readp (p_ctx_err p))" "keeps (owned_inv live L steps) (emit p k ty pl)"
    and "keeps (owned_inv live L steps) (advance p st)" "keeps (owned live L) (mark_failed p e)"
    and "keeps (owned live L) (end_interrupted p e)" "keeps (owned live L) (finish_job p k lv)"
    and "keeps (owned_inv live L steps) (modp (\<lambda>s. s\<lparr>jr_metrics := f s\<rparr>))"
    and "keeps (owned_inv live L steps) (modp (\<lambda>s. s\<lparr>jr_job := j\<rparr>))"
proof -
  note st = owned_invariant(2) [OF tr, of k L] and q = status_invariant.axioms(1) [OF owned_invariant(2) [OF tr, of k L]]
  show "keeps (owned_inv live L steps) (readp (p_ctx_err p))"
    unfolding owned_inv_def by (intro keeps_conj quiet_invariant.reads_I(2) [OF q] once.reads_I)
  show "keeps (owned_inv live L steps) (emit p k ty pl)"
    unfolding owned_inv_def by (intro keeps_conj quiet_invariant.keeps_emit [OF q] once.keeps_emit)
  show "keeps (owned_inv live L steps) (advance p st)"
    unfolding owned_inv_def by (intro keeps_conj status_invariant.keeps_advance [OF st] once.keeps_advance UNIV_I)
  show "keeps (owned live L) (mark_failed p e)" "keeps (owned live L) (end_interrupted p e)"
    by (rule status_invariant.keeps_failed [OF st] status_invariant.keeps_interrupted [OF st])+
  show "keeps (owned live L) (finish_job p k lv)" by (rule status_invariant.keeps_finish [OF st UNIV_I])
qed (rule keeps_modp, simp add: owned_inv_def owned_def once_def)+

lemma owned_inv_owned: "owned_inv live L steps s \<Longrightarrow> owned live L s"
  by (simp add: owned_inv_def)

lemma owned_triples:
  assumes tr: "tracks_worktrees p live"
  shows "triple (owned_inv live L steps) (emit p k ty pl) (\<lambda>_. owned_inv live L steps) (owned live L)"
    and "triple (owned_inv live L steps) (end_interrupted p e) (\<lambda>_. owned live L) (owned live L)"
    and "triple (owned live L) (mark_failed p e) (\<lambda>_. owned live L) (owned live L)"
    and "triple (owned_inv live L steps) (finish_job p k lv) (\<lambda>_. owned live L) (owned live L)"
proof -
  show "triple (owned_inv live L steps) (emit p k ty pl) (\<lambda>_. owned_inv live L steps) (owned live L)"
    by (rule keeps_weaken [OF owned_keeps(2) [OF tr]]) (auto dest: owned_inv_owned)
  show "triple (owned_inv live L steps) (end_interrupted p e) (\<lambda>_. owned live L) (owned live L)"
    by (rule keeps_weaken [OF owned_keeps(5) [OF tr]]) (auto dest: owned_inv_owned)
  show "triple (owned live L) (mark_failed p e) (\<lambda>_. owned live L) (owned live L)"
    using owned_keeps(4) [OF tr] by (simp add: keeps_def)
  show "triple (owned_inv live L steps) (finish_job p k lv) (\<lambda>_. owned live L) (owned live L)"
    by (rule keeps_weaken [OF owned_keeps(6) [OF tr]]) (auto dest: owned_inv_owned)
qed

lemma run_step_owned:
  assumes tr: "tracks_worktrees p live" and w: "p_workspaces p \<noteq> None"
  shows "triple (owned_inv live L (st # rest)) (run_step p k lv st)
    (\<lambda>r s. case r of Inl eo \<Rightarrow> owned live L s | Inr x \<Rightarrow> owned_inv live L (rest @ snd x) s) (owned live L)"
proof (rule run_step_rule [where F = "owned live L" and P' = "owned_inv live L (st # rest)"
      and R = "\<lambda>x. owned_inv live L (rest @ snd x)" and Q = "\<lambda>_. owned live L"])
  show "triple (owned_inv live L (st # rest)) (step_work p k lv st)
      (\<lambda>r s. case r of Inl e \<Rightarrow> owned live L s | Inr x \<Rightarrow> owned_inv live L (rest @ snd x) s) (owned live L)"
    by (rule triple_post [OF work_owned [OF assms]]) (auto split: sum.splits)
  have "triple (owned_inv live L (st # rest)) (advance p st) (\<lambda>_. owned_inv live L (st # rest)) (owned live L)"
    by (rule keeps_weaken [OF owned_keeps(3) [OF tr]]) (auto dest: owned_inv_owned)
  then show "triple (owned_inv live L (st # rest)) (advance p st)
      (\<lambda>eo s. case eo of Some e \<Rightarrow> owned live L s | None \<Rightarrow> owned_inv live L (st # rest) s) (owned live L)"
    by (rule triple_post) (auto dest: owned_inv_owned split: option.split)
qed (rule owned_keeps(1) [OF tr] owned_triples [OF tr])+

lemma body_owned:
  assumes tr: "tracks_worktrees p live" and w: "p_workspaces p \<noteq> None"
  shows "triple (\<lambda>s. within live L s \<and> jr_cands s = []) (process_body p k started)
    (\<lambda>_. owned live L) (owned live L)"
proof -
  let ?P = "owned_inv live L first_steps"
  have pre: "?P s" if "within live L s \<and> jr_cands s = []" for s :: "'a job_run"
    using that by (simp add: owned_inv_def owned_def within_def once_def first_steps_def)
  have loop: "triple ?P (step_loop p k first_vars first_steps) (\<lambda>_. owned live L) (owned live L)"
    by (rule step_loop_rule [where R = "\<lambda>_ steps. owned_inv live L steps", OF _ owned_triples(4) [OF tr]],
        rule triple_post [OF run_step_owned [OF assms]]) (auto split: sum.splits)
  have m: "triple ?P (modp f) (\<lambda>_. ?P) (owned live L)" if "keeps ?P (modp f)" for f :: "'a job_run \<Rightarrow> 'a job_run"
    by (rule keeps_weaken [OF that]) (auto dest: owned_inv_owned)
  have "triple ?P (process_body p k started) (\<lambda>_. owned live L) (owned live L)"
    unfolding process_body_def
    by (rule triple_bnd [where R = "\<lambda>_. ?P"], rule triple_getp, assumption, rule triple_sum,
        rule triple_ret, erule owned_inv_owned, rule triple_bnd [OF m [OF owned_keeps(8) [OF tr]]],
        rule triple_bnd [OF m [OF owned_keeps(7) [OF tr]]], rule triple_bnd [OF owned_triples(1) [OF tr] loop])
  then show ?thesis by (rule triple_pre) (rule pre)
qed

text \<open>The deferred loop removes what the attempts own.\<close>

lemma cleanup_owned:
  assumes tr: "tracks_worktrees p live" and w: "p_workspaces p = Some w"
  shows "triple (within live (L \<union> worktrees cs)) (for_each (cleanup_one w) cs) (\<lambda>_. within live L) (\<lambda>_. False)"
proof (induction cs)
  case Nil
  show ?case by (auto intro: triple_ret)
next
  case (Cons c cs)
  have "triple (within live (L \<union> worktrees (c # cs))) (cleanup_one w c) (\<lambda>_. within live (L \<union> worktrees cs)) (\<lambda>_. False)"
  proof (cases "cd_ws c")
    case None
    then show ?thesis by (auto simp: cleanup_one_def worktrees_def intro!: triple_ret)
  next
    case (Some ws)
    have wt: "worktrees (c # cs) = insert ws (worktrees cs)" using Some by (auto simp: worktrees_def)
    have "triple (within live (L \<union> worktrees (c # cs))) (callp (ow_cleanup w ws))
        (\<lambda>_. within live (L \<union> worktrees cs)) (\<lambda>_. False)"
    proof (rule tripleI)
      fix s s' :: "'a job_run" and x
      assume l: "within live (L \<union> worktrees (c # cs)) s" and c: "callp (ow_cleanup w ws) s = (s', Return x)"
      obtain x' t' oc where o1: "ow_cleanup w ws (jr_world s, jr_tree s) = ((x', t'), oc)" by (metis prod.exhaust)
      from c o1 have "jr_world s' = x'" by (auto simp: callp_def)
      with tracks_cleanup [OF tr w o1] l wt show "within live (L \<union> worktrees cs) s'"
        by (auto simp: within_def)
    next
      fix s s' :: "'a job_run" and r
      assume c: "callp (ow_cleanup w ws) s = (s', Panic r)"
      obtain x' t' oc where o1: "ow_cleanup w ws (jr_world s, jr_tree s) = ((x', t'), oc)" by (metis prod.exhaust)
      with tracks_cleanup [OF tr w o1] c show False by (auto simp: callp_def)
    qed
    then show ?thesis
      unfolding cleanup_one_def Some option.case by (rule triple_bnd) (auto intro: triple_ret)
  qed
  then show ?case unfolding for_each.simps by (rule triple_bnd) (rule Cons.IH)
qed

lemma cleanup_all_owned:
  assumes tr: "tracks_worktrees p live" and w: "p_workspaces p \<noteq> None"
  shows "triple (owned live L) (cleanup_all p) (\<lambda>_. within live L) (within live L)"
proof -
  from w obtain w where w: "p_workspaces p = Some w" by blast
  show ?thesis
    unfolding cleanup_all_def w option.case
    by (rule triple_bnd [where R = "\<lambda>cs. within live (L \<union> worktrees cs)"], rule triple_getp,
        simp add: owned_def within_def, rule triple_calm, rule cleanup_owned [OF tr w])
qed

lemma process_within:
  assumes tr: "tracks_worktrees p live" and w: "p_workspaces p \<noteq> None"
  shows "triple (within live L) (process p k) (\<lambda>_. within live L) (within live L)"
proof -
  note st = owned_invariant(3) [OF tr, of k L]
  note q = status_invariant.axioms(1) [OF st]
  let ?P = "\<lambda>s. within live L s \<and> jr_cands s = []"
  have now: "keeps (within live L) (readp (p_now p))" by (rule quiet_invariant.reads_I(1) [OF q])
  have em: "keeps (within live L) (end_metrics p started)" for started
    unfolding end_metrics_def by (intro keeps_bnd now keeps_modp) (simp add: within_def)
  show ?thesis
    unfolding process_def
  proof (rule triple_bnd [where R = "\<lambda>_. ?P"], rule triple_modp, simp add: within_def,
      rule triple_bnd [where R = "\<lambda>_. ?P"])
    have "keeps ?P (readp (p_now p))" by (rule keeps_conj [OF now]) (simp add: keeps_iff)
    then show "triple ?P (readp (p_now p)) (\<lambda>_. ?P) (within live L)"
      by (rule keeps_weaken) simp_all
  next
    fix started
    have "triple ?P (deferred (process_body p k started) (cleanup_all p)) (\<lambda>_. within live L) (within live L)"
      by (rule triple_deferred_last [OF body_owned [OF assms] cleanup_all_owned [OF assms]])
    then have "triple ?P (tracked_run p k (deferred (process_body p k started) (cleanup_all p)))
        (\<lambda>_. within live L) (within live L)"
      by (rule triple_tracked) (simp_all add: within_def)
    from triple_recovered [OF this status_invariant.keeps_recover [OF st, unfolded keeps_def]]
    have "triple ?P
        (deferred (recovered (tracked_run p k (deferred (process_body p k started) (cleanup_all p))) (recover_job p))
          (end_metrics p started)) (\<lambda>_. within live L) (within live L)"
      by (rule triple_deferred_last) (rule em [unfolded keeps_def])
    then show "triple ?P (bnd (modp (\<lambda>s. s\<lparr>jr_metrics := job_started (jr_metrics s)\<rparr>)) (\<lambda>_.
        deferred (recovered (tracked_run p k (deferred (process_body p k started) (cleanup_all p))) (recover_job p))
          (end_metrics p started))) (\<lambda>_. within live L) (within live L)"
      by (rule triple_bnd [rotated]) (rule triple_modp, simp add: within_def)
  qed
qed


subsection \<open>Concrete runs\<close>

text \<open>A world that is the list of its worktrees; \<open>bad\<close> is the identifier whose creation panics.\<close>

definition listing_workspaces :: "string \<Rightarrow> workspace list workspaces" where
  "listing_workspaces bad =
     \<lparr>ow_create = (\<lambda>k repo (w, t).
        if k = bad then ((w, t), Panic ''boom'')
        else ((reconstruct ''/wt'' k repo # w, t), Return (Inr (reconstruct ''/wt'' k repo)))),
      ow_cleanup = (\<lambda>ws (w, t). ((removeAll ws w, t), Return None)),
      ow_diff = (\<lambda>b ws (w, t). ((w, t), Return (Inr [])))\<rparr>"

definition listing_processor :: "int \<Rightarrow> workspace list workspaces \<Rightarrow> workspace list processor" where
  "listing_processor n ws =
     \<lparr>p_codec = plain_codec, p_now = (\<lambda>w. (w, 5)), p_ctx_err = (\<lambda>w. (w, None)),
      p_os = (\<lambda>w. (w, no_faults)), p_root = (\<lambda>w. (w, steady_root)), p_unreadable = (\<lambda>w. (w, \<lambda>_. False)),
      p_order = (\<lambda>w. (w, [])), p_cancel = 0, p_canceller = True, p_bus = False, p_artifacts = False,
      p_workspaces = Some ws, p_verifier = None, p_planner = None, p_context = None, p_implementor = None,
      p_reviewer = None, p_variants = n, p_job_timeout = 0\<rparr>"

definition listing_run :: "workspace list job_run" where
  "listing_run =
     \<lparr>jr_world = [], jr_tree = [], jr_pb = \<lparr>pb_inner = new_in_process_bus, pb_store = one_job_store\<rparr>,
      jr_cancels = new_canceller, jr_metrics = None, jr_job = None, jr_cands = []\<rparr>"

definition sound_workspaces :: "workspace list workspaces" where
  "sound_workspaces = (listing_workspaces [])
     \<lparr>ow_create := (\<lambda>k repo (w, t). ((reconstruct ''/wt'' k repo # w, t), Return (Inr (reconstruct ''/wt'' k repo))))\<rparr>"

lemma sound_tracks: "tracks_worktrees (listing_processor n sound_workspaces) set"
  by (auto simp: tracks_worktrees_def listing_processor_def calls_keep_def keeps_iff readp_def callp_def within_def
      create_tracked_def cleanup_tracked_def sound_workspaces_def listing_workspaces_def)


text \<open>
  A panic inside \<open>Create\<close> does leave worktrees behind.  \<open>createCandidates\<close> returns the attempts made so
  far only when it returns; when \<open>Create\<close> panics on the second variant, \<open>cands\<close> has not been assigned, the
  deferred cleanup sees no attempt, and the first variant's worktree stays although the job ends failed.
\<close>

lemma create_panic_leaks:
  "jr_world (fst (process (listing_processor 2 (listing_workspaces ''j-v1'')) ''j'' listing_run)) =
     [reconstruct ''/wt'' ''j-v0'' ''/r''] \<and>
   map_option status (jr_job (fst (process (listing_processor 2 (listing_workspaces ''j-v1'')) ''j'' listing_run))) =
     Some StatusFailed"
  by code_simp

text \<open>The store fails once, at the write of the last status, and works before and after.\<close>

definition full_disk :: os_env where
  "full_disk = no_faults\<lparr>os_fail := (\<lambda>c. if c = OsSync then Some (Errorf ''no space left on device'' []) else None)\<rparr>"

definition flaky_processor :: "nat processor" where
  "flaky_processor = bare_processor\<lparr>p_os := (\<lambda>w. (Suc w, if w = 23 then full_disk else no_faults))\<rparr>"


end
