(* ===== verification/Queue_Worker.thy ===== *)
theory Queue_Worker
  imports Rojo_Prelude "HOL-Library.Multiset"
begin

text \<open>
  \<open>internal/queue\<close> and \<open>internal/worker\<close>: the bounded channel of job ids and the pool of worker
  goroutines that drain it.  The pool is a transition system: any worker that can move, the
  clients that enqueue, and the shutdown may act in any order.
\<close>

subsection \<open>The queue\<close>

record job_queue =
  q_buf :: "string list"
  q_cap :: nat
  q_closed :: bool

definition queue_new :: "int \<Rightarrow> job_queue" where
  "queue_new n = \<lparr>q_buf = [], q_cap = (if n \<le> 0 then 1 else nat n), q_closed = False\<rparr>"

text \<open>A send on a closed channel panics, in a \<open>select\<close> with a default as well.\<close>

definition enqueue :: "string \<Rightarrow> job_queue \<Rightarrow> (job_queue \<times> go_err option) outcome" where
  "enqueue k q =
     (if q_closed q then Panic ''send on closed channel''
      else if length (q_buf q) < q_cap q then Return (q\<lparr>q_buf := q_buf q @ [k]\<rparr>, None)
      else Return (q, Some (Sentinel ErrQueueFull)))"

text \<open>A receive: the oldest id, or the end of a closed and empty channel, or it would block.\<close>

datatype delivery = Delivered string | End_Of_Queue | Blocked

definition dequeue :: "job_queue \<Rightarrow> job_queue \<times> delivery" where
  "dequeue q =
     (case q_buf q of
        k # ks \<Rightarrow> (q\<lparr>q_buf := ks\<rparr>, Delivered k)
      | [] \<Rightarrow> (q, if q_closed q then End_Of_Queue else Blocked))"

definition queue_close :: "job_queue \<Rightarrow> job_queue outcome" where
  "queue_close q =
     (if q_closed q then Panic ''close of closed channel'' else Return (q\<lparr>q_closed := True\<rparr>))"

definition queue_len :: "job_queue \<Rightarrow> nat" where
  "queue_len q = length (q_buf q)"

definition queue_inv :: "job_queue \<Rightarrow> bool" where
  "queue_inv q = (0 < q_cap q \<and> queue_len q \<le> q_cap q)"

subsection \<open>The interface\<close>

text \<open>What a producer and the workers rely on: a bounded first-in first-out buffer.\<close>

locale fifo_queue =
  fixes enq :: "'k \<Rightarrow> 'q \<Rightarrow> ('q \<times> go_err option) outcome"
    and deq :: "'q \<Rightarrow> 'q \<times> delivery"
    and buffered :: "'q \<Rightarrow> 'k list"
    and ident :: "'k \<Rightarrow> string"
    and invar :: "'q \<Rightarrow> bool"
  assumes enq_accepts: "enq k q = Return (q', None) \<Longrightarrow> buffered q' = buffered q @ [k]"
    and enq_refuses: "enq k q = Return (q', Some e) \<Longrightarrow> q' = q"
    and enq_invar: "invar q \<Longrightarrow> enq k q = Return (q', eo) \<Longrightarrow> invar q'"
    and deq_delivers: "deq q = (q', Delivered s) \<Longrightarrow> \<exists>k. ident k = s \<and> buffered q = k # buffered q'"
    and deq_else: "deq q = (q', d) \<Longrightarrow> d = End_Of_Queue \<or> d = Blocked \<Longrightarrow> q' = q \<and> buffered q = []"
    and deq_invar: "invar q \<Longrightarrow> invar (fst (deq q))"
begin

text \<open>Any sequence of accepted sends and receives delivers a prefix of what was sent, in order.\<close>

fun run_queue :: "'k option list \<Rightarrow> 'q \<Rightarrow> 'k list \<Rightarrow> string list \<Rightarrow> 'q \<times> 'k list \<times> string list" where
  "run_queue [] q sent got = (q, sent, got)"
| "run_queue (Some k # ops) q sent got =
     (case enq k q of
        Return (q', None) \<Rightarrow> run_queue ops q' (sent @ [k]) got
      | _ \<Rightarrow> run_queue ops q sent got)"
| "run_queue (None # ops) q sent got =
     (case deq q of
        (q', Delivered s) \<Rightarrow> run_queue ops q' sent (got @ [s])
      | (q', _) \<Rightarrow> run_queue ops q' sent got)"

lemma run_queue_fifo:
  assumes "map ident sent = got @ map ident (buffered q)"
    and "run_queue ops q sent got = (q', sent', got')"
  shows "map ident sent' = got' @ map ident (buffered q')"
  using assms
proof (induction ops q sent got rule: run_queue.induct)
  case (2 k ops q sent got)
  show ?case
  proof (cases "enq k q")
    case (Return r)
    obtain q1 eo where r: "r = (q1, eo)" by (cases r)
    show ?thesis
    proof (cases eo)
      case None
      with Return r have e: "enq k q = Return (q1, None)" by simp
      from 2 e enq_accepts [OF e] show ?thesis by auto
    next
      case (Some e)
      with Return r 2 show ?thesis by auto
    qed
  qed (use 2 in auto)
next
  case (3 ops q sent got)
  obtain q1 d where d: "deq q = (q1, d)" by (cases "deq q")
  show ?case
  proof (cases d)
    case (Delivered s)
    with d have "deq q = (q1, Delivered s)" by simp
    from deq_delivers [OF this] 3 d Delivered show ?thesis by auto
  qed (use 3 d deq_else [OF d] in auto)
qed simp

end

interpretation chan: fifo_queue enqueue dequeue q_buf "\<lambda>k. k" queue_inv
  by unfold_locales
    (auto simp: enqueue_def dequeue_def queue_inv_def queue_len_def split: if_splits list.splits)

lemma queue_new_inv [inv_intros]: "queue_inv (queue_new n)"
  by (simp add: queue_inv_def queue_new_def queue_len_def)

lemma enqueue_accepted:
  "enqueue k q = Return (q', None) \<Longrightarrow> q' = q\<lparr>q_buf := q_buf q @ [k]\<rparr> \<and> queue_len q < q_cap q"
  by (auto simp: enqueue_def queue_len_def split: if_splits)

lemma enqueue_full_iff:
  "(\<exists>q'. enqueue k q = Return (q', Some (Sentinel ErrQueueFull))) \<longleftrightarrow> \<not> q_closed q \<and> q_cap q \<le> queue_len q"
  by (auto simp: enqueue_def queue_len_def)

subsection \<open>The pool\<close>

text \<open>
  A worker waits in its \<open>select\<close>, or is inside \<open>process\<close> with a job id, or has returned.  What the
  processor does with a job is one of three things, and all three bring the worker back to its
  loop, because \<open>process\<close> recovers a panic.
\<close>

datatype worker_state = Waiting | Processing string | Stopped

datatype proc_outcome = Proc_Ok | Proc_Err | Proc_Panic

record pool =
  pl_queue :: job_queue
  pl_workers :: "worker_state list"
  pl_cancelled :: bool
  pl_accepted :: "string list"
  pl_taken :: "string list"
  pl_finished :: "(string \<times> proc_outcome) list"

definition new_pool :: "int \<Rightarrow> job_queue \<Rightarrow> pool" where
  "new_pool n q =
     \<lparr>pl_queue = q, pl_workers = replicate (if n \<le> 0 then 1 else nat n) Waiting,
      pl_cancelled = False, pl_accepted = [], pl_taken = [], pl_finished = []\<rparr>"

text \<open>
  The moves: a client's enqueue, the shutdown's close and cancel, a worker's receive, its return
  from \<open>process\<close>, and its exit.  A worker may still receive after the context is done, because
  \<open>select\<close> picks any ready case.
\<close>

datatype pool_move =
    M_Enqueue string | M_Close | M_Cancel | M_Take nat | M_Finish nat proc_outcome | M_Stop nat

fun pool_step :: "pool_move \<Rightarrow> pool \<Rightarrow> pool option" where
  "pool_step (M_Enqueue k) p =
     (case enqueue k (pl_queue p) of
        Return (q, None) \<Rightarrow> Some (p\<lparr>pl_queue := q, pl_accepted := pl_accepted p @ [k]\<rparr>)
      | _ \<Rightarrow> Some p)"
| "pool_step M_Close p =
     (case queue_close (pl_queue p) of Panic r \<Rightarrow> None | Return q \<Rightarrow> Some (p\<lparr>pl_queue := q\<rparr>))"
| "pool_step M_Cancel p = Some (p\<lparr>pl_cancelled := True\<rparr>)"
| "pool_step (M_Take w) p =
     (if w < length (pl_workers p) \<and> pl_workers p ! w = Waiting
      then case dequeue (pl_queue p) of
             (q, Delivered k) \<Rightarrow>
               Some (p\<lparr>pl_queue := q, pl_workers := (pl_workers p)[w := Processing k],
                       pl_taken := pl_taken p @ [k]\<rparr>)
           | _ \<Rightarrow> None
      else None)"
| "pool_step (M_Finish w r) p =
     (if w < length (pl_workers p)
      then case pl_workers p ! w of
             Processing k \<Rightarrow>
               Some (p\<lparr>pl_workers := (pl_workers p)[w := Waiting],
                       pl_finished := pl_finished p @ [(k, r)]\<rparr>)
           | _ \<Rightarrow> None
      else None)"
| "pool_step (M_Stop w) p =
     (if w < length (pl_workers p) \<and> pl_workers p ! w = Waiting \<and>
         (pl_cancelled p \<or> snd (dequeue (pl_queue p)) = End_Of_Queue)
      then Some (p\<lparr>pl_workers := (pl_workers p)[w := Stopped]\<rparr>)
      else None)"

inductive pool_reach :: "pool \<Rightarrow> pool \<Rightarrow> bool" where
  reach_start: "pool_reach p p"
| reach_move: "pool_reach p p1 \<Longrightarrow> pool_step m p1 = Some p2 \<Longrightarrow> pool_reach p p2"

inductive_cases pool_reachE: "pool_reach p p'"

subsection \<open>Conservation and order\<close>

fun job_of :: "worker_state \<Rightarrow> string list" where
  "job_of (Processing k) = [k]"
| "job_of Waiting = []"
| "job_of Stopped = []"

definition in_flight :: "pool \<Rightarrow> string multiset" where
  "in_flight p = sum_list (map (\<lambda>w. mset (job_of w)) (pl_workers p))"

definition pool_inv :: "pool \<Rightarrow> bool" where
  "pool_inv p =
     (pl_accepted p = pl_taken p @ q_buf (pl_queue p) \<and>
      mset (pl_taken p) = in_flight p + mset (map fst (pl_finished p)) \<and>
      queue_inv (pl_queue p))"

lemma in_flight_update:
  assumes "w < length (pl_workers p)"
  shows "in_flight (p\<lparr>pl_workers := (pl_workers p)[w := x]\<rparr>) + mset (job_of (pl_workers p ! w))
    = in_flight p + mset (job_of x)"
proof -
  let ?f = "\<lambda>w. mset (job_of w)" and ?ws = "pl_workers p"
  have "?ws = take w ?ws @ ?ws ! w # drop (Suc w) ?ws"
    and "?ws[w := x] = take w ?ws @ x # drop (Suc w) ?ws"
    using assms by (simp_all add: id_take_nth_drop upd_conv_take_nth_drop)
  then have "sum_list (map ?f ?ws) = sum_list (map ?f (take w ?ws)) + ?f (?ws ! w) + sum_list (map ?f (drop (Suc w) ?ws))"
    and "sum_list (map ?f (?ws[w := x])) = sum_list (map ?f (take w ?ws)) + ?f x + sum_list (map ?f (drop (Suc w) ?ws))"
    by (metis list.map(2) map_append sum_list.Cons sum_list.append ab_semigroup_add_class.add_ac(1))+
  then show ?thesis by (simp add: in_flight_def)
qed

lemma in_flight_frame [simp]:
  "in_flight (p\<lparr>pl_queue := q\<rparr>) = in_flight p"
  "in_flight (p\<lparr>pl_accepted := a\<rparr>) = in_flight p"
  "in_flight (p\<lparr>pl_taken := t\<rparr>) = in_flight p"
  "in_flight (p\<lparr>pl_finished := f\<rparr>) = in_flight p"
  "in_flight (p\<lparr>pl_cancelled := b\<rparr>) = in_flight p"
  by (simp_all add: in_flight_def)

lemma pool_step_inv:
  assumes inv: "pool_inv p" and step: "pool_step m p = Some p'"
  shows "pool_inv p'"
proof (cases m)
  case (M_Enqueue k)
  show ?thesis
  proof (cases "\<exists>q. enqueue k (pl_queue p) = Return (q, None)")
    case True
    then obtain q where q: "enqueue k (pl_queue p) = Return (q, None)" by blast
    with step M_Enqueue have "p' = p\<lparr>pl_queue := q, pl_accepted := pl_accepted p @ [k]\<rparr>" by simp
    with inv chan.enq_accepts [OF q] chan.enq_invar [OF _ q] show ?thesis by (simp add: pool_inv_def)
  next
    case False
    with step M_Enqueue have "p' = p" by (auto split: outcome.splits option.splits)
    with inv show ?thesis by simp
  qed
next
  case (M_Take w)
  with step obtain q k where w: "w < length (pl_workers p)" "pl_workers p ! w = Waiting"
    and d: "dequeue (pl_queue p) = (q, Delivered k)"
    and p': "p' = p\<lparr>pl_queue := q, pl_workers := (pl_workers p)[w := Processing k],
                       pl_taken := pl_taken p @ [k]\<rparr>"
    by (auto split: if_splits prod.splits delivery.splits)
  have "in_flight p' = in_flight p + {#k#}"
    using in_flight_update [OF w(1), of "Processing k"] w(2)
    unfolding p' by (simp add: in_flight_def)
  with inv chan.deq_delivers [OF d] chan.deq_invar [of "pl_queue p"] d show ?thesis
    by (simp add: pool_inv_def p')
next
  case (M_Finish w r)
  with step obtain k where w: "w < length (pl_workers p)" "pl_workers p ! w = Processing k"
    and p': "p' = p\<lparr>pl_workers := (pl_workers p)[w := Waiting], pl_finished := pl_finished p @ [(k, r)]\<rparr>"
    by (auto split: if_splits worker_state.splits)
  have "in_flight p' + {#k#} = in_flight p"
    using in_flight_update [OF w(1), of Waiting] w(2) unfolding p' by (simp add: in_flight_def)
  with inv show ?thesis unfolding pool_inv_def p' by simp
next
  case (M_Stop w)
  with step have w: "w < length (pl_workers p)" "pl_workers p ! w = Waiting"
    and p': "p' = p\<lparr>pl_workers := (pl_workers p)[w := Stopped]\<rparr>"
    by (auto split: if_splits)
  with inv in_flight_update [OF w(1), of Stopped] show ?thesis by (simp add: pool_inv_def)
qed (use inv step in \<open>auto simp: pool_inv_def queue_close_def queue_inv_def queue_len_def split: if_splits\<close>)

lemma sum_list_empties [simp]: "sum_list (replicate n {#}) = ({#} :: string multiset)"
  by (induction n) simp_all

lemma new_pool_inv: "queue_inv q \<Longrightarrow> q_buf q = [] \<Longrightarrow> pool_inv (new_pool n q)"
  by (simp add: pool_inv_def new_pool_def in_flight_def)

lemma pool_reach_inv: "pool_reach p p' \<Longrightarrow> pool_inv p \<Longrightarrow> pool_inv p'"
  by (induction rule: pool_reach.induct) (blast intro: pool_step_inv)+

lemma pool_step_workers: "pool_step m p = Some p' \<Longrightarrow> length (pl_workers p') = length (pl_workers p)"
  by (cases m) (auto split: outcome.splits option.splits if_splits prod.splits delivery.splits
      worker_state.splits)

lemma pool_reach_workers: "pool_reach p p' \<Longrightarrow> length (pl_workers p') = length (pl_workers p)"
  by (induction rule: pool_reach.induct) (auto dest: pool_step_workers)

subsection \<open>What the pool guarantees\<close>

lemma pool_step_cancelled: "pool_step m p = Some p' \<Longrightarrow> pl_cancelled p \<Longrightarrow> pl_cancelled p'"
  by (cases m) (auto split: outcome.splits option.splits if_splits prod.splits delivery.splits
      worker_state.splits)

text \<open>Without a cancelled context a worker only stops at the end of the queue.\<close>

definition stops_ok :: "pool \<Rightarrow> bool" where
  "stops_ok p =
     (pl_cancelled p \<or> Stopped \<notin> set (pl_workers p) \<or>
      q_closed (pl_queue p) \<and> q_buf (pl_queue p) = [])"

lemma pool_step_stops_ok:
  assumes "stops_ok p" and "pool_step m p = Some p'"
  shows "stops_ok p'"
proof (cases m)
  case (M_Enqueue k)
  with assms show ?thesis
    by (auto simp: stops_ok_def enqueue_def split: outcome.splits option.splits if_splits)
next
  case M_Close
  with assms show ?thesis by (auto simp: stops_ok_def queue_close_def split: if_splits)
next
  case (M_Take w)
  with assms show ?thesis
    by (auto simp: stops_ok_def dequeue_def in_set_conv_nth nth_list_update
        split: if_splits list.splits)
next
  case (M_Finish w r)
  with assms show ?thesis
    by (auto simp: stops_ok_def in_set_conv_nth nth_list_update
        split: if_splits worker_state.splits)
next
  case (M_Stop w)
  with assms show ?thesis
    by (auto simp: stops_ok_def dequeue_def split: if_splits list.splits)
qed (use assms in \<open>auto simp: stops_ok_def\<close>)

lemma pool_reach_stops_ok: "pool_reach p p' \<Longrightarrow> stops_ok p \<Longrightarrow> stops_ok p'"
  by (induction rule: pool_reach.induct) (blast intro: pool_step_stops_ok)+

lemma new_pool_stops_ok: "stops_ok (new_pool n q)"
  by (simp add: stops_ok_def new_pool_def)

lemma pool_conserves_jobs_aux: "pool_reach (new_pool n (queue_new m)) p \<Longrightarrow> pool_inv p"
  by (erule pool_reach_inv, intro new_pool_inv queue_new_inv) (simp add: queue_new_def)

text \<open>
  C7: in every state the pool can reach, by any interleaving of clients, workers, close and cancel
  and whatever each job does, panics included: the ids taken so far followed by the ids still
  buffered are the accepted ids in their order of acceptance, every taken id is being processed by
  exactly one worker or finished exactly once, and the number of workers never changes.
\<close>

theorem pool_conserves_jobs:
  assumes "pool_reach (new_pool n (queue_new m)) p"
  shows "pl_accepted p = pl_taken p @ q_buf (pl_queue p) \<and>
    mset (pl_taken p) = in_flight p + mset (map fst (pl_finished p)) \<and>
    length (pl_workers p) = (if n \<le> 0 then 1 else nat n) \<and>
    queue_len (pl_queue p) \<le> q_cap (pl_queue p)"
  using pool_conserves_jobs_aux [OF assms] pool_reach_workers [OF assms]
  by (simp add: pool_inv_def queue_inv_def new_pool_def)


text \<open>
  The pool never wedges.  While a job is buffered and some worker has not stopped, some worker
  can move: a waiting one takes the oldest job, a busy one returns to its loop whatever its job did.
\<close>

theorem pool_progress:
  assumes "pool_reach (new_pool n (queue_new m)) p"
    and "q_buf (pl_queue p) = k # ks" and "w < length (pl_workers p)" and "pl_workers p ! w \<noteq> Stopped"
  shows "(\<exists>p'. pool_step (M_Take w) p = Some p' \<and> pl_taken p' = pl_taken p @ [k]) \<or>
    (\<forall>r. \<exists>p'. pool_step (M_Finish w r) p = Some p' \<and> pl_workers p' ! w = Waiting)"
  using assms(2-) by (cases "pl_workers p ! w") (auto simp: dequeue_def)

subsection \<open>Concrete runs\<close>

text \<open>One worker, one slot: a job is accepted, a second refused, the first panics, shutdown.\<close>

definition sample_moves :: "pool_move list" where
  "sample_moves = [M_Enqueue ''a'', M_Enqueue ''b'', M_Take 0, M_Finish 0 Proc_Panic, M_Close, M_Stop 0]"

fun run_moves :: "pool_move list \<Rightarrow> pool \<Rightarrow> pool option" where
  "run_moves [] p = Some p"
| "run_moves (m # ms) p = (case pool_step m p of None \<Rightarrow> None | Some p' \<Rightarrow> run_moves ms p')"

lemma run_moves_reach: "pool_reach p0 p \<Longrightarrow> run_moves ms p = Some p' \<Longrightarrow> pool_reach p0 p'"
  by (induction ms arbitrary: p) (auto intro: reach_move split: option.splits)

definition sample_pool :: "nat \<Rightarrow> pool" where
  "sample_pool i = the (run_moves (take i sample_moves) (new_pool 1 (queue_new 0)))"

lemma sample_pool_reach: "i \<le> 6 \<Longrightarrow> pool_reach (new_pool 1 (queue_new 0)) (sample_pool i)"
proof -
  assume "i \<le> 6"
  then have "i \<in> {0, 1, 2, 3, 4, 5, 6}" by auto
  then have "run_moves (take i sample_moves) (new_pool 1 (queue_new 0)) \<noteq> None"
    by (elim insertE emptyE; simp only:; code_simp)
  then have "run_moves (take i sample_moves) (new_pool 1 (queue_new 0)) = Some (sample_pool i)"
    by (auto simp: sample_pool_def)
  with run_moves_reach [OF reach_start] show ?thesis by blast
qed

theorem pool_conserves_jobs_witness:
  "pl_accepted (sample_pool 3) = [''a''] \<and> in_flight (sample_pool 3) = {#''a''#} \<and>
   mset (pl_taken (sample_pool 3)) = {#''a''#}"
proof -
  have "pl_accepted (sample_pool 3) = [''a'']" "q_buf (pl_queue (sample_pool 3)) = []"
    "pl_finished (sample_pool 3) = []" "pl_taken (sample_pool 3) = [''a'']" by code_simp+
  with pool_conserves_jobs [OF sample_pool_reach [of 3]] show ?thesis by simp
qed


theorem pool_progress_witness:
  "\<exists>p'. pool_step (M_Take 0) (sample_pool 1) = Some p' \<and> pl_taken p' = [''a'']"
proof -
  have st: "q_buf (pl_queue (sample_pool 1)) = [''a'']" "pl_workers (sample_pool 1) = [Waiting]"
    "pl_taken (sample_pool 1) = []" by code_simp+
  from pool_progress [OF sample_pool_reach [of 1] st(1), of 0] st show ?thesis by simp
qed

end
