(* ===== verification/Recovery.thy ===== *)
theory Recovery
  imports Processor_Props Queue_Worker
begin

text \<open>
  \<open>internal/orchestration/recovery.go\<close>: what the next process does with the jobs the last one left.
  The store is the file store, whose \<open>List\<close> cannot fail; the queue is the bounded channel.
\<close>

subsection \<open>The recoverer\<close>

record 'w recoverer =
  r_codec :: json_codec
  r_now :: "'w \<Rightarrow> 'w \<times> time"
  r_os :: "'w \<Rightarrow> 'w \<times> os_env"
  r_queue :: bool
  r_bus :: bool
  r_cleanup :: "(workspace \<Rightarrow> 'w \<Rightarrow> 'w \<times> go_err option) option"
  r_stat :: "string \<Rightarrow> 'w \<Rightarrow> bool"
  r_base_dir :: string

record 'w recovery =
  rv_world :: 'w
  rv_pb :: persisting_bus
  rv_queue :: job_queue

record recovery_report =
  rr_requeued :: nat
  rr_failed :: nat
  rr_reclaimed :: nat
  rr_unqueueable :: nat

definition empty_recovery :: recovery_report where
  "empty_recovery = \<lparr>rr_requeued = 0, rr_failed = 0, rr_reclaimed = 0, rr_unqueueable = 0\<rparr>"

definition report_is_zero :: "recovery_report \<Rightarrow> bool" where
  "report_is_zero r =
     (rr_requeued r = 0 \<and> rr_failed r = 0 \<and> rr_reclaimed r = 0 \<and> rr_unqueueable r = 0)"

fun is_interrupted :: "job_status \<Rightarrow> bool" where
  "is_interrupted StatusPlanning = True"
| "is_interrupted StatusPreparingWorkspace = True"
| "is_interrupted StatusImplementing = True"
| "is_interrupted StatusVerifying = True"
| "is_interrupted StatusReviewing = True"
| "is_interrupted StatusWaitingForRevision = True"
| "is_interrupted _ = False"

text \<open>The identifiers under which a run of the job may have made worktrees.\<close>

definition reclaim_ids :: "string \<Rightarrow> string list" where
  "reclaim_ids k = k # map (\<lambda>i. variant_id k i max_variants) [0..<nat max_variants]"

fun reclaim_each ::
    "'w recoverer \<Rightarrow> (workspace \<Rightarrow> 'w \<Rightarrow> 'w \<times> go_err option) \<Rightarrow> string \<Rightarrow> string list \<Rightarrow> bool \<Rightarrow> 'w \<Rightarrow> 'w \<times> bool" where
  "reclaim_each r cleanup repo [] reclaimed w = (w, reclaimed)"
| "reclaim_each r cleanup repo (k # ks) reclaimed w =
     (let ws = reconstruct (r_base_dir r) k repo in
      if \<not> r_stat r (ws_path ws) w then reclaim_each r cleanup repo ks reclaimed w
      else case cleanup ws w of
        (w', Some e) \<Rightarrow> reclaim_each r cleanup repo ks reclaimed w'
      | (w', None) \<Rightarrow> reclaim_each r cleanup repo ks True w')"

definition reclaim_worktree :: "'w recoverer \<Rightarrow> job \<Rightarrow> 'w \<Rightarrow> 'w \<times> bool" where
  "reclaim_worktree r j w =
     (case r_cleanup r of
        None \<Rightarrow> (w, False)
      | Some cleanup \<Rightarrow>
          if r_base_dir r = [] \<or> repo_path j = [] then (w, False)
          else reclaim_each r cleanup (repo_path j) (reclaim_ids (job_id j)) False w)"

definition interrupted_event :: "job \<Rightarrow> event" where
  "interrupted_event j =
     \<lparr>ev_job_id = job_id j, ev_type = TypeJobFailed,
      ev_payload = [(''error'', JStr (''interrupted in '' @ status_string (status j) @ '' by a restart'')),
                    (''reason'', JStr ''recovery'')],
      ev_created_at = 0\<rparr>"

definition announce :: "'w recoverer \<Rightarrow> event \<Rightarrow> 'w recovery \<Rightarrow> 'w recovery \<times> unit outcome" where
  "announce r e s =
     (if \<not> r_bus r then (s, Return ())
      else case r_os r (rv_world s) of (w1, env) \<Rightarrow> (case r_now r w1 of (w2, now) \<Rightarrow>
        (case pb_publish (r_codec r) env now e (rv_pb s) of
           (pb, Return _) \<Rightarrow> (s\<lparr>rv_world := w2, rv_pb := pb\<rparr>, Return ())
         | (pb, Panic q) \<Rightarrow> (s\<lparr>rv_world := w2, rv_pb := pb\<rparr>, Panic q))))"

definition fail_interrupted :: "'w recoverer \<Rightarrow> job \<Rightarrow> 'w recovery \<Rightarrow> 'w recovery \<times> go_err option outcome" where
  "fail_interrupted r j s =
     (case r_now r (rv_world s) of (w, now) \<Rightarrow>
        (case transition now StatusFailed j of
           (Some e, _) \<Rightarrow>
             (s\<lparr>rv_world := w\<rparr>,
              Return (Some (Errorf ''transition %s -> failed: %w'' [FStr (status_string (status j)), FW e])))
         | (None, j') \<Rightarrow>
             (case announce r (interrupted_event j) (s\<lparr>rv_world := w\<rparr>) of
                (s1, Panic q) \<Rightarrow> (s1, Panic q)
              | (s1, Return _) \<Rightarrow>
                  (case r_os r (rv_world s1) of (w2, env) \<Rightarrow>
                     (case fs_update (r_codec r) env j' (pb_store (rv_pb s1)) of
                        (st, eo) \<Rightarrow>
                          (s1\<lparr>rv_world := w2, rv_pb := (rv_pb s1)\<lparr>pb_store := st\<rparr>\<rparr>,
                           Return (map_option (\<lambda>e. Errorf ''persist failed status: %w'' [FW e]) eo)))))))"

definition recover_one ::
    "'w recoverer \<Rightarrow> job \<Rightarrow> recovery_report \<Rightarrow> 'w recovery \<Rightarrow> 'w recovery \<times> recovery_report outcome" where
  "recover_one r j rep s =
     (if status j = StatusQueued then
        (if \<not> r_queue r then (s, Return rep)
         else case enqueue (job_id j) (rv_queue s) of
           Panic q \<Rightarrow> (s, Panic q)
         | Return (q, Some e) \<Rightarrow> (s\<lparr>rv_queue := q\<rparr>, Return (rep\<lparr>rr_unqueueable := Suc (rr_unqueueable rep)\<rparr>))
         | Return (q, None) \<Rightarrow> (s\<lparr>rv_queue := q\<rparr>, Return (rep\<lparr>rr_requeued := Suc (rr_requeued rep)\<rparr>)))
      else if is_interrupted (status j) then
        (case reclaim_worktree r j (rv_world s) of (w, reclaimed) \<Rightarrow>
          let rep1 = (if reclaimed then rep\<lparr>rr_reclaimed := Suc (rr_reclaimed rep)\<rparr> else rep) in
          (case fail_interrupted r j (s\<lparr>rv_world := w\<rparr>) of
             (s', Panic q) \<Rightarrow> (s', Panic q)
           | (s', Return (Some e)) \<Rightarrow> (s', Return rep1)
           | (s', Return None) \<Rightarrow> (s', Return (rep1\<lparr>rr_failed := Suc (rr_failed rep1)\<rparr>))))
      else (s, Return rep))"

fun recover_from ::
    "'w recoverer \<Rightarrow> job list \<Rightarrow> recovery_report \<Rightarrow> 'w recovery \<Rightarrow> 'w recovery \<times> recovery_report outcome" where
  "recover_from r [] rep s = (s, Return rep)"
| "recover_from r (j # js) rep s =
     (case recover_one r j rep s of
        (s', Return rep') \<Rightarrow> recover_from r js rep' s'
      | (s', Panic q) \<Rightarrow> (s', Panic q))"

definition recover :: "'w recoverer \<Rightarrow> 'w recovery \<Rightarrow> 'w recovery \<times> recovery_report outcome" where
  "recover r s = recover_from r (fs_list (pb_store (rv_pb s))) empty_recovery s"

subsection \<open>What it leaves\<close>

lemma interrupted_iff: "is_interrupted st \<longleftrightarrow> \<not> terminal st \<and> st \<noteq> StatusQueued"
  by (cases st) simp_all

definition steady_recoverer :: "'w recoverer \<Rightarrow> bool" where
  "steady_recoverer r = ((\<forall>w. writable (snd (r_os r w))) \<and> (\<forall>j. enc_job (r_codec r) j \<noteq> None))"

text \<open>The index of the store, and what recovery needs of the bus and the queue.\<close>

definition jobs_of :: "'w recovery \<Rightarrow> string \<Rightarrow> job option" where
  "jobs_of s = aget (st_index (pb_store (rv_pb s)))"

definition ready :: "'w recovery \<Rightarrow> bool" where
  "ready s = (bus_inv (pb_inner (rv_pb s)) \<and> \<not> q_closed (rv_queue s))"

lemma announce_spec:
  assumes "ready s"
  shows "\<exists>s'. announce r e s = (s', Return ()) \<and> ready s' \<and> jobs_of s' = jobs_of s \<and> rv_queue s' = rv_queue s"
proof -
  obtain w1 env where os: "r_os r (rv_world s) = (w1, env)" by (cases "r_os r (rv_world s)")
  obtain w2 now where now: "r_now r w1 = (w2, now)" by (cases "r_now r w1")
  obtain pb oc where pub: "pb_publish (r_codec r) env now e (rv_pb s) = (pb, oc)"
    by (cases "pb_publish (r_codec r) env now e (rv_pb s)")
  have b: "bus_inv (pb_inner (rv_pb s))" using assms by (simp add: ready_def)
  from pb_publish_no_panic [OF b, of "r_codec r" env now e] pub obtain eo where "oc = Return eo" by auto
  with os now pub assms publish_bus_inv [OF b, of "r_codec r" env now e]
    pb_publish_index [of "r_codec r" env now e "rv_pb s"]
  show ?thesis by (auto simp: announce_def ready_def jobs_of_def)
qed

lemma fail_interrupted_spec:
  assumes st: "steady_recoverer r" and s: "ready s" and j: "jobs_of s (job_id j) \<noteq> None"
    and i: "is_interrupted (status j)"
  shows "\<exists>s' t. fail_interrupted r j s = (s', Return None) \<and> ready s' \<and> rv_queue s' = rv_queue s \<and>
    jobs_of s' = (jobs_of s)(job_id j \<mapsto> j\<lparr>status := StatusFailed, updated_at := t\<rparr>)"
proof -
  obtain w now where now: "r_now r (rv_world s) = (w, now)" by (cases "r_now r (rv_world s)")
  let ?j = "j\<lparr>status := StatusFailed, updated_at := now\<rparr>"
  have tr: "transition now StatusFailed j = (None, ?j)"
    using i nonterminal_can_fail by (simp add: interrupted_iff transition_ok)
  have "ready (s\<lparr>rv_world := w\<rparr>)" using s by (simp add: ready_def)
  from announce_spec [OF this, of r "interrupted_event j"] obtain s1 where
    a: "announce r (interrupted_event j) (s\<lparr>rv_world := w\<rparr>) = (s1, Return ())" "ready s1"
    "jobs_of s1 = jobs_of s" "rv_queue s1 = rv_queue s" by (auto simp: jobs_of_def)
  obtain w2 env where os: "r_os r (rv_world s1) = (w2, env)" by (cases "r_os r (rv_world s1)")
  have "writable env" using st os by (metis snd_conv steady_recoverer_def)
  moreover have "enc_job (r_codec r) ?j \<noteq> None" using st by (simp add: steady_recoverer_def)
  moreover have "aget (st_index (pb_store (rv_pb s1))) (job_id ?j) \<noteq> None" using j a(3) by (simp add: jobs_of_def)
  ultimately obtain st' where u: "fs_update (r_codec r) env ?j (pb_store (rv_pb s1)) = (st', None)"
    using fs_update_steady by blast
  then have "aget (st_index st') = (aget (st_index (pb_store (rv_pb s1))))(job_id j \<mapsto> ?j)"
    by (auto simp: fs_update_def split: if_splits prod.splits option.splits)
  with now tr a os u show ?thesis
    by (auto simp: fail_interrupted_def jobs_of_def ready_def)
qed

text \<open>What recovery makes of one job: \<open>j'\<close> for \<open>j\<close>.\<close>

definition recovered_job :: "job \<Rightarrow> job \<Rightarrow> bool" where
  "recovered_job j j' =
     (if is_interrupted (status j) then \<exists>t. j' = j\<lparr>status := StatusFailed, updated_at := t\<rparr> else j' = j)"

text \<open>What one round does to the state and the report.\<close>

definition round_ok :: "'w recoverer \<Rightarrow> job \<Rightarrow> recovery_report \<Rightarrow> 'w recovery \<Rightarrow> recovery_report \<Rightarrow> 'w recovery \<Rightarrow> bool" where
  "round_ok r j rep s rep1 s1 =
     (ready s1 \<and> (\<exists>j'. jobs_of s1 (job_id j) = Some j' \<and> recovered_job j j') \<and>
      (\<forall>k. k \<noteq> job_id j \<longrightarrow> jobs_of s1 k = jobs_of s k) \<and>
      rr_failed rep1 = rr_failed rep + (if is_interrupted (status j) then 1 else 0) \<and>
      (r_queue r \<longrightarrow> q_cap (rv_queue s1) = q_cap (rv_queue s) \<and>
        q_buf (rv_queue s1) = q_buf (rv_queue s) @
          (if status j = StatusQueued \<and> length (q_buf (rv_queue s)) < q_cap (rv_queue s) then [job_id j] else [])))"

lemma recover_one_spec:
  assumes st: "steady_recoverer r" and s: "ready s" and j: "jobs_of s (job_id j) = Some j"
  shows "\<exists>s1 rep1. recover_one r j rep s = (s1, Return rep1) \<and> round_ok r j rep s rep1 s1"
proof -
  consider (queued) "status j = StatusQueued" | (cut) "is_interrupted (status j)"
    | (other) "status j \<noteq> StatusQueued" "\<not> is_interrupted (status j)" by blast
  then show ?thesis
  proof cases
    case queued
    with s j show ?thesis
      by (cases "r_queue r"; cases "length (q_buf (rv_queue s)) < q_cap (rv_queue s)")
        (simp_all add: recover_one_def enqueue_def ready_def recovered_job_def jobs_of_def round_ok_def)
  next
    case cut
    obtain w rc where w: "reclaim_worktree r j (rv_world s) = (w, rc)" by (cases "reclaim_worktree r j (rv_world s)")
    have "ready (s\<lparr>rv_world := w\<rparr>)" using s by (simp add: ready_def)
    from fail_interrupted_spec [OF st this _ cut] j obtain s' t where
      f: "fail_interrupted r j (s\<lparr>rv_world := w\<rparr>) = (s', Return None)" "ready s'" "rv_queue s' = rv_queue s"
      "jobs_of s' = (jobs_of s)(job_id j \<mapsto> j\<lparr>status := StatusFailed, updated_at := t\<rparr>)"
      by (auto simp: jobs_of_def)
    have "status j \<noteq> StatusQueued" using cut by auto
    with cut w f show ?thesis
      by (cases rc) (auto simp: recover_one_def recovered_job_def round_ok_def)
  next
    case other
    with s j show ?thesis by (simp add: recover_one_def recovered_job_def round_ok_def)
  qed
qed

lemma take_room:
  assumes "length b < c"
  shows "take (c - length b) (x # xs) = x # take (c - Suc (length b)) xs"
  using assms by (simp add: take_Cons')

text \<open>The same for a whole list of jobs.\<close>

definition batch_ok ::
    "'w recoverer \<Rightarrow> job list \<Rightarrow> recovery_report \<Rightarrow> 'w recovery \<Rightarrow> recovery_report \<Rightarrow> 'w recovery \<Rightarrow> bool" where
  "batch_ok r js rep s rep' s' =
     (ready s' \<and>
      (\<forall>j \<in> set js. \<exists>j'. jobs_of s' (job_id j) = Some j' \<and> recovered_job j j') \<and>
      (\<forall>k. k \<notin> job_id ` set js \<longrightarrow> jobs_of s' k = jobs_of s k) \<and>
      rr_failed rep' = rr_failed rep + length (filter (\<lambda>j. is_interrupted (status j)) js) \<and>
      (r_queue r \<longrightarrow>
        q_cap (rv_queue s') = q_cap (rv_queue s) \<and>
        q_buf (rv_queue s') = q_buf (rv_queue s) @
          take (q_cap (rv_queue s) - length (q_buf (rv_queue s)))
            (map job_id (filter (\<lambda>j. status j = StatusQueued) js))))"

lemma batch_step:
  assumes one: "round_ok r j rep s rep1 s1" and rest: "batch_ok r js rep1 s1 rep' s'"
    and fresh: "job_id j \<notin> job_id ` set js"
  shows "batch_ok r (j # js) rep s rep' s'"
proof -
  have q: "r_queue r \<longrightarrow> q_cap (rv_queue s') = q_cap (rv_queue s) \<and>
      q_buf (rv_queue s') = q_buf (rv_queue s) @ take (q_cap (rv_queue s) - length (q_buf (rv_queue s)))
        (map job_id (filter (\<lambda>j. status j = StatusQueued) (j # js)))"
    using one rest
    by (cases "status j = StatusQueued"; cases "length (q_buf (rv_queue s)) < q_cap (rv_queue s)")
      (simp_all add: take_room round_ok_def batch_ok_def)
  have "jobs_of s' (job_id j) = jobs_of s1 (job_id j)" using rest fresh by (simp add: batch_ok_def)
  then have jj: "\<forall>i \<in> set (j # js). \<exists>j'. jobs_of s' (job_id i) = Some j' \<and> recovered_job i j'"
    using one rest by (simp add: round_ok_def batch_ok_def)
  have oth: "\<forall>k. k \<notin> job_id ` set (j # js) \<longrightarrow> jobs_of s' k = jobs_of s k"
    using one rest by (simp add: round_ok_def batch_ok_def)
  have "rr_failed rep' = rr_failed rep + length (filter (\<lambda>j. is_interrupted (status j)) (j # js))"
    using one rest by (simp add: round_ok_def batch_ok_def)
  moreover have "ready s'" using rest by (simp add: batch_ok_def)
  ultimately show ?thesis using q jj oth unfolding batch_ok_def by blast
qed

lemma recover_from_spec:
  assumes st: "steady_recoverer r"
  shows "ready s \<Longrightarrow> distinct (map job_id js) \<Longrightarrow> (\<And>j. j \<in> set js \<Longrightarrow> jobs_of s (job_id j) = Some j) \<Longrightarrow>
    \<exists>s' rep'. recover_from r js rep s = (s', Return rep') \<and> batch_ok r js rep s rep' s'"
proof (induction js arbitrary: s rep)
  case Nil
  then show ?case by (simp add: batch_ok_def)
next
  case (Cons j js)
  from Cons.prems have j: "jobs_of s (job_id j) = Some j" and fresh: "job_id j \<notin> job_id ` set js"
    and d: "distinct (map job_id js)" by auto
  from recover_one_spec [OF st Cons.prems(1) j, of rep] obtain s1 rep1 where
    one: "recover_one r j rep s = (s1, Return rep1)" and ok: "round_ok r j rep s rep1 s1" by blast
  have r1: "ready s1" using ok by (simp add: round_ok_def)
  have h: "jobs_of s1 (job_id i) = Some i" if "i \<in> set js" for i
  proof -
    have "job_id i \<noteq> job_id j" using fresh that by (metis imageI)
    then show ?thesis using ok Cons.prems(3) that by (simp add: round_ok_def)
  qed
  from Cons.IH [OF r1 d h, of rep1] obtain s' rep' where
    "recover_from r js rep1 s1 = (s', Return rep')" "batch_ok r js rep1 s1 rep' s'" by blast
  with one batch_step [OF ok _ fresh] show ?case by auto
qed

text \<open>The store is a repository, so its listing is the whole index, each job once.\<close>

lemma listing:
  assumes "keyed (st_index (pb_store (rv_pb s)))"
  shows "distinct (map job_id (fs_list (pb_store (rv_pb s))))"
    and "j \<in> set (fs_list (pb_store (rv_pb s))) \<longleftrightarrow> jobs_of s (job_id j) = Some j"
  using assms fs.list_distinct [of "pb_store (rv_pb s)"] fs.list_complete [of "pb_store (rv_pb s)" j]
  by (simp_all add: jobs_of_def)

lemma jobs_of_keyed: "keyed (st_index (pb_store (rv_pb s))) \<Longrightarrow> jobs_of s k = Some j \<Longrightarrow> job_id j = k"
  using keyed_aget by (simp add: jobs_of_def)

lemma recover_settles:
  assumes "steady_recoverer r" and "ready s" and "keyed (st_index (pb_store (rv_pb s)))"
  shows "\<exists>s' rep. recover r s = (s', Return rep) \<and> ready s' \<and>
    (r_queue r \<longrightarrow> q_cap (rv_queue s') = q_cap (rv_queue s)) \<and>
    (\<forall>k j. jobs_of s k = Some j \<longrightarrow>
       (if is_interrupted (status j) then \<exists>t. jobs_of s' k = Some (j\<lparr>status := StatusFailed, updated_at := t\<rparr>)
        else jobs_of s' k = Some j)) \<and>
    (\<forall>k. jobs_of s k = None \<longrightarrow> jobs_of s' k = None) \<and>
    (\<forall>k j. jobs_of s' k = Some j \<longrightarrow> status j = StatusQueued \<or> terminal (status j)) \<and>
    rr_failed rep = length (filter (\<lambda>j. is_interrupted (status j)) (fs_list (pb_store (rv_pb s)))) \<and>
    (r_queue r \<longrightarrow> q_buf (rv_queue s') = q_buf (rv_queue s) @
       take (q_cap (rv_queue s) - length (q_buf (rv_queue s)))
         (map job_id (filter (\<lambda>j. status j = StatusQueued) (fs_list (pb_store (rv_pb s))))))"
proof -
  let ?js = "fs_list (pb_store (rv_pb s))"
  have each: "jobs_of s (job_id j) = Some j" if "j \<in> set ?js" for j
    using that listing(2) [OF assms(3)] by simp
  from recover_from_spec [OF assms(1,2) listing(1) [OF assms(3)] each, of empty_recovery] obtain s' rep where
    run: "recover r s = (s', Return rep)" and b: "batch_ok r ?js empty_recovery s rep s'"
    unfolding recover_def by blast
  have was: "(if is_interrupted (status j) then \<exists>t. jobs_of s' k = Some (j\<lparr>status := StatusFailed, updated_at := t\<rparr>)
      else jobs_of s' k = Some j)" if "jobs_of s k = Some j" for k j
  proof -
    from that have k: "job_id j = k" by (rule jobs_of_keyed [OF assms(3)])
    with that have "j \<in> set ?js" using listing(2) [OF assms(3)] by simp
    with b k obtain j' where "jobs_of s' k = Some j'" "recovered_job j j'" by (auto simp: batch_ok_def)
    then show ?thesis by (auto simp: recovered_job_def)
  qed
  have new: "jobs_of s' k = None" if "jobs_of s k = None" for k
  proof -
    have "k \<notin> job_id ` set ?js" using that each by auto
    with b that show ?thesis by (simp add: batch_ok_def)
  qed
  have settled: "status j' = StatusQueued \<or> terminal (status j')" if "jobs_of s' k = Some j'" for k j'
  proof (cases "jobs_of s k")
    case None
    with new that show ?thesis by simp
  next
    case (Some j)
    from was [OF this] that show ?thesis
      by (cases "is_interrupted (status j)") (auto simp: interrupted_iff)
  qed
  show ?thesis
    using run b was new settled
    by (intro exI [of _ s'] exI [of _ rep]) (simp add: batch_ok_def empty_recovery_def)
qed

text \<open>
  C11: after a restart, with a disk that accepts writes and a queue that is open, recovery returns;
  every job that was interrupted is failed, every other job is as it was, no job is left in the
  middle of a run, and the queue holds, behind what it held, the queued jobs in the order of the
  listing, as many as there is room for.
\<close>

theorem recovery_settles_every_job:
  assumes "steady_recoverer r" and "ready s" and "keyed (st_index (pb_store (rv_pb s)))"
  shows "\<exists>s' rep. recover r s = (s', Return rep) \<and>
    (\<forall>k j. jobs_of s k = Some j \<longrightarrow>
       (if is_interrupted (status j) then \<exists>t. jobs_of s' k = Some (j\<lparr>status := StatusFailed, updated_at := t\<rparr>)
        else jobs_of s' k = Some j)) \<and>
    (\<forall>k. jobs_of s k = None \<longrightarrow> jobs_of s' k = None) \<and>
    (\<forall>k j. jobs_of s' k = Some j \<longrightarrow> status j = StatusQueued \<or> terminal (status j)) \<and>
    rr_failed rep = length (filter (\<lambda>j. is_interrupted (status j)) (fs_list (pb_store (rv_pb s)))) \<and>
    (r_queue r \<longrightarrow> q_buf (rv_queue s') = q_buf (rv_queue s) @
       take (q_cap (rv_queue s) - length (q_buf (rv_queue s)))
         (map job_id (filter (\<lambda>j. status j = StatusQueued) (fs_list (pb_store (rv_pb s))))))"
  using recover_settles [OF assms] by blast

text \<open>Two jobs at a restart, one queued and one cut off in the middle of a run.\<close>

definition restart_recoverer :: "unit recoverer" where
  "restart_recoverer =
     \<lparr>r_codec = plain_codec, r_now = (\<lambda>w. (w, 5)), r_os = (\<lambda>w. (w, no_faults)), r_queue = True, r_bus = True,
      r_cleanup = None, r_stat = (\<lambda>_ _. False), r_base_dir = []\<rparr>"

definition restart_state :: "unit recovery" where
  "restart_state =
     \<lparr>rv_world = (),
      rv_pb = \<lparr>pb_inner = new_in_process_bus,
        pb_store = one_job_store\<lparr>st_index :=
          [(''j'', queued_job), (''k'', queued_job\<lparr>job_id := ''k'', status := StatusVerifying\<rparr>)]\<rparr>\<rparr>,
      rv_queue = queue_new 4\<rparr>"

theorem recovery_settles_every_job_witness:
  "\<exists>s' rep t. recover restart_recoverer restart_state = (s', Return rep) \<and>
    jobs_of s' ''j'' = Some queued_job \<and>
    jobs_of s' ''k'' = Some (queued_job\<lparr>job_id := ''k'', status := StatusFailed, updated_at := t\<rparr>)"
proof -
  have a: "steady_recoverer restart_recoverer"
    by (simp add: steady_recoverer_def restart_recoverer_def writable_def no_faults_def plain_codec_def)
  have b: "ready restart_state" by (simp add: ready_def restart_state_def new_bus_inv queue_new_def)
  have c: "keyed (st_index (pb_store (rv_pb restart_state)))"
    by (simp add: restart_state_def keyed_def queued_job_def avalid_def)
  from recovery_settles_every_job [OF a b c] obtain s' rep where
    r: "recover restart_recoverer restart_state = (s', Return rep)" and
    w: "\<forall>k j. jobs_of restart_state k = Some j \<longrightarrow>
       (if is_interrupted (status j) then \<exists>t. jobs_of s' k = Some (j\<lparr>status := StatusFailed, updated_at := t\<rparr>)
        else jobs_of s' k = Some j)" by blast
  have "jobs_of restart_state ''j'' = Some queued_job"
    and "jobs_of restart_state ''k'' = Some (queued_job\<lparr>job_id := ''k'', status := StatusVerifying\<rparr>)"
    by (simp_all add: jobs_of_def restart_state_def)
  from this [THEN w [rule_format]] r show ?thesis by (auto simp: queued_job_def)
qed

text \<open>
  Recovery tries the name of every worktree a run of the job can have made, however many
  variants the job asked for.
\<close>

lemma recovery_names_every_variant:
  "set (map (\<lambda>i. variant_id k i (variant_count n)) [0..<nat (variant_count n)]) \<subseteq> set (reclaim_ids k) \<and>
   distinct (reclaim_ids k)"
proof -
  have v: "variant_id k m max_variants = k @ ''-v'' @ show_nat m" for m
    by (simp add: variant_id_eq max_variants_def)
  have c: "reclaim_ids k = k # map (\<lambda>m. k @ ''-v'' @ show_nat m) [0..<8]"
    by (simp add: reclaim_ids_def v) (simp add: max_variants_def)
  have "distinct (map (\<lambda>m. k @ ''-v'' @ show_nat m) [0..<8])"
    using variant_id_inj [of 8 k] by (auto simp: distinct_map inj_on_def variant_id_eq)
  moreover have "variant_id k i (variant_count n) \<in> set (reclaim_ids k)" if "int i < variant_count n" for i
    using that variant_count_bounds [of n] by (auto simp: c variant_id_eq)
  then have "set (map (\<lambda>i. variant_id k i (variant_count n)) [0..<nat (variant_count n)]) \<subseteq> set (reclaim_ids k)"
    by (auto simp: zless_nat_eq_int_zless)
  ultimately show ?thesis by (auto simp: c)
qed

end
