(* ===== verification/Http.thy ===== *)
theory Http
  imports Jobs Event_Bus Error_Text
begin

text \<open>
  Requests, responses and the middleware of \<open>internal/api/\<close>: \<open>response.go\<close>, \<open>auth.go\<close>, \<open>middleware.go\<close>,
  \<open>recover.go\<close> and \<open>ratelimit.go\<close>.  A handler runs on a response writer and the server's state and may
  panic.  Query values, path values and headers are what \<open>net/http\<close> parsed.
\<close>

subsection \<open>Requests and responses\<close>

record request =
  hq_path :: string
  hq_headers :: "(string, string) amap"
  hq_query :: "(string, string) amap"
  hq_values :: "(string, string) amap"
  hq_remote :: string
  hq_body :: string

definition header_get :: "request \<Rightarrow> string \<Rightarrow> string" where
  "header_get r k = (case aget (hq_headers r) k of None \<Rightarrow> [] | Some v \<Rightarrow> v)"

definition query_get :: "request \<Rightarrow> string \<Rightarrow> string" where
  "query_get r k = (case aget (hq_query r) k of None \<Rightarrow> [] | Some v \<Rightarrow> v)"

definition path_value :: "request \<Rightarrow> string \<Rightarrow> string" where
  "path_value r k = (case aget (hq_values r) k of None \<Rightarrow> [] | Some v \<Rightarrow> v)"

text \<open>What is written as a body: the value handed to the JSON encoder, or text.\<close>

datatype body =
    Body_Job job | Body_Jobs "job list" | Body_Events "event list" | Body_Obj "(string, json) amap"
  | Body_Error string | Body_Text string

text \<open>
  A response writer.  The first status written is the one that is sent, and headers count up to
  then; \<open>wr_recorder\<close> is the \<open>statusRecorder\<close> wrapped around it, if there is one: its status and whether it
  saw the connection taken over.
\<close>

record writer =
  wr_header :: "(string, string) amap"
  wr_status :: "int option"
  wr_body :: "body list"
  wr_recorder :: "(int \<times> bool) option"

definition new_writer :: writer where
  "new_writer = \<lparr>wr_header = [], wr_status = None, wr_body = [], wr_recorder = None\<rparr>"

definition set_header :: "string \<Rightarrow> string \<Rightarrow> writer \<Rightarrow> writer" where
  "set_header k v w = (if wr_status w = None then w\<lparr>wr_header := aput k v (wr_header w)\<rparr> else w)"

text \<open>\<open>statusRecorder.WriteHeader\<close> over the server's writer.\<close>

definition write_header :: "int \<Rightarrow> writer \<Rightarrow> writer" where
  "write_header code w =
     w\<lparr>wr_recorder := map_option (\<lambda>(old, h). (code, h)) (wr_recorder w),
       wr_status := (case wr_status w of None \<Rightarrow> Some code | Some c \<Rightarrow> Some c)\<rparr>"

definition write_body :: "body \<Rightarrow> writer \<Rightarrow> writer" where
  "write_body b w =
     w\<lparr>wr_status := (case wr_status w of None \<Rightarrow> Some 200 | Some c \<Rightarrow> Some c), wr_body := wr_body w @ [b]\<rparr>"

definition write_json :: "int \<Rightarrow> body \<Rightarrow> writer \<Rightarrow> writer" where
  "write_json code b w = write_body b (write_header code (set_header ''Content-Type'' ''application/json'' w))"

definition write_json_error :: "int \<Rightarrow> string \<Rightarrow> writer \<Rightarrow> writer" where
  "write_json_error code msg w = write_json code (Body_Error msg) w"

type_synonym 's handler = "request \<Rightarrow> writer \<times> 's \<Rightarrow> (writer \<times> 's) \<times> unit outcome"

definition respond :: "(writer \<Rightarrow> writer) \<Rightarrow> writer \<times> 's \<Rightarrow> (writer \<times> 's) \<times> unit outcome" where
  "respond f ws = (case ws of (w, s) \<Rightarrow> ((f w, s), Return ()))"

definition ok_json :: "int \<Rightarrow> body \<Rightarrow> writer \<times> 's \<Rightarrow> (writer \<times> 's) \<times> unit outcome" where
  "ok_json code b = respond (write_json code b)"

definition fail_json :: "int \<Rightarrow> string \<Rightarrow> writer \<times> 's \<Rightarrow> (writer \<times> 's) \<times> unit outcome" where
  "fail_json code msg = respond (write_json_error code msg)"

lemmas respond_defs = respond_def ok_json_def fail_json_def write_json_error_def

subsection \<open>Authentication (\<open>auth.go\<close>)\<close>

definition health_path :: string where
  "health_path = ''/healthz''"

definition token_auth :: "string \<Rightarrow> 's handler \<Rightarrow> 's handler" where
  "token_auth expected nxt r ws =
     (if hq_path r = health_path then nxt r ws
      else let header = header_get r ''Authorization''; token = trim_prefix header ''Bearer '' in
        if token = header \<or> token \<noteq> expected then fail_json 401 ''unauthorized'' ws
        else nxt r ws)"

lemma bearer_token:
  "(trim_prefix h ''Bearer '' = h \<or> trim_prefix h ''Bearer '' \<noteq> e) = (h \<noteq> ''Bearer '' @ e)"
proof (cases "has_prefix h ''Bearer ''")
  case True
  then have h: "h = ''Bearer '' @ trim_prefix h ''Bearer ''"
    by (metis append_take_drop_id has_prefix_def trim_prefix_def)
  then have "trim_prefix h ''Bearer '' \<noteq> h" by (metis append_self_conv2 list.distinct(1))
  with h show ?thesis by (metis append_same_eq same_append_eq)
next
  case False
  then have "h \<noteq> ''Bearer '' @ e" by (auto simp: has_prefix_def)
  with False show ?thesis by (simp add: trim_prefix_def)
qed

lemma auth_guards:
  "token_auth expected nxt r (w, s) =
     (if hq_path r = ''/healthz'' \<or> header_get r ''Authorization'' = ''Bearer '' @ expected
      then nxt r (w, s)
      else ((write_json 401 (Body_Error ''unauthorized'') w, s), Return ()))"
  unfolding token_auth_def health_path_def Let_def bearer_token by (simp add: respond_defs)

text \<open>
  C25: without the token nothing behind the authentication runs.  A request for anything but the
  health check is handed on exactly when its header is the word \<open>Bearer\<close>, a space and the
  expected token; every other one is answered 401 and leaves the server's state as it is.
\<close>

theorem auth_guards_everything:
  "token_auth expected nxt r (w, s) =
     (if hq_path r = ''/healthz'' \<or> header_get r ''Authorization'' = ''Bearer '' @ expected
      then nxt r (w, s)
      else ((write_json 401 (Body_Error ''unauthorized'') w, s), Return ()))"
  by (rule auth_guards)

subsection \<open>Request log and identifiers (\<open>middleware.go\<close>)\<close>

definition hex_encode :: "string \<Rightarrow> string" where
  "hex_encode bs = concat (map (\<lambda>c. [hex_digit (byte c div 16), hex_digit (byte c mod 16)]) bs)"

text \<open>The middleware that gives every request an identifier; \<open>rand\<close> reads eight random bytes.\<close>

definition logger_middleware :: "('s \<Rightarrow> 's \<times> string) \<Rightarrow> 's handler \<Rightarrow> 's handler" where
  "logger_middleware rand nxt r ws =
     (case ws of (w, s) \<Rightarrow>
       (case rand s of (s1, bs) \<Rightarrow>
         (case nxt r ((set_header ''X-Request-ID'' (hex_encode bs) w)\<lparr>wr_recorder := Some (200, False)\<rparr>, s1) of
            ((w', s'), oc) \<Rightarrow> ((w'\<lparr>wr_recorder := wr_recorder w\<rparr>, s'), oc))))"

subsection \<open>Panics (\<open>recover.go\<close>)\<close>

definition abort_handler :: string where
  "abort_handler = ''net/http: abort Handler''"

definition hijacked :: "writer \<Rightarrow> bool" where
  "hijacked w = (case wr_recorder w of None \<Rightarrow> False | Some (code, h) \<Rightarrow> h)"

definition recover_middleware :: "'s handler \<Rightarrow> 's handler" where
  "recover_middleware nxt r ws =
     (case nxt r ws of
        (ws', Return u) \<Rightarrow> (ws', Return u)
      | ((w, s), Panic p) \<Rightarrow>
          if p = abort_handler then ((w, s), Panic p)
          else if hijacked w then ((w, s), Return ())
          else fail_json 500 ''internal server error'' (w, s))"

text \<open>
  A panicking handler is answered, not dropped.  Behind the recovery no panic but a deliberate
  abort gets through; one before anything was written on an ordinary connection is answered
  500 with a JSON error, and a status already sent stays.
\<close>

lemma recovery_answers_panics:
  assumes "recover_middleware nxt r (w, s) = ((w', s'), oc)"
  shows "(oc \<noteq> Return () \<longrightarrow> oc = Panic ''net/http: abort Handler'') \<and>
    (case nxt r (w, s) of
       ((w1, s1), Return u) \<Rightarrow> w' = w1 \<and> s' = s1
     | ((w1, s1), Panic p) \<Rightarrow> s' = s1 \<and>
         (p \<noteq> ''net/http: abort Handler'' \<and> \<not> hijacked w1 \<longrightarrow>
            wr_status w' = (if wr_status w1 = None then Some 500 else wr_status w1) \<and>
            wr_body w' = wr_body w1 @ [Body_Error ''internal server error'']))"
  using assms
  by (auto simp: recover_middleware_def respond_defs write_json_def write_body_def write_header_def
      set_header_def abort_handler_def split: prod.splits outcome.splits if_splits option.splits)

definition probe_request :: request where
  "probe_request =
     \<lparr>hq_path = ''/api/v1/jobs'', hq_headers = [], hq_query = [], hq_values = [], hq_remote = [], hq_body = []\<rparr>"

theorem recovery_answers_panics_witness:
  "wr_status (fst (fst (recover_middleware (\<lambda>r ws. (ws, Panic ''nil map'')) probe_request (new_writer, 0 :: nat)))) = Some 500"
proof -
  let ?x = "recover_middleware (\<lambda>r ws. (ws, Panic ''nil map'')) probe_request (new_writer, 0 :: nat)"
  have "?x = ((fst (fst ?x), snd (fst ?x)), snd ?x)" by simp
  from recovery_answers_panics [OF this] show ?thesis by (simp add: new_writer_def hijacked_def)
qed

end
