(* ===== verification/Mcp_Gate.thy ===== *)
theory Mcp_Gate
  imports Http Processor_Worktrees
begin

text \<open>
  \<open>internal/mcpserver/\<close>: the verification gate lent out over the Model Context Protocol (\<open>gate.go\<close>), and the
  readable summary of \<open>server.go\<close>.  The workspace manager, the checks, the random bytes and the file
  system under \<open>os.Root\<close> are the collaborators of the processor; the protocol itself is a library.
\<close>

subsection \<open>Requests and results\<close>

definition default_max_check_output :: int where
  "default_max_check_output = 8192"

definition default_max_diff :: int where
  "default_max_diff = 262144"

record verify_request =
  vq_repo_path :: string
  vq_operations :: "operation list"

record verify_result =
  vf_passed :: bool
  vf_summary :: string
  vf_checks :: "check_result list"
  vf_changed_files :: "string list"
  vf_diff :: string
  vf_truncated :: "string list"

record 'w gate =
  gt_workspaces :: "'w workspaces"
  gt_checks :: "('w \<times> tree) verifier"
  gt_root :: "'w \<Rightarrow> 'w \<times> root_env"
  gt_rand :: "nat \<Rightarrow> 'w \<Rightarrow> 'w \<times> string"
  gt_max_check_output :: int
  gt_max_diff :: int

definition max_check_output :: "'w gate \<Rightarrow> int" where
  "max_check_output g = (if gt_max_check_output g \<le> 0 then default_max_check_output else gt_max_check_output g)"

definition max_diff :: "'w gate \<Rightarrow> int" where
  "max_diff g = (if gt_max_diff g \<le> 0 then default_max_diff else gt_max_diff g)"

fun bad_operation :: "nat \<Rightarrow> operation list \<Rightarrow> go_err option" where
  "bad_operation i [] = None"
| "bad_operation i (op # ops) =
     (if op_kind op \<notin> {op_write, op_append, op_delete}
      then Some (Errorf ''operation %d: kind must be %q, %q or %q, got %q''
             [FInt (int i), FQ op_write, FQ op_append, FQ op_delete, FQ (op_kind op)])
      else if trim_space (op_path op) = []
      then Some (Errorf ''operation %d: path is required'' [FInt (int i)])
      else bad_operation (Suc i) ops)"

definition to_operations :: "operation list \<Rightarrow> operation list result" where
  "to_operations ops = (case bad_operation 0 ops of Some e \<Rightarrow> Inl e | None \<Rightarrow> Inr ops)"

definition clip :: "string \<Rightarrow> int \<Rightarrow> string \<times> bool" where
  "clip s m =
     (if int (length s) \<le> m then (s, False) else (take (nat m) s @ CHR 0x0A # ''... (truncated)'', True))"

definition append_once :: "string list \<Rightarrow> string \<Rightarrow> string list" where
  "append_once xs v = (if list_ex (\<lambda>x. x = v) xs then xs else xs @ [v])"

definition worktree_id :: "string \<Rightarrow> string" where
  "worktree_id bs = ''mcp-'' @ hex_encode bs"

text \<open>The gate's own copy of \<open>changedFiles\<close>, with the set of paths seen.\<close>

fun diff_paths :: "string list \<Rightarrow> string list \<times> string set \<times> string \<Rightarrow> string list" where
  "diff_paths [] (out, seen, prev) = out"
| "diff_paths (line # ls) (out, seen, prev) =
     (if has_prefix line ''--- '' then diff_paths ls (out, seen, trim_diff_path (trim_prefix line ''--- ''))
      else if has_prefix line ''+++ '' then
        (let path0 = trim_diff_path (trim_prefix line ''+++ ''); path = (if path0 = [] then prev else path0)
         in if path \<noteq> [] \<and> path \<notin> seen then diff_paths ls (out @ [path], insert path seen, prev)
            else diff_paths ls (out, seen, prev))
      else diff_paths ls (out, seen, prev))"

definition gate_changed_files :: "string \<Rightarrow> string list" where
  "gate_changed_files diff = diff_paths (split_on (CHR 0x0A) diff) ([], {}, [])"

subsection \<open>\<open>Gate.Verify\<close>\<close>

type_synonym ('w, 'a) act = "'w \<times> tree \<Rightarrow> ('w \<times> tree) \<times> 'a outcome"

text \<open>The checks of a report, each output clipped, and the names of the clipped fields.\<close>

fun clip_checks :: "int \<Rightarrow> check_result list \<Rightarrow> string list \<Rightarrow> check_result list \<times> string list" where
  "clip_checks m [] tr = ([], tr)"
| "clip_checks m (r # rs) tr =
     (case clip (vr_output r) m of (out, clipped) \<Rightarrow>
        (case clip_checks m rs (if clipped then append_once tr (''checks['' @ vr_check r @ ''].output'') else tr) of
           (cs, tr') \<Rightarrow> (r\<lparr>vr_output := out\<rparr> # cs, tr')))"

definition gate_result :: "'w gate \<Rightarrow> report \<Rightarrow> go_err option \<Rightarrow> verify_result" where
  "gate_result g rep eo =
     (case clip_checks (max_check_output g) (rp_results rep) [] of (cs, tr) \<Rightarrow>
        \<lparr>vf_passed = (eo = None \<and> all_passed rep),
         vf_summary = (case eo of None \<Rightarrow> summary rep
                       | Some e \<Rightarrow> ''verification could not be completed: '' @ err_text e),
         vf_checks = cs, vf_changed_files = [], vf_diff = [], vf_truncated = tr\<rparr>)"

definition add_diff :: "'w gate \<Rightarrow> string \<Rightarrow> verify_result \<Rightarrow> verify_result" where
  "add_diff g diff res =
     (if trim_space diff = [] then res
      else case clip diff (max_diff g) of (d, clipped) \<Rightarrow>
        res\<lparr>vf_changed_files := gate_changed_files diff, vf_diff := d,
            vf_truncated := (if clipped then append_once (vf_truncated res) ''diff'' else vf_truncated res)\<rparr>)"

text \<open>The body after the worktree was made: apply, check, read the diff.\<close>

definition apply_step :: "'w gate \<Rightarrow> workspace \<Rightarrow> operation list \<Rightarrow> 'w \<times> tree \<Rightarrow> ('w \<times> tree) \<times> go_err option" where
  "apply_step g ws ops x =
     (if ops = [] then (x, None)
      else case x of (w, t) \<Rightarrow> (case gt_root g w of (w1, env) \<Rightarrow>
        (case apply_ops env (ws_path ws) ops t of (t1, eo) \<Rightarrow> ((w1, t1), eo))))"

definition in_worktree :: "'w gate \<Rightarrow> workspace \<Rightarrow> operation list \<Rightarrow> ('w, verify_result result) act" where
  "in_worktree g ws ops x =
     (case apply_step g ws ops x of
        (x1, Some e) \<Rightarrow> (x1, Return (Inl (Errorf ''apply operations: %w'' [FW e])))
      | (x1, None) \<Rightarrow> (case gt_checks g (ws_path ws) x1 of
            (x2, Panic p) \<Rightarrow> (x2, Panic p)
          | (x2, Return (rep, eo)) \<Rightarrow> (case ow_diff (gt_workspaces g) False ws x2 of
                (x3, Panic p) \<Rightarrow> (x3, Panic p)
              | (x3, Return (Inl e)) \<Rightarrow> (x3, Return (Inr (gate_result g rep eo)))
              | (x3, Return (Inr diff)) \<Rightarrow> (x3, Return (Inr (add_diff g diff (gate_result g rep eo)))))))"

text \<open>\<open>Verify\<close>; the deferred cleanup runs when the body has returned or panicked.\<close>

definition gate_verify :: "'w gate \<Rightarrow> verify_request \<Rightarrow> ('w, verify_result result) act" where
  "gate_verify g req x =
     (if trim_space (vq_repo_path req) = [] then (x, Return (Inl (Errorf ''repo_path is required'' [])))
      else case to_operations (vq_operations req) of
        Inl e \<Rightarrow> (x, Return (Inl e))
      | Inr ops \<Rightarrow> (case x of (w, t) \<Rightarrow> (case gt_rand g 12 w of (w1, bs) \<Rightarrow>
          (case ow_create (gt_workspaces g) (worktree_id bs) (vq_repo_path req) (w1, t) of
             (x1, Panic p) \<Rightarrow> (x1, Panic p)
           | (x1, Return (Inl e)) \<Rightarrow> (x1, Return (Inl (Errorf ''create isolated worktree: %w'' [FW e])))
           | (x1, Return (Inr ws)) \<Rightarrow> (case in_worktree g ws ops x1 of (x2, oc) \<Rightarrow>
               (case ow_cleanup (gt_workspaces g) ws x2 of
                  (x3, Return _) \<Rightarrow> (x3, oc)
                | (x3, Panic p) \<Rightarrow> (x3, Panic p)))))))"

subsection \<open>The summary (\<open>server.go\<close>)\<close>

definition newline_str :: string where
  "newline_str = [CHR 0x0A]"

definition verdict :: "bool \<Rightarrow> string" where
  "verdict ok = (if ok then ''PASSED '' else ''FAILED '') @ [CHR 0xE2, CHR 0x80, CHR 0x94, CHR '' '']"

definition summarize :: "verify_result \<Rightarrow> string" where
  "summarize res =
     verdict (vf_passed res) @ vf_summary res @
     (if vf_changed_files res \<noteq> []
      then sprintf (newline_str @ ''Changed %d file(s): %s'')
             [show_int (int (length (vf_changed_files res))), join_with '', '' (vf_changed_files res)]
      else newline_str @ ''No files were changed.'') @
     concat (map (\<lambda>c. sprintf (newline_str @ ''Note (%s): %s'') [vr_check c, vr_note c])
       (filter (\<lambda>c. vr_note c \<noteq> []) (vf_checks res))) @
     concat (map (\<lambda>c. sprintf (newline_str @ newline_str @ ''--- %s FAILED ---'' @ newline_str @ ''%s'') [vr_check c, vr_output c])
       (filter (\<lambda>c. \<not> vr_passed c) (vf_checks res))) @
     (if vf_truncated res \<noteq> []
      then sprintf (newline_str @ newline_str @ ''(truncated for length: %s '' @ [CHR 0xE2, CHR 0x80, CHR 0x94] @
             '' full values are in the structured output)'') [join_with '', '' (vf_truncated res)]
      else [])"

subsection \<open>What the gate guarantees\<close>

text \<open>The collaborators neither make nor remove worktrees, except \<open>Create\<close> and \<open>Cleanup\<close>.\<close>

definition gate_tracks :: "'w gate \<Rightarrow> ('w \<Rightarrow> workspace set) \<Rightarrow> bool" where
  "gate_tracks g live =
     (create_tracked live (ow_create (gt_workspaces g)) \<and> cleanup_tracked live (ow_cleanup (gt_workspaces g)) \<and>
      (\<forall>b ws x. live (fst (fst (ow_diff (gt_workspaces g) b ws x))) \<subseteq> live (fst x)) \<and>
      (\<forall>p x. live (fst (fst (gt_checks g p x))) \<subseteq> live (fst x)) \<and>
      (\<forall>w. live (fst (gt_root g w)) \<subseteq> live w) \<and> (\<forall>n w. live (fst (gt_rand g n w)) \<subseteq> live w))"

lemma apply_step_live: "gate_tracks g live \<Longrightarrow> live (fst (fst (apply_step g ws ops x))) \<subseteq> live (fst x)"
  by (auto simp: apply_step_def gate_tracks_def split_beta)

lemma in_worktree_live:
  assumes "gate_tracks g live"
  shows "live (fst (fst (in_worktree g ws ops x))) \<subseteq> live (fst x)"
proof -
  obtain x1 eo where a: "apply_step g ws ops x = (x1, eo)" by (cases "apply_step g ws ops x")
  obtain x2 oc where v: "gt_checks g (ws_path ws) x1 = (x2, oc)" by (cases "gt_checks g (ws_path ws) x1")
  obtain x3 od where d: "ow_diff (gt_workspaces g) False ws x2 = (x3, od)"
    by (cases "ow_diff (gt_workspaces g) False ws x2")
  have "live (fst x1) \<subseteq> live (fst x)" using apply_step_live [OF assms, of ws ops x] a by simp
  moreover have "live (fst x2) \<subseteq> live (fst x1)" using assms v unfolding gate_tracks_def by (metis fst_conv)
  moreover have "live (fst x3) \<subseteq> live (fst x2)" using assms d unfolding gate_tracks_def by (metis fst_conv)
  ultimately show ?thesis using a v d by (auto simp: in_worktree_def split: option.splits outcome.splits sum.splits)
qed


text \<open>A gate over a world that lists its worktrees, with checks that panic.\<close>

definition panicking_gate :: "workspace list gate" where
  "panicking_gate =
     \<lparr>gt_workspaces = sound_workspaces, gt_checks = (\<lambda>p x. (x, Panic ''nil map'')), gt_root = (\<lambda>w. (w, steady_root)),
      gt_rand = (\<lambda>n w. (w, replicate n (CHR ''a''))), gt_max_check_output = 0, gt_max_diff = 0\<rparr>"



definition passing_gate :: "workspace list gate" where
  "passing_gate = panicking_gate
     \<lparr>gt_checks := (\<lambda>p x. (x, Return (\<lparr>rp_results = [\<lparr>vr_check = ''vet'', vr_passed = True, vr_output = [],
        vr_duration = 1, vr_note = []\<rparr>]\<rparr>, None)))\<rparr>"

lemma passed_result:
  assumes "case oc of Return (Inr res) \<Rightarrow> vf_passed res \<and> vf_summary res = t | _ \<Rightarrow> False"
  obtains res where "oc = Return (Inr res)" "vf_passed res" "vf_summary res = t"
  using assms by (auto split: outcome.splits sum.splits)


text \<open>Nothing is cut without being named: an answer that names no field is complete.\<close>

lemma append_once_ne: "append_once xs v \<noteq> []"
  by (auto simp: append_once_def)

lemma clip_kept: "clip s m = (out, False) \<Longrightarrow> out = s"
  by (simp add: clip_def split: if_splits)

lemma clip_checks_complete: "snd (clip_checks m rs tr) = [] \<Longrightarrow> tr = [] \<and> fst (clip_checks m rs tr) = rs"
proof (induction rs arbitrary: tr)
  case (Cons r rs)
  obtain out b where c: "clip (vr_output r) m = (out, b)" by (cases "clip (vr_output r) m")
  let ?tr = "if b then append_once tr (''checks['' @ vr_check r @ ''].output'') else tr"
  obtain cs tr' where rs: "clip_checks m rs ?tr = (cs, tr')" by (cases "clip_checks m rs ?tr")
  have "tr' = []" using Cons.prems c rs by simp
  with Cons.IH [of ?tr] rs have "?tr = []" "cs = rs" by simp_all
  moreover from this(1) append_once_ne have b: "\<not> b" by metis
  ultimately show ?case using c rs clip_kept [of "vr_output r" m out] by simp
qed simp

text \<open>
  Nothing is cut silently.  A result that names no truncated field carries every check with its whole
  output, and the whole diff if there is one.
\<close>

lemma gate_never_clips_silently:
  assumes "vf_truncated (add_diff g diff (gate_result g rep eo)) = []"
  shows "vf_checks (add_diff g diff (gate_result g rep eo)) = rp_results rep \<and>
    (vf_diff (add_diff g diff (gate_result g rep eo)) = diff \<or> trim_space diff = [])"
proof -
  obtain cs tr where c: "clip_checks (max_check_output g) (rp_results rep) [] = (cs, tr)"
    by (cases "clip_checks (max_check_output g) (rp_results rep) []")
  obtain d b where d: "clip diff (max_diff g) = (d, b)" by (cases "clip diff (max_diff g)")
  have tr: "vf_truncated (gate_result g rep eo) = tr" "vf_checks (gate_result g rep eo) = cs"
    by (simp_all add: gate_result_def c)
  show ?thesis
  proof (cases "trim_space diff = []")
    case True
    with assms tr have "tr = []" by (simp add: add_diff_def)
    with clip_checks_complete [of "max_check_output g" "rp_results rep" "[]"] c True tr show ?thesis
      by (simp add: add_diff_def)
  next
    case False
    with assms tr d append_once_ne have b: "\<not> b" "tr = []" by (cases b; simp add: add_diff_def)+
    with clip_kept [of diff "max_diff g" d] d have "d = diff" by simp
    with clip_checks_complete [of "max_check_output g" "rp_results rep" "[]"] c False tr b d show ?thesis
      by (simp add: add_diff_def)
  qed
qed

text \<open>A report with one short output, and no diff.\<close>

theorem gate_never_clips_silently_witness:
  "vf_checks (add_diff panicking_gate [] (gate_result panicking_gate
     \<lparr>rp_results = [\<lparr>vr_check = ''vet'', vr_passed = False, vr_output = ''x.go:1'', vr_duration = 1, vr_note = []\<rparr>]\<rparr> None)) =
   [\<lparr>vr_check = ''vet'', vr_passed = False, vr_output = ''x.go:1'', vr_duration = 1, vr_note = []\<rparr>]"
proof -
  let ?rep = "\<lparr>rp_results = [\<lparr>vr_check = ''vet'', vr_passed = False, vr_output = ''x.go:1'', vr_duration = 1, vr_note = []\<rparr>]\<rparr>"
  have "trim_space [] = []" by code_simp
  then have "vf_truncated (add_diff panicking_gate [] (gate_result panicking_gate ?rep None)) = []"
    by (simp add: add_diff_def gate_result_def clip_def max_check_output_def panicking_gate_def
        default_max_check_output_def)
  from gate_never_clips_silently [OF this] show ?thesis by simp
qed

lemma insert_set: "insert x (set xs) = set (xs @ [x])"
  by simp

lemma diff_paths_scan: "diff_paths ls (out, set out, prev) = scan_diff ls prev out"
  by (induction ls arbitrary: out prev) (simp_all add: Let_def insert_set del: set_append list.set(2))

text \<open>The two copies of \<open>changedFiles\<close> in the program agree.\<close>

lemma gate_changed_files_eq: "gate_changed_files diff = changed_files diff"
  using diff_paths_scan [of _ "[]"] by (simp add: gate_changed_files_def changed_files_def)

end
