(* ===== verification/Go_Float.thy ===== *)
theory Go_Float
  imports Complex_Main
begin

text \<open>
  Go's \<open>float64\<close>: a finite value is a rational, every operation rounds its exact result to the nearest
  value with 53 significant bits and no bit below \<open>2^-1074\<close>, ties to even, and a result beyond the
  largest exponent is infinite.  The sign of zero is not kept; nothing here divides by zero or
  prints one.
\<close>

subsection \<open>Rounding\<close>

definition pow2 :: "int \<Rightarrow> rat" where
  "pow2 n = (if 0 \<le> n then 2 ^ nat n else 1 / 2 ^ nat (- n))"

text \<open>The number of bits of a positive number.\<close>

function bits :: "int \<Rightarrow> nat" where
  "bits n = (if n \<le> 0 then 0 else Suc (bits (n div 2)))"
  by pat_completeness auto
termination by (relation "measure nat") auto

declare bits.simps [simp del]

lemma bits_bounds: "0 < n \<Longrightarrow> 2 ^ bits n \<le> 2 * n \<and> n < 2 ^ bits n"
proof (induction n rule: bits.induct)
  case (1 n)
  show ?case
  proof (cases "n div 2 = 0")
    case True
    with "1.prems" have "n = 1" by simp
    then show ?thesis by (simp add: bits.simps)
  next
    case False
    with "1.prems" have "0 < n div 2" by simp
    with 1 have "2 ^ bits (n div 2) \<le> 2 * (n div 2)" "n div 2 < 2 ^ bits (n div 2)" by simp_all
    moreover have "2 * (n div 2) \<le> n" "n \<le> 2 * (n div 2) + 1" by simp_all
    ultimately have "2 ^ bits (n div 2) \<le> n" "n < 2 * 2 ^ bits (n div 2)" by linarith+
    with "1.prems" show ?thesis by (simp add: bits.simps [of n])
  qed
qed

text \<open>The exponent \<open>e\<close> with \<open>2^e \<le> |x| < 2^(e+1)\<close>.\<close>

definition expo :: "rat \<Rightarrow> int" where
  "expo x =
     (case quotient_of \<bar>x\<bar> of
        (p, q) \<Rightarrow> let n = int (bits p) - int (bits q) in
          if pow2 n \<le> \<bar>x\<bar> then n else n - 1)"

definition nearest_even :: "rat \<Rightarrow> int" where
  "nearest_even x =
     (let f = \<lfloor>x\<rfloor>; d = x - of_int f in
      if d < 1 / 2 then f else if d > 1 / 2 then f + 1 else if even f then f else f + 1)"

definition quantum :: "rat \<Rightarrow> int" where
  "quantum x = max (expo x - 52) (- 1074)"

definition rnd :: "rat \<Rightarrow> rat" where
  "rnd x = (if x = 0 then 0 else of_int (nearest_even (x / pow2 (quantum x))) * pow2 (quantum x))"

lemma pow2_pos [simp]: "0 < pow2 n"
  by (simp add: pow2_def)

lemma pow2_divide_mono: "x \<le> y \<Longrightarrow> x / pow2 n \<le> y / pow2 n"
  by (rule divide_right_mono [OF _ less_imp_le [OF pow2_pos]])

lemma pow2_ne [simp]: "pow2 n \<noteq> 0"
  using pow2_pos [of n] by linarith

lemma pow2_powi: "pow2 n = 2 powi n"
  by (auto simp: pow2_def power_int_def field_simps)

lemma pow2_add: "pow2 (m + n) = pow2 m * pow2 n"
  by (simp add: pow2_powi power_int_add)

lemma pow2_mono: "m \<le> n \<Longrightarrow> pow2 m \<le> pow2 n"
  by (simp add: pow2_powi power_int_increasing)

lemma pow2_less: "m < n \<Longrightarrow> pow2 m < pow2 n"
  by (simp add: pow2_powi power_int_strict_increasing)

lemma pow2_divide: "n \<le> m \<Longrightarrow> pow2 m / pow2 n = of_int (2 ^ nat (m - n))"
proof -
  assume "n \<le> m"
  have "pow2 m = pow2 (m - n) * pow2 n" by (simp flip: pow2_add)
  with \<open>n \<le> m\<close> show ?thesis by (simp add: pow2_def)
qed

lemma pow2_bits: "0 < n \<Longrightarrow> pow2 (int (bits n) - 1) \<le> of_int n \<and> of_int n < pow2 (int (bits n))"
proof -
  assume "0 < n"
  from bits_bounds [OF this] have "(of_int (2 ^ bits n) :: rat) \<le> of_int (2 * n)"
    and up: "(of_int n :: rat) < of_int (2 ^ bits n)" by (simp_all only: of_int_le_iff of_int_less_iff)
  moreover have "pow2 (int (bits n)) = 2 * pow2 (int (bits n) - 1)"
    using pow2_add [of 1 "int (bits n) - 1"] by (simp add: pow2_def [of 1])
  moreover have "pow2 (int (bits n)) = of_int (2 ^ bits n)" by (simp add: pow2_def)
  ultimately show ?thesis using up by (simp only: of_int_mult) simp
qed

lemma expo_bounds:
  assumes "x \<noteq> 0"
  shows "pow2 (expo x) \<le> \<bar>x\<bar> \<and> \<bar>x\<bar> < pow2 (expo x + 1)"
proof -
  obtain p q where pq: "quotient_of \<bar>x\<bar> = (p, q)" by (cases "quotient_of \<bar>x\<bar>")
  then have x: "\<bar>x\<bar> = of_int p / of_int q" and q: "0 < q"
    by (simp_all add: quotient_of_div quotient_of_denom_pos)
  with assms have p: "0 < p"
    by (metis abs_le_zero_iff divide_nonpos_pos linorder_not_le of_int_0_less_iff of_int_le_0_iff)
  let ?a = "int (bits p) - 1" and ?b = "int (bits q) - 1"
  have a: "pow2 ?a \<le> of_int p" "of_int p < pow2 (?a + 1)" using pow2_bits [OF p] by simp_all
  have b: "pow2 ?b \<le> of_int q" "of_int q < pow2 (?b + 1)" using pow2_bits [OF q] by simp_all
  let ?n = "int (bits p) - int (bits q)"
  have up: "\<bar>x\<bar> < pow2 (?n + 1)"
  proof -
    have "\<bar>x\<bar> * pow2 ?b \<le> of_int p" using b(1) q p by (simp add: x field_simps)
    also have "\<dots> < pow2 (?n + 1) * pow2 ?b" using a(2) by (simp add: algebra_simps flip: pow2_add)
    finally show ?thesis by simp
  qed
  have low: "pow2 (?n - 1) \<le> \<bar>x\<bar>"
  proof -
    have "pow2 (?n - 1) * of_int q \<le> pow2 (?n - 1) * pow2 (?b + 1)" using b(2) by simp
    also have "\<dots> = pow2 ?a" by (simp flip: pow2_add)
    also have "\<dots> \<le> of_int p" by (rule a(1))
    finally show ?thesis using q by (simp add: x field_simps)
  qed
  show ?thesis using up low by (auto simp: expo_def pq Let_def)
qed

lemma nearest_even_int [simp]: "nearest_even (of_int n) = n"
  by (simp add: nearest_even_def)

lemma nearest_even_mono: "x \<le> y \<Longrightarrow> nearest_even x \<le> nearest_even y"
proof -
  assume xy: "x \<le> y"
  then have f: "\<lfloor>x\<rfloor> \<le> \<lfloor>y\<rfloor>" by (rule floor_mono)
  show ?thesis
  proof (cases "\<lfloor>x\<rfloor> = \<lfloor>y\<rfloor>")
    case True
    with xy show ?thesis by (auto simp: nearest_even_def Let_def)
  next
    case False
    with f have "\<lfloor>x\<rfloor> + 1 \<le> \<lfloor>y\<rfloor>" by simp
    then show ?thesis by (auto simp: nearest_even_def Let_def)
  qed
qed

lemma expo_mono: "0 < x \<Longrightarrow> x \<le> y \<Longrightarrow> expo x \<le> expo y"
proof (rule ccontr)
  assume "0 < x" "x \<le> y" "\<not> expo x \<le> expo y"
  then have "pow2 (expo y + 1) \<le> pow2 (expo x)" by (intro pow2_mono) simp
  with expo_bounds [of x] expo_bounds [of y] \<open>0 < x\<close> \<open>x \<le> y\<close> show False by auto
qed

lemma rnd_nonneg: "0 \<le> x \<Longrightarrow> 0 \<le> rnd x"
proof -
  assume "0 \<le> x"
  from pow2_divide_mono [OF this] have "0 \<le> x / pow2 (quantum x)" by simp
  then have "nearest_even (of_int 0) \<le> nearest_even (x / pow2 (quantum x))" by (intro nearest_even_mono) simp
  then have "0 \<le> nearest_even (x / pow2 (quantum x))" using nearest_even_int [of 0] by simp
  then show ?thesis by (simp add: rnd_def less_imp_le)
qed

lemma rnd_mono:
  assumes "0 \<le> x" and "x \<le> y"
  shows "rnd x \<le> rnd y"
proof (cases "x = 0")
  case True
  with assms rnd_nonneg [of y] show ?thesis by (simp add: rnd_def)
next
  case False
  with assms have x: "0 < x" and y: "0 < y" by simp_all
  show ?thesis
  proof (cases "quantum x = quantum y")
    case True
    have "x / pow2 (quantum y) \<le> y / pow2 (quantum y)" by (rule pow2_divide_mono [OF assms(2)])
    from nearest_even_mono [OF this] have
      "(of_int (nearest_even (x / pow2 (quantum y))) :: rat) \<le> of_int (nearest_even (y / pow2 (quantum y)))" by simp
    with x y True show ?thesis by (simp add: rnd_def)
  next
    case False
    with expo_mono [OF x assms(2)] have e: "expo x < expo y" "- 1022 < expo y" by (auto simp: quantum_def)
    let ?B = "pow2 (expo y)"
    have qx: "quantum x \<le> expo y" and qy: "quantum y \<le> expo y" using e by (auto simp: quantum_def)
    have "pow2 (expo x + 1) \<le> ?B" using e by (intro pow2_mono) simp
    with expo_bounds [of x] x have "x \<le> ?B" by auto
    then have "x / pow2 (quantum x) \<le> ?B / pow2 (quantum x)" by (rule pow2_divide_mono)
    from nearest_even_mono [OF this] have
      "of_int (nearest_even (x / pow2 (quantum x))) \<le> ?B / pow2 (quantum x)"
      by (simp only: pow2_divide [OF qx] nearest_even_int of_int_le_iff)
    then have 1: "rnd x \<le> ?B" using x by (simp add: rnd_def field_simps)
    have "?B \<le> y" using expo_bounds [of y] y by auto
    then have "?B / pow2 (quantum y) \<le> y / pow2 (quantum y)" by (rule pow2_divide_mono)
    from nearest_even_mono [OF this] have
      "?B / pow2 (quantum y) \<le> of_int (nearest_even (y / pow2 (quantum y)))"
      by (simp only: pow2_divide [OF qy] nearest_even_int of_int_le_iff)
    then have "?B \<le> rnd y" using y by (simp add: rnd_def field_simps)
    with 1 show ?thesis by simp
  qed
qed

lemma rnd_int:
  assumes "\<bar>n\<bar> \<le> 2 ^ 53"
  shows "rnd (of_int n) = of_int n"
proof (cases "n = 0")
  case False
  let ?x = "of_int n :: rat" and ?e = "expo (of_int n)"
  have b: "pow2 ?e \<le> \<bar>?x\<bar>" "\<bar>?x\<bar> < pow2 (?e + 1)" using expo_bounds [of ?x] False by simp_all
  have "1 \<le> \<bar>n\<bar>" using False by simp
  then have "(1::rat) \<le> of_int \<bar>n\<bar>" by (metis of_int_1 of_int_le_iff)
  then have "pow2 0 < pow2 (?e + 1)" using b(2) by (simp add: pow2_def)
  then have e0: "0 \<le> ?e" using pow2_mono [of "?e + 1" 0] by linarith
  have "of_int \<bar>n\<bar> \<le> (of_int (2 ^ 53) :: rat)" using assms by (simp only: of_int_le_iff)
  then have "pow2 ?e \<le> pow2 53" using b(1) by (simp add: pow2_def)
  then have e53: "?e \<le> 53" using pow2_less [of 53 ?e] by linarith
  have q: "quantum ?x = ?e - 52" using e0 by (simp add: quantum_def)
  have "\<exists>m. ?x / pow2 (?e - 52) = of_int m"
  proof (cases "?e \<le> 52")
    case True
    then have "?x / pow2 (?e - 52) = of_int (n * 2 ^ nat (52 - ?e))"
      by (auto simp: pow2_def field_simps)
    then show ?thesis by blast
  next
    case False
    with e53 have "?e = 53" by simp
    with b(1) have "(of_int (2 ^ 53) :: rat) \<le> of_int \<bar>n\<bar>" by (simp add: pow2_def)
    then have "2 ^ 53 \<le> \<bar>n\<bar>" by (simp only: of_int_le_iff)
    with assms have "\<bar>n\<bar> = 2 ^ 53" by simp
    then have "n = 2 * (sgn n * 2 ^ 52)" by (simp add: abs_if sgn_if split: if_splits)
    then have "?x = 2 * of_int (sgn n * 2 ^ 52)" by (metis of_int_mult of_int_numeral)
    then have "?x / pow2 (?e - 52) = of_int (sgn n * 2 ^ 52)" using \<open>?e = 53\<close> by (simp add: pow2_def)
    then show ?thesis by blast
  qed
  then obtain m where m: "?x / pow2 (?e - 52) = of_int m" by blast
  then have "of_int m * pow2 (?e - 52) = ?x" by (simp add: field_simps)
  with m False show ?thesis by (simp add: rnd_def q)
qed (simp add: rnd_def)

subsection \<open>Values and operations\<close>

text \<open>\<open>Inf True\<close> is plus infinity.\<close>

datatype float64 = Fin rat | Inf bool | NaN

definition fl_round :: "rat \<Rightarrow> float64" where
  "fl_round x = (let r = rnd x in if \<bar>r\<bar> < pow2 1024 then Fin r else Inf (0 < r))"

definition fl_of_int :: "int \<Rightarrow> float64" where
  "fl_of_int n = fl_round (of_int n)"

fun fl_add :: "float64 \<Rightarrow> float64 \<Rightarrow> float64" where
  "fl_add (Fin a) (Fin b) = fl_round (a + b)"
| "fl_add (Inf p) (Inf q) = (if p = q then Inf p else NaN)"
| "fl_add (Inf p) (Fin b) = Inf p"
| "fl_add (Fin a) (Inf q) = Inf q"
| "fl_add _ _ = NaN"

fun fl_neg :: "float64 \<Rightarrow> float64" where
  "fl_neg (Fin a) = Fin (- a)"
| "fl_neg (Inf p) = Inf (\<not> p)"
| "fl_neg NaN = NaN"

definition fl_sub :: "float64 \<Rightarrow> float64 \<Rightarrow> float64" where
  "fl_sub x y = fl_add x (fl_neg y)"

fun fl_mul :: "float64 \<Rightarrow> float64 \<Rightarrow> float64" where
  "fl_mul (Fin a) (Fin b) = fl_round (a * b)"
| "fl_mul (Inf p) (Inf q) = Inf (p = q)"
| "fl_mul (Inf p) (Fin b) = (if b = 0 then NaN else Inf (p = (0 < b)))"
| "fl_mul (Fin a) (Inf q) = (if a = 0 then NaN else Inf ((0 < a) = q))"
| "fl_mul _ _ = NaN"

fun fl_less :: "float64 \<Rightarrow> float64 \<Rightarrow> bool" where
  "fl_less (Fin a) (Fin b) = (a < b)"
| "fl_less (Inf p) (Inf q) = (\<not> p \<and> q)"
| "fl_less (Inf p) (Fin b) = (\<not> p)"
| "fl_less (Fin a) (Inf q) = q"
| "fl_less _ _ = False"

fun fl_le :: "float64 \<Rightarrow> float64 \<Rightarrow> bool" where
  "fl_le (Fin a) (Fin b) = (a \<le> b)"
| "fl_le (Inf p) (Inf q) = (p \<longrightarrow> q)"
| "fl_le (Inf p) (Fin b) = (\<not> p)"
| "fl_le (Fin a) (Inf q) = q"
| "fl_le _ _ = False"

text \<open>Division by a positive constant, the only one the program makes.\<close>

fun fl_div_const :: "float64 \<Rightarrow> int \<Rightarrow> float64" where
  "fl_div_const (Fin a) n = fl_round (a / of_int n)"
| "fl_div_const x n = x"

text \<open>Division, with the zero taken as positive, and \<open>math.Round\<close>, half away from zero.\<close>

fun fl_div :: "float64 \<Rightarrow> float64 \<Rightarrow> float64" where
  "fl_div (Fin a) (Fin b) = (if b = 0 then if a = 0 then NaN else Inf (0 < a) else fl_round (a / b))"
| "fl_div (Inf p) (Fin b) = Inf (p = (0 \<le> b))"
| "fl_div (Fin a) (Inf q) = Fin 0"
| "fl_div _ _ = NaN"

fun fl_nearest :: "float64 \<Rightarrow> float64" where
  "fl_nearest (Fin a) = Fin (sgn a * of_int \<lfloor>\<bar>a\<bar> + 1 / 2\<rfloor>)"
| "fl_nearest x = x"

text \<open>\<open>Duration.Seconds\<close>: whole seconds and the remainder, each converted.\<close>

definition seconds :: "int \<Rightarrow> float64" where
  "seconds d =
     (let whole = sgn d * (\<bar>d\<bar> div 1000000000); part = sgn d * (\<bar>d\<bar> mod 1000000000) in
      fl_add (fl_of_int whole) (fl_div_const (fl_of_int part) 1000000000))"

lemma fl_of_int_exact: "\<bar>n\<bar> \<le> 2 ^ 53 \<Longrightarrow> fl_of_int n = Fin (of_int n)"
proof -
  assume n: "\<bar>n\<bar> \<le> 2 ^ 53"
  have "(2::int) ^ 53 < 2 ^ 1024" by (rule power_strict_increasing) simp_all
  with n have "\<bar>n\<bar> < 2 ^ 1024" by linarith
  then have "(of_int \<bar>n\<bar> :: rat) < of_int (2 ^ 1024)" by (simp only: of_int_less_iff)
  with n show ?thesis by (simp add: fl_of_int_def fl_round_def rnd_int Let_def pow2_def)
qed

end
