(* ===== verification/Rate_Limit.thy ===== *)
theory Rate_Limit
  imports Http Go_Float
begin

text \<open>
  \<open>internal/api/ratelimit.go\<close>: token buckets per client, the sweep that forgets idle clients, and who a
  client is.  Tokens are \<open>float64\<close>, every operation rounded.
\<close>

subsection \<open>Buckets\<close>

record bucket =
  bk_capacity :: int
  bk_refill :: float64
  bk_tokens :: float64
  bk_last :: time
  bk_last_seen :: time

definition new_bucket :: "time \<Rightarrow> int \<Rightarrow> float64 \<Rightarrow> bucket" where
  "new_bucket now capacity refill =
     \<lparr>bk_capacity = capacity, bk_refill = refill, bk_tokens = fl_of_int capacity, bk_last = now,
      bk_last_seen = now\<rparr>"

definition allow :: "time \<Rightarrow> bucket \<Rightarrow> bucket \<times> bool" where
  "allow now b =
     (let elapsed = seconds (now - bk_last b);
          full = fl_of_int (bk_capacity b);
          refilled = fl_add (bk_tokens b) (fl_mul elapsed (bk_refill b));
          tokens = (if fl_less full refilled then full else refilled);
          b1 = b\<lparr>bk_last := now, bk_last_seen := now, bk_tokens := tokens\<rparr>
      in if fl_less tokens (Fin 1) then (b1, False)
         else (b1\<lparr>bk_tokens := fl_sub tokens (Fin 1)\<rparr>, True))"

subsection \<open>The limiter\<close>

definition bucket_idle_ttl :: duration where
  "bucket_idle_ttl = 10 * minute"

definition sweep_every :: int where
  "sweep_every = 256"

record rate_limiter =
  rl_buckets :: "(string, bucket) amap"
  rl_capacity :: int
  rl_refill :: float64
  rl_trust :: bool
  rl_inserts :: int
  rl_last_swept :: time

definition new_rate_limiter :: "int \<Rightarrow> float64 \<Rightarrow> rate_limiter" where
  "new_rate_limiter capacity refill =
     \<lparr>rl_buckets = [], rl_capacity = capacity, rl_refill = refill, rl_trust = False, rl_inserts = 0,
      rl_last_swept = 0\<rparr>"

definition trust_proxy_header :: "rate_limiter \<Rightarrow> rate_limiter" where
  "trust_proxy_header rl = rl\<lparr>rl_trust := True\<rparr>"

definition maybe_sweep :: "time \<Rightarrow> rate_limiter \<Rightarrow> rate_limiter" where
  "maybe_sweep now rl =
     (if is_zero_time (rl_last_swept rl) then rl\<lparr>rl_last_swept := now\<rparr>
      else if rl_inserts rl < sweep_every \<and> now - rl_last_swept rl < bucket_idle_ttl then rl
      else rl\<lparr>rl_inserts := 0, rl_last_swept := now,
              rl_buckets := filter (\<lambda>(k, b). \<not> bk_last_seen b < now - bucket_idle_ttl) (rl_buckets rl)\<rparr>)"

text \<open>
  What the middleware does under the lock.  The bucket is found or made before the sweep, which may
  take it out of the map; the request then uses up a token of a bucket nobody finds again.  The times
  are the three readings of the clock.
\<close>

definition find_bucket :: "time \<Rightarrow> string \<Rightarrow> rate_limiter \<Rightarrow> rate_limiter \<times> bucket" where
  "find_bucket now k rl =
     (case aget (rl_buckets rl) k of
        Some b \<Rightarrow> (rl, b)
      | None \<Rightarrow> let b = new_bucket now (rl_capacity rl) (rl_refill rl) in
          (rl\<lparr>rl_buckets := aput k b (rl_buckets rl), rl_inserts := rl_inserts rl + 1\<rparr>, b))"

definition admit :: "time \<Rightarrow> time \<Rightarrow> time \<Rightarrow> string \<Rightarrow> rate_limiter \<Rightarrow> rate_limiter \<times> bool" where
  "admit made swept used k rl =
     (case find_bucket made k rl of (rl1, b) \<Rightarrow>
        let rl2 = maybe_sweep swept rl1 in
        (case allow used b of (b', ok) \<Rightarrow>
           ((if aget (rl_buckets rl2) k = None then rl2
             else rl2\<lparr>rl_buckets := aput k b' (rl_buckets rl2)\<rparr>), ok)))"

subsection \<open>Who a client is\<close>

text \<open>\<open>net.SplitHostPort\<close>: the host and the port, or nothing for its error.\<close>

definition last_index_byte :: "string \<Rightarrow> char \<Rightarrow> nat option" where
  "last_index_byte s c = last_index_str s [c]"

definition split_host_port :: "string \<Rightarrow> (string \<times> string) option" where
  "split_host_port s =
     (case last_index_byte s (CHR '':'') of
        None \<Rightarrow> None
      | Some i \<Rightarrow>
          if has_prefix s ''['' then
            (case index_byte s (CHR '']'') of
               None \<Rightarrow> None
             | Some e \<Rightarrow>
                 if e + 1 \<noteq> i \<or> CHR ''['' \<in> set (drop 1 s) \<or> CHR '']'' \<in> set (drop (e + 1) s) then None
                 else Some (take (e - 1) (drop 1 s), drop (i + 1) s))
          else if CHR '':'' \<in> set (take i s) \<or> CHR ''['' \<in> set s \<or> CHR '']'' \<in> set s then None
          else Some (take i s, drop (i + 1) s))"

definition client_key :: "rate_limiter \<Rightarrow> request \<Rightarrow> string" where
  "client_key rl r =
     (let fwd = header_get r ''X-Forwarded-For'' in
      if rl_trust rl \<and> fwd \<noteq> []
      then trim_space (case last_index_byte fwd (CHR '','') of None \<Rightarrow> fwd | Some i \<Rightarrow> drop (i + 1) fwd)
      else case split_host_port (hq_remote r) of Some (host, port) \<Rightarrow> host | None \<Rightarrow> hq_remote r)"

text \<open>
  \<open>Middleware\<close>, for a limiter kept in the server's state.  A new bucket reads the clock first; the
  sweep and the bucket read it after that.
\<close>

definition rate_limit ::
    "('s \<Rightarrow> rate_limiter) \<Rightarrow> (rate_limiter \<Rightarrow> 's \<Rightarrow> 's) \<Rightarrow> ('s \<Rightarrow> 's \<times> time) \<Rightarrow> 's handler \<Rightarrow> 's handler" where
  "rate_limit getl setl now nxt r ws =
     (if hq_path r = health_path then nxt r ws
      else case ws of (w, s) \<Rightarrow>
        let key = client_key (getl s) r in
        (case (if aget (rl_buckets (getl s)) key = None then now s else (s, 0)) of (s1, made) \<Rightarrow>
          (case now s1 of (s2, swept) \<Rightarrow> (case now s2 of (s3, used) \<Rightarrow>
            (case admit made swept used key (getl s3) of
               (rl, ok) \<Rightarrow>
                 let s4 = setl rl s3 in
                 if \<not> ok then fail_json 429 ''rate limit exceeded'' (w, s4)
                 else nxt r (w, s4))))))"

subsection \<open>One bucket\<close>

definition nonneg :: "float64 \<Rightarrow> bool" where
  "nonneg x = (x = Inf True \<or> (\<exists>t. x = Fin t \<and> 0 \<le> t))"

lemma nonneg_Fin [simp]: "nonneg (Fin t) \<longleftrightarrow> 0 \<le> t"
  by (simp add: nonneg_def)

lemma nonneg_Inf [simp]: "nonneg (Inf p) \<longleftrightarrow> p"
  by (auto simp: nonneg_def)

lemma nonnegE:
  assumes "nonneg x"
  obtains "x = Inf True" | t where "x = Fin t" "0 \<le> t"
  using assms by (auto simp: nonneg_def)

lemma nonneg_round: "0 \<le> x \<Longrightarrow> nonneg (fl_round x)"
  using rnd_nonneg [of x]
  by (auto simp: fl_round_def Let_def linorder_not_less intro: less_le_trans [OF pow2_pos])

lemma nonneg_add: "nonneg x \<Longrightarrow> nonneg y \<Longrightarrow> nonneg (fl_add x y)"
  by (elim nonnegE) (simp_all add: nonneg_round)

lemma nonneg_mul: "nonneg x \<Longrightarrow> 0 < r \<Longrightarrow> nonneg (fl_mul x (Fin r))"
  by (elim nonnegE) (simp_all add: nonneg_round)

lemma nonneg_div: "nonneg x \<Longrightarrow> 0 < n \<Longrightarrow> nonneg (fl_div_const x n)"
  by (elim nonnegE) (simp_all add: nonneg_round)

lemma nonneg_seconds: "0 \<le> d \<Longrightarrow> nonneg (seconds d)"
  unfolding seconds_def Let_def fl_of_int_def
  by (cases "d = 0"; intro nonneg_add nonneg_round nonneg_div) simp_all

lemma fl_round_within:
  assumes "0 \<le> x" and "x \<le> of_int n" and "n \<le> 2 ^ 53"
  obtains y where "fl_round x = Fin y" "0 \<le> y" "y \<le> of_int n"
proof -
  from assms have n: "0 \<le> n" by (metis of_int_0_le_iff order_trans)
  have "rnd x \<le> rnd (of_int n)" by (rule rnd_mono [OF assms(1,2)])
  with n assms(3) have u: "rnd x \<le> of_int n" by (simp add: rnd_int)
  have "fl_of_int n = Fin (of_int n)" using fl_of_int_exact n assms(3) by simp
  then have "(of_int n :: rat) < pow2 1024" using n assms(3) by (simp add: fl_of_int_def fl_round_def rnd_int Let_def split: if_splits)
  with u rnd_nonneg [OF assms(1)] have "\<bar>rnd x\<bar> < pow2 1024" by simp
  with that [of "rnd x"] u rnd_nonneg [OF assms(1)] show thesis by (simp add: fl_round_def)
qed

lemma seconds_0: "seconds 0 = Fin 0"
  by (simp add: seconds_def fl_of_int_exact fl_round_def rnd_def)

text \<open>
  A bucket in use, and how many tokens it can give at one instant: what it holds when it was used at
  that instant, its capacity otherwise.
\<close>

definition sound_bucket :: "int \<Rightarrow> rat \<Rightarrow> time \<Rightarrow> bucket \<Rightarrow> bool" where
  "sound_bucket capacity r now b =
     (bk_capacity b = capacity \<and> bk_refill b = Fin r \<and> bk_last b \<le> now \<and> bk_last_seen b = bk_last b \<and>
      (\<exists>t. bk_tokens b = Fin t \<and> 0 \<le> t \<and> t \<le> of_int capacity))"

definition gives :: "int \<Rightarrow> time \<Rightarrow> bucket \<Rightarrow> int \<Rightarrow> bool" where
  "gives capacity now b n =
     (0 \<le> n \<and> n \<le> capacity \<and> (if bk_last b = now then \<exists>t. bk_tokens b = Fin t \<and> t \<le> of_int n else n = capacity))"

lemma allow_gives:
  assumes "0 \<le> capacity" "capacity \<le> 2 ^ 53" "0 < r"
    and b: "sound_bucket capacity r now b" and g: "gives capacity now b n"
    and a: "allow now b = (b', ok)"
  shows "sound_bucket capacity r now b' \<and> bk_last b' = now \<and>
    gives capacity now b' (if ok then n - 1 else n) \<and> (ok \<longrightarrow> 1 \<le> n)"
proof -
  from b obtain t where t: "bk_tokens b = Fin t" "0 \<le> t" and p: "bk_capacity b = capacity" "bk_refill b = Fin r"
    "bk_last b \<le> now" by (auto simp: sound_bucket_def)
  from g have n: "0 \<le> n" "n \<le> capacity" by (auto simp: gives_def)
  have full: "fl_of_int capacity = Fin (of_int capacity)" using assms by (simp add: fl_of_int_exact)
  let ?new = "fl_add (Fin t) (fl_mul (seconds (now - bk_last b)) (Fin r))"
  have "nonneg (seconds (now - bk_last b))" using p(3) by (intro nonneg_seconds) simp
  then have nn: "nonneg ?new" using t assms(3) by (intro nonneg_add nonneg_mul) (auto simp: nonneg_def)
  let ?tok = "if fl_less (Fin (of_int capacity)) ?new then Fin (of_int capacity) else ?new"
  have "\<exists>u. ?tok = Fin u \<and> 0 \<le> u \<and> u \<le> of_int n"
  proof (cases "bk_last b = now")
    case True
    with g t(1) have "t \<le> of_int n" by (simp add: gives_def)
    then obtain y where y: "fl_round t = Fin y" "0 \<le> y" "y \<le> of_int n"
      using fl_round_within [OF t(2)] n assms(2) by (metis order_trans)
    have z: "fl_round 0 = Fin 0" by (simp add: fl_round_def rnd_def)
    have "?new = Fin y" using True y(1) by (simp add: seconds_0 z)
    moreover have "(of_int n :: rat) \<le> of_int capacity" using n by simp
    ultimately show ?thesis using y by (auto intro: order_trans)
  next
    case False
    with g have "n = capacity" by (simp add: gives_def)
    with nn n show ?thesis by (auto simp: nonneg_def)
  qed
  then obtain u where u: "?tok = Fin u" "0 \<le> u" "u \<le> of_int n" by blast
  have a': "allow now b =
      (if u < 1 then (b\<lparr>bk_last := now, bk_last_seen := now, bk_tokens := Fin u\<rparr>, False)
       else (b\<lparr>bk_last := now, bk_last_seen := now, bk_tokens := fl_round (u - 1)\<rparr>, True))"
    using u(1) unfolding allow_def Let_def p t full by (simp only: u(1)) (simp add: fl_sub_def)
  show ?thesis
  proof (cases "u < 1")
    case True
    moreover have "u \<le> of_int capacity" using u(3) n by (metis of_int_le_iff order_trans)
    ultimately show ?thesis using a a' p u n by (auto simp: sound_bucket_def gives_def)
  next
    case False
    then have n1: "1 \<le> n" using u(3) by (metis linorder_not_less of_int_1 of_int_le_iff order_trans)
    have "0 \<le> u - 1" "u - 1 \<le> of_int (n - 1)" "n - 1 \<le> 2 ^ 53" using False u(3) n assms(2) by simp_all
    from fl_round_within [OF this] obtain y where "fl_round (u - 1) = Fin y" "0 \<le> y" "y \<le> of_int (n - 1)" .
    moreover have "(of_int (n - 1) :: rat) \<le> of_int capacity" using n by (simp only: of_int_le_iff)
    moreover from calculation have "y \<le> of_int capacity" by (metis order_trans)
    ultimately show ?thesis using a a' False p n n1 by (auto simp: sound_bucket_def gives_def)
  qed
qed

subsection \<open>A burst\<close>

text \<open>All requests of a burst read the same time; the result tells which were admitted.\<close>

fun burst :: "time \<Rightarrow> string list \<Rightarrow> rate_limiter \<Rightarrow> rate_limiter \<times> (string \<times> bool) list" where
  "burst now [] rl = (rl, [])"
| "burst now (k # ks) rl =
     (case admit now now now k rl of (rl1, ok) \<Rightarrow>
        (case burst now ks rl1 of (rl2, oks) \<Rightarrow> (rl2, (k, ok) # oks)))"

definition admitted :: "string \<Rightarrow> (string \<times> bool) list \<Rightarrow> int" where
  "admitted k oks = int (length (filter (\<lambda>x. x = (k, True)) oks))"

definition sound_limiter :: "rat \<Rightarrow> time \<Rightarrow> rate_limiter \<Rightarrow> bool" where
  "sound_limiter r now rl =
     (0 \<le> rl_capacity rl \<and> rl_capacity rl \<le> 2 ^ 53 \<and> 0 < r \<and> rl_refill rl = Fin r \<and>
      (\<forall>k b. aget (rl_buckets rl) k = Some b \<longrightarrow> sound_bucket (rl_capacity rl) r now b))"

definition recent :: "time \<Rightarrow> string \<Rightarrow> rate_limiter \<Rightarrow> bool" where
  "recent now k rl =
     (\<forall>b. aget (rl_buckets rl) k = Some b \<longrightarrow> now - bucket_idle_ttl \<le> bk_last_seen b)"

text \<open>What a client can still be given at this instant.\<close>

definition left :: "time \<Rightarrow> string \<Rightarrow> rate_limiter \<Rightarrow> int \<Rightarrow> bool" where
  "left now k rl n =
     (case aget (rl_buckets rl) k of
        None \<Rightarrow> n = rl_capacity rl
      | Some b \<Rightarrow> gives (rl_capacity rl) now b n)"

lemma filter_map_of:
  "avalid m \<Longrightarrow> aget (filter (\<lambda>(k, b). P b) m) k = (case aget m k of None \<Rightarrow> None | Some b \<Rightarrow> if P b then Some b else None)"
  by (induction m) (auto simp: avalid_def split: option.splits dest: map_of_SomeD intro: rev_image_eqI)

definition rl_valid :: "rate_limiter \<Rightarrow> bool" where
  "rl_valid rl = avalid (rl_buckets rl)"

lemma find_bucket_simps:
  assumes "find_bucket now k rl = (rl1, b)"
  shows "aget (rl_buckets rl1) = (aget (rl_buckets rl))(k \<mapsto> b)" "rl_capacity rl1 = rl_capacity rl"
    "rl_refill rl1 = rl_refill rl" "rl_valid rl \<Longrightarrow> rl_valid rl1"
    "aget (rl_buckets rl) k = None \<Longrightarrow> b = new_bucket now (rl_capacity rl) (rl_refill rl)"
    "aget (rl_buckets rl) k = Some b' \<Longrightarrow> b = b'"
  using assms by (auto simp: find_bucket_def rl_valid_def Let_def split: option.splits)

lemma maybe_sweep_simps:
  assumes "rl_valid rl"
  shows "rl_valid (maybe_sweep now rl)" "rl_capacity (maybe_sweep now rl) = rl_capacity rl"
    "rl_refill (maybe_sweep now rl) = rl_refill rl"
    "aget (rl_buckets (maybe_sweep now rl)) k \<in> {None, aget (rl_buckets rl) k}"
    "aget (rl_buckets rl) k = Some b \<Longrightarrow> now - bucket_idle_ttl \<le> bk_last_seen b \<Longrightarrow>
      aget (rl_buckets (maybe_sweep now rl)) k = Some b"
  using assms
  by (auto simp: maybe_sweep_def rl_valid_def filter_map_of avalid_def distinct_map_filter split: option.splits)

lemma sound_new: "sound_limiter r now rl \<Longrightarrow>
    sound_bucket (rl_capacity rl) r now (new_bucket now (rl_capacity rl) (rl_refill rl)) \<and>
    gives (rl_capacity rl) now (new_bucket now (rl_capacity rl) (rl_refill rl)) (rl_capacity rl)"
  by (simp add: sound_limiter_def sound_bucket_def gives_def new_bucket_def fl_of_int_exact)

lemma sound_gives: "0 \<le> c \<Longrightarrow> sound_bucket c r now b \<Longrightarrow> gives c now b c"
  by (auto simp: sound_bucket_def gives_def)

lemma found_sound:
  assumes "sound_limiter r now rl" and "find_bucket now k rl = (rl1, b)"
  shows "sound_bucket (rl_capacity rl) r now b" and "sound_limiter r now rl1"
proof -
  show b: "sound_bucket (rl_capacity rl) r now b"
    using assms(1) sound_new [OF assms(1)] find_bucket_simps(5,6) [OF assms(2)]
    by (cases "aget (rl_buckets rl) k") (auto simp: sound_limiter_def)
  then show "sound_limiter r now rl1"
    using assms(1) find_bucket_simps(1-3) [OF assms(2)] by (auto simp: sound_limiter_def)
qed

lemma swept_sound:
  assumes "sound_limiter r now rl" and "rl_valid rl"
  shows "sound_limiter r now (maybe_sweep now rl)"
proof -
  have "sound_bucket (rl_capacity rl) r now b" if "aget (rl_buckets (maybe_sweep now rl)) k = Some b" for k b
    using assms(1) maybe_sweep_simps(4) [OF assms(2), where now = now and k = k] that by (auto simp: sound_limiter_def)
  with assms maybe_sweep_simps(2,3) [OF assms(2)] show ?thesis by (simp add: sound_limiter_def)
qed

lemma admit_step:
  assumes s: "sound_limiter r now rl" and v: "rl_valid rl" and rec: "recent now k rl" and n: "left now k rl n"
    and a: "admit now now now k' rl = (rl', ok)"
  shows "sound_limiter r now rl' \<and> rl_valid rl' \<and> recent now k rl' \<and> rl_capacity rl' = rl_capacity rl \<and>
    left now k rl' (if k' = k \<and> ok then n - 1 else n) \<and> (k' = k \<and> ok \<longrightarrow> 1 \<le> n)"
proof -
  obtain rl1 b where f: "find_bucket now k' rl = (rl1, b)" by (cases "find_bucket now k' rl")
  obtain b' ok' where al: "allow now b = (b', ok')" by (cases "allow now b")
  let ?rl2 = "maybe_sweep now rl1" and ?c = "rl_capacity rl"
  note fs = find_bucket_simps [OF f]
  have v1: "rl_valid rl1" using fs(4) v by simp
  note ms = maybe_sweep_simps [OF v1, where now = now]
  have c: "0 \<le> ?c" "?c \<le> 2 ^ 53" "0 < r" using s by (simp_all add: sound_limiter_def)
  have s2: "sound_limiter r now ?rl2" by (rule swept_sound [OF found_sound(2) [OF s f] v1])
  have sb: "sound_bucket ?c r now b" by (rule found_sound(1) [OF s f])
  have rl': "rl' = (if aget (rl_buckets ?rl2) k' = None then ?rl2 else ?rl2\<lparr>rl_buckets := aput k' b' (rl_buckets ?rl2)\<rparr>)"
    and ok: "ok = ok'"
    using a by (simp_all add: admit_def f al Let_def split: if_splits)
  have cap: "rl_capacity ?rl2 = ?c" using ms(2) fs(2) by simp
  have sb': "sound_bucket ?c r now b'" "bk_last b' = now"
    using allow_gives [OF c sb sound_gives [OF c(1) sb] al] by simp_all
  have "sound_limiter r now rl'" using s2 sb'(1) cap by (auto simp: rl' sound_limiter_def)
  moreover have "rl_valid rl'" using ms(1) by (simp add: rl' rl_valid_def)
  moreover have cap': "rl_capacity rl' = ?c" using cap by (simp add: rl')
  moreover have "recent now k rl' \<and> left now k rl' (if k' = k \<and> ok then n - 1 else n) \<and> (k' = k \<and> ok \<longrightarrow> 1 \<le> n)"
  proof (cases "k' = k")
    case False
    have "aget (rl_buckets rl') k = aget (rl_buckets ?rl2) k" using False by (simp add: rl')
    also have "\<dots> = aget (rl_buckets rl) k"
      using ms(4) [where k = k] ms(5) [where k = k] rec fs(1) False
      by (cases "aget (rl_buckets rl) k") (auto simp: recent_def)
    finally show ?thesis using rec n False by (auto simp: recent_def left_def cap' split: option.splits)
  next
    case True
    have g: "gives ?c now b n"
      using n sound_new [OF s] fs(5,6) True by (auto simp: left_def split: option.splits)
    from allow_gives [OF c sb g al] have g': "gives ?c now b' (if ok then n - 1 else n)" "ok \<longrightarrow> 1 \<le> n"
      by (simp_all add: ok)
    have "now - bucket_idle_ttl \<le> bk_last_seen b"
      using rec fs(5,6) True
      by (cases "aget (rl_buckets rl) k") (auto simp: recent_def new_bucket_def bucket_idle_ttl_def minute_def second_def)
    then have "aget (rl_buckets ?rl2) k = Some b" using ms(5) [where k = k and b = b] fs(1) True by simp
    then have "aget (rl_buckets rl') k = Some b'" using True by (simp add: rl')
    moreover have "now - bucket_idle_ttl \<le> bk_last_seen b'"
      using sb' by (simp add: sound_bucket_def bucket_idle_ttl_def minute_def second_def)
    ultimately show ?thesis using g' True by (auto simp: recent_def left_def cap')
  qed
  ultimately show ?thesis by blast
qed

lemma burst_left:
  assumes "sound_limiter r now rl" "rl_valid rl" "recent now k rl" "left now k rl n" "0 \<le> n"
    and "burst now ks rl = (rl', oks)"
  shows "admitted k oks \<le> n"
  using assms
proof (induction ks arbitrary: rl n oks)
  case (Cons k' ks)
  obtain rl1 ok where a: "admit now now now k' rl = (rl1, ok)" by (cases "admit now now now k' rl")
  obtain rl2 oks' where b: "burst now ks rl1 = (rl2, oks')" by (cases "burst now ks rl1")
  let ?n = "if k' = k \<and> ok then n - 1 else n"
  from admit_step [OF Cons.prems(1-4) a] have st: "sound_limiter r now rl1" "rl_valid rl1" "recent now k rl1"
    "left now k rl1 ?n" "k' = k \<and> ok \<longrightarrow> 1 \<le> n" by simp_all
  then have "0 \<le> ?n" using Cons.prems(5) by auto
  from Cons.IH [OF st(1-4) this] b Cons.prems(6) a have "admitted k oks' \<le> ?n" by simp
  with Cons.prems(6) a b show ?case by (auto simp: admitted_def split: if_splits)
qed (simp add: admitted_def)


text \<open>A limiter of two tokens, with one client that has used both just now and one that is new.\<close>

definition spent_limiter :: rate_limiter where
  "spent_limiter =
     \<lparr>rl_buckets = [(''1.2.3.4'', \<lparr>bk_capacity = 2, bk_refill = Fin 5, bk_tokens = Fin 0, bk_last = 100,
        bk_last_seen = 100\<rparr>)], rl_capacity = 2, rl_refill = Fin 5, rl_trust = False, rl_inserts = 1,
      rl_last_swept = 100\<rparr>"


text \<open>A limiter with a bucket that the next request sweeps out.\<close>

definition idle_limiter :: rate_limiter where
  "idle_limiter =
     \<lparr>rl_buckets = [(''1.2.3.4'', \<lparr>bk_capacity = 1, bk_refill = Fin 1, bk_tokens = Fin 0, bk_last = second,
        bk_last_seen = second\<rparr>)], rl_capacity = 1, rl_refill = Fin 1, rl_trust = False, rl_inserts = 1,
      rl_last_swept = second\<rparr>"

lemma fl_round_int: "\<bar>n\<bar> \<le> 2 ^ 53 \<Longrightarrow> fl_round (of_int n) = Fin (of_int n)"
  using fl_of_int_exact [of n] by (simp add: fl_of_int_def)

lemma fl_round_small:
  "fl_round 0 = Fin 0" "fl_round 1 = Fin 1" "fl_round 660 = Fin 660"
  using fl_round_int [of 0] fl_round_int [of 1] fl_round_int [of 660] by simp_all

text \<open>
  The sweep hands an idle client one request more than its bucket holds.  The bucket is looked up,
  then swept out of the map, then charged; the client's next request finds none and gets a full one.
  With a capacity of one, two requests at the same instant pass.
\<close>

lemma idle_client_gets_extra:
  "map snd (snd (burst (second + 11 * minute) [''1.2.3.4'', ''1.2.3.4''] idle_limiter)) = [True, True]"
proof -
  have s: "seconds 660000000000 = Fin 660"
    by (simp add: seconds_def fl_of_int_def fl_round_small)
  show ?thesis
    by (simp add: idle_limiter_def admit_def find_bucket_def allow_def maybe_sweep_def new_bucket_def
        sweep_every_def bucket_idle_ttl_def minute_def second_def Let_def s seconds_0 fl_of_int_def
        fl_round_small fl_sub_def)
qed

definition nan_limiter :: "rate_limiter \<Rightarrow> bool" where
  "nan_limiter rl = (rl_refill rl = NaN \<and> list_all (\<lambda>(k, b). bk_refill b = NaN) (rl_buckets rl))"

lemma list_all_aput: "list_all P m \<Longrightarrow> P (k, v) \<Longrightarrow> list_all P (aput k v m)"
  by (induction m) auto

lemma nan_allow:
  "bk_refill b = NaN \<Longrightarrow> allow now b = (b\<lparr>bk_last := now, bk_last_seen := now, bk_tokens := NaN\<rparr>, True)"
proof -
  have "fl_mul x NaN = NaN" "fl_add x NaN = NaN" for x by (cases x; simp)+
  then show "bk_refill b = NaN \<Longrightarrow> ?thesis" by (simp add: allow_def Let_def fl_sub_def)
qed

lemma nan_found:
  assumes "nan_limiter rl" and "find_bucket now k rl = (rl1, b)"
  shows "nan_limiter rl1 \<and> bk_refill b = NaN"
proof (cases "aget (rl_buckets rl) k")
  case None
  with assms have "rl1 = rl\<lparr>rl_buckets := aput k b (rl_buckets rl), rl_inserts := rl_inserts rl + 1\<rparr>"
    and "bk_refill b = NaN"
    by (auto simp: find_bucket_def Let_def new_bucket_def nan_limiter_def)
  with assms(1) show ?thesis by (simp add: nan_limiter_def list_all_aput)
next
  case (Some b')
  then have "(k, b') \<in> set (rl_buckets rl)" by (rule map_of_SomeD)
  with assms Some show ?thesis by (auto simp: find_bucket_def nan_limiter_def list_all_iff)
qed

lemma nan_sweep: "nan_limiter rl \<Longrightarrow> nan_limiter (maybe_sweep now rl)"
  by (auto simp: maybe_sweep_def nan_limiter_def list_all_iff)

lemma nan_admit:
  assumes "nan_limiter rl"
  shows "\<exists>rl'. admit made swept used k rl = (rl', True) \<and> nan_limiter rl'"
proof -
  obtain rl1 b where f: "find_bucket made k rl = (rl1, b)" by (cases "find_bucket made k rl")
  with nan_found [OF assms f] nan_sweep [of rl1 swept] show ?thesis
    by (auto simp: admit_def Let_def nan_allow nan_limiter_def intro!: list_all_aput)
qed

text \<open>A rate that is not a number admits every request of every client.\<close>

lemma nan_rate_admits:
  "map snd (snd (burst now ks (new_rate_limiter capacity NaN))) = replicate (length ks) True"
proof -
  have "nan_limiter rl \<Longrightarrow> map snd (snd (burst now ks rl)) = replicate (length ks) True" for rl
  proof (induction ks arbitrary: rl)
    case (Cons k ks)
    from nan_admit [OF Cons.prems] obtain rl' where "admit now now now k rl = (rl', True)" "nan_limiter rl'" by blast
    with Cons.IH [of rl'] show ?case by (cases "burst now ks rl'") simp
  qed simp
  then show ?thesis by (simp add: nan_limiter_def new_rate_limiter_def)
qed

end
