(* ===== verification/Config.thy ===== *)
theory Config
  imports Rate_Limit Go_Path
begin

text \<open>
  \<open>internal/config/\<close>: the settings of the server, read from the environment (\<open>config.go\<close>), and the file that
  fills in what the environment does not set (\<open>envfile.go\<close>).  Of the standard library, the parsers of
  durations, floats and addresses are arguments, about which nothing is assumed.
\<close>

subsection \<open>Settings\<close>

record parsers =
  parse_duration :: "string \<Rightarrow> duration option"
  parse_float :: "string \<Rightarrow> float64 option"
  parse_ip :: "string \<Rightarrow> nat list option"
  show_float :: "float64 \<Rightarrow> string"

type_synonym env = "(string, string) amap"

record config =
  http_addr :: string
  data_dir :: string
  queue_buffer :: int
  worker_count :: int
  worktree_base_dir :: string
  shutdown_timeout :: duration
  cfg_job_timeout :: duration
  fanout_variants :: int
  anthropic_api_key :: string
  openai_api_key :: string
  provider :: string
  model_id :: string
  auth_token :: string
  rate_limit_burst :: int
  rate_limit_rps :: float64
  cfg_trust_proxy :: bool

definition get_env :: "env \<Rightarrow> string \<Rightarrow> string \<Rightarrow> string" where
  "get_env e k fallback = (case aget e k of Some v \<Rightarrow> if v \<noteq> [] then v else fallback | None \<Rightarrow> fallback)"

text \<open>\<open>getEnvInt\<close>, \<open>getEnvDuration\<close> and \<open>getEnvFloat\<close> differ in their parser only.\<close>

definition get_env_parsed :: "(string \<Rightarrow> 'a option) \<Rightarrow> env \<Rightarrow> string \<Rightarrow> 'a \<Rightarrow> 'a" where
  "get_env_parsed parse e k fallback =
     (case aget e k of
        Some v \<Rightarrow> if v \<noteq> [] then (case parse v of Some x \<Rightarrow> x | None \<Rightarrow> fallback) else fallback
      | None \<Rightarrow> fallback)"

definition get_env_int :: "env \<Rightarrow> string \<Rightarrow> int \<Rightarrow> int" where
  "get_env_int = get_env_parsed atoi"

definition get_env_duration :: "parsers \<Rightarrow> env \<Rightarrow> string \<Rightarrow> duration \<Rightarrow> duration" where
  "get_env_duration p = get_env_parsed (parse_duration p)"

definition get_env_float :: "parsers \<Rightarrow> env \<Rightarrow> string \<Rightarrow> float64 \<Rightarrow> float64" where
  "get_env_float p = get_env_parsed (parse_float p)"

definition get_env_bool :: "env \<Rightarrow> string \<Rightarrow> bool \<Rightarrow> bool" where
  "get_env_bool e k fallback =
     (case aget e k of
        None \<Rightarrow> fallback
      | Some v \<Rightarrow>
          if v = [] then fallback
          else let w = to_lower (trim_space v) in
            if w \<in> {''1'', ''t'', ''true'', ''on'', ''yes'', ''y'', ''enable'', ''enabled''} then True
            else if w \<in> {''0'', ''f'', ''false'', ''off'', ''no'', ''n'', ''disable'', ''disabled''} then False
            else fallback)"

definition getenv :: "env \<Rightarrow> string \<Rightarrow> string" where
  "getenv e k = (case aget e k of Some v \<Rightarrow> v | None \<Rightarrow> [])"

definition provider_anthropic :: string where
  "provider_anthropic = ''anthropic''"

definition provider_openai :: string where
  "provider_openai = ''openai''"

definition resolved_provider :: "config \<Rightarrow> string" where
  "resolved_provider c =
     (if provider c \<in> {provider_anthropic, provider_openai} then provider c
      else if anthropic_api_key c \<noteq> [] then provider_anthropic
      else if openai_api_key c \<noteq> [] then provider_openai
      else [])"

definition provider_api_key :: "config \<Rightarrow> string" where
  "provider_api_key c =
     (if resolved_provider c = provider_anthropic then anthropic_api_key c
      else if resolved_provider c = provider_openai then openai_api_key c
      else [])"

definition validate_config :: "parsers \<Rightarrow> config \<Rightarrow> go_err option" where
  "validate_config p c =
     (if http_addr c = [] then Some (Errorf ''ROJO_HTTP_ADDR must not be empty'' [])
      else if data_dir c = [] then Some (Errorf ''ROJO_DATA_DIR must not be empty'' [])
      else if queue_buffer c \<le> 0
      then Some (Errorf ''ROJO_QUEUE_BUFFER must be positive, got %d'' [FInt (queue_buffer c)])
      else if worker_count c \<le> 0
      then Some (Errorf ''ROJO_WORKER_COUNT must be positive, got %d'' [FInt (worker_count c)])
      else if shutdown_timeout c \<le> 0
      then Some (Errorf ''ROJO_SHUTDOWN_TIMEOUT must be positive, got %s'' [FStr (show_duration (shutdown_timeout c))])
      else if rate_limit_burst c \<le> 0
      then Some (Errorf ''ROJO_RATE_LIMIT_BURST must be positive, got %d (zero refuses every request)''
             [FInt (rate_limit_burst c)])
      else if fl_le (rate_limit_rps c) (Fin 0)
      then Some (Errorf ''ROJO_RATE_LIMIT_RPS must be positive, got %v (zero never refills the bucket)''
             [FStr (show_float p (rate_limit_rps c))])
      else if cfg_job_timeout c \<le> 0
      then Some (Errorf ''ROJO_JOB_TIMEOUT must be positive, got %s'' [FStr (show_duration (cfg_job_timeout c))])
      else if fanout_variants c < 1
      then Some (Errorf ''ROJO_FANOUT_VARIANTS must be at least 1, got %d'' [FInt (fanout_variants c)])
      else if provider c \<notin> {[], provider_anthropic, provider_openai}
      then Some (Errorf ''ROJO_PROVIDER must be %q or %q, got %q''
             [FQ provider_anthropic, FQ provider_openai, FQ (provider c)])
      else if provider c \<noteq> [] \<and> provider_api_key c = []
      then Some (Errorf ''ROJO_PROVIDER=%s but its API key is not set'' [FStr (provider c)])
      else None)"

definition default_http_addr :: string where
  "default_http_addr = ''127.0.0.1:8080''"

definition read_config :: "parsers \<Rightarrow> env \<Rightarrow> config" where
  "read_config p e =
     \<lparr>http_addr = get_env e ''ROJO_HTTP_ADDR'' default_http_addr,
      data_dir = get_env e ''ROJO_DATA_DIR'' ''./rojo-data'',
      queue_buffer = get_env_int e ''ROJO_QUEUE_BUFFER'' 64,
      worker_count = get_env_int e ''ROJO_WORKER_COUNT'' 4,
      worktree_base_dir = get_env e ''ROJO_WORKTREE_DIR'' ''/tmp/rojo-worktrees'',
      shutdown_timeout = get_env_duration p e ''ROJO_SHUTDOWN_TIMEOUT'' (15 * second),
      cfg_job_timeout = get_env_duration p e ''ROJO_JOB_TIMEOUT'' (30 * minute),
      fanout_variants = get_env_int e ''ROJO_FANOUT_VARIANTS'' 1,
      anthropic_api_key = getenv e ''ANTHROPIC_API_KEY'',
      openai_api_key = getenv e ''OPENAI_API_KEY'',
      provider = to_lower (trim_space (get_env e ''ROJO_PROVIDER'' [])),
      model_id = get_env e ''ROJO_MODEL'' [],
      auth_token = getenv e ''ROJO_AUTH_TOKEN'',
      rate_limit_burst = get_env_int e ''ROJO_RATE_LIMIT_BURST'' 30,
      rate_limit_rps = get_env_float p e ''ROJO_RATE_LIMIT_RPS'' (Fin 5),
      cfg_trust_proxy = get_env_bool e ''ROJO_TRUST_PROXY_HEADER'' False\<rparr>"

definition load_config :: "parsers \<Rightarrow> env \<Rightarrow> config result" where
  "load_config p e =
     (let c = read_config p e in case validate_config p c of Some err \<Rightarrow> Inl err | None \<Rightarrow> Inr c)"

text \<open>Addresses as \<open>net.IP\<close> keeps them: sixteen bytes, those of version 4 behind a fixed prefix.\<close>

definition v4_prefix :: "nat list" where
  "v4_prefix = replicate 10 0 @ [255, 255]"

definition ip_unspecified :: "nat list \<Rightarrow> bool" where
  "ip_unspecified ip = (ip = v4_prefix @ [0, 0, 0, 0] \<or> ip = replicate 16 0)"

definition ip_loopback :: "nat list \<Rightarrow> bool" where
  "ip_loopback ip =
     (if length ip = 16 \<and> take 12 ip = v4_prefix then ip ! 12 = 127 else ip = replicate 15 0 @ [1])"

definition is_publicly_bound :: "parsers \<Rightarrow> config \<Rightarrow> bool" where
  "is_publicly_bound p c =
     (case split_host_port (http_addr c) of
        None \<Rightarrow> True
      | Some (host, port) \<Rightarrow>
          if host = [] then True
          else if host = ''localhost'' then False
          else (case parse_ip p host of
              None \<Rightarrow> True
            | Some ip \<Rightarrow> if ip_unspecified ip then True else \<not> ip_loopback ip))"

definition redacted :: "string \<Rightarrow> string" where
  "redacted secret = (if secret = [] then ''[unset]'' else ''[set]'')"

text \<open>The attributes a log line gets; the values are the Go values handed to \<open>slog\<close>.\<close>

datatype attr = AStr string | AInt int | ADuration duration | AFloat float64

definition log_value :: "config \<Rightarrow> (string \<times> attr) list" where
  "log_value c =
     [(''http_addr'', AStr (http_addr c)), (''data_dir'', AStr (data_dir c)),
      (''queue_buffer'', AInt (queue_buffer c)), (''worker_count'', AInt (worker_count c)),
      (''worktree_dir'', AStr (worktree_base_dir c)), (''shutdown_timeout'', ADuration (shutdown_timeout c)),
      (''job_timeout'', ADuration (cfg_job_timeout c)), (''fanout_variants'', AInt (fanout_variants c)),
      (''rate_limit_burst'', AInt (rate_limit_burst c)), (''rate_limit_rps'', AFloat (rate_limit_rps c)),
      (''provider'', AStr (resolved_provider c)), (''model'', AStr (model_id c)),
      (''auth_token'', AStr (redacted (auth_token c))),
      (''anthropic_api_key'', AStr (redacted (anthropic_api_key c))),
      (''openai_api_key'', AStr (redacted (openai_api_key c)))]"

subsection \<open>The file of settings (\<open>envfile.go\<close>)\<close>

record env_file_result =
  ef_path :: string
  ef_set :: "string list"
  ef_skipped :: "string list"
  ef_world_readable :: bool

definition parse_env_line :: "string \<Rightarrow> (string \<times> string) option" where
  "parse_env_line raw =
     (let line0 = trim_space raw in
      if line0 = [] \<or> has_prefix line0 ''#'' then None
      else let line = trim_prefix line0 ''export '' in
        case index_byte line (CHR ''='') of
          None \<Rightarrow> None
        | Some eq \<Rightarrow>
            let key = trim_space (take eq line); val = trim_space (drop (eq + 1) line) in
            if 2 \<le> length val \<and>
               (hd val = CHR 0x22 \<and> last val = CHR 0x22 \<or> hd val = CHR 0x27 \<and> last val = CHR 0x27)
            then Some (key, take (length val - 2) (drop 1 val))
            else Some (key, case index_str val '' #'' of None \<Rightarrow> val | Some i \<Rightarrow> trim_space (take i val)))"

text \<open>\<open>os.Setenv\<close>: a name without a NUL byte and a value without one are accepted.\<close>

definition setenv :: "string \<Rightarrow> string \<Rightarrow> env \<Rightarrow> env \<times> go_err option" where
  "setenv k v e =
     (if k = [] \<or> CHR ''='' \<in> set k \<or> CHR 0x00 \<in> set k \<or> CHR 0x00 \<in> set v
      then (e, Some (Errorf ''setenv: invalid argument'' [])) else (aput k v e, None))"

text \<open>The lines of \<open>bufio.Scanner\<close>, without their line ends; a line over its 64 KiB buffer ends it.\<close>

definition max_scan_token :: nat where
  "max_scan_token = 65536"

definition drop_cr :: "string \<Rightarrow> string" where
  "drop_cr l = (if l \<noteq> [] \<and> last l = CHR 0x0D then butlast l else l)"

definition scan_lines :: "string \<Rightarrow> string list" where
  "scan_lines s =
     (let ls = split_on (CHR 0x0A) s in if last ls = [] then butlast ls else ls)"

text \<open>The loop over the lines; \<open>n\<close> is the number of the next line and \<open>read_err\<close> what reading ends with.\<close>

fun env_lines ::
    "string \<Rightarrow> nat \<Rightarrow> string list \<Rightarrow> go_err option \<Rightarrow> env \<Rightarrow> env_file_result \<Rightarrow>
     env \<times> env_file_result \<times> go_err option" where
  "env_lines path n [] read_err e res =
     (e, res, map_option (\<lambda>x. Errorf ''read env file %s: %w'' [FStr path, FW x]) read_err)"
| "env_lines path n (l # ls) read_err e res =
     (if max_scan_token \<le> length l
      then (e, res, Some (Errorf ''read env file %s: %w''
             [FStr path, FW (Errorf ''bufio.Scanner: token too long'' [])]))
      else case parse_env_line (drop_cr l) of
        None \<Rightarrow> env_lines path (Suc n) ls read_err e res
      | Some (key, val) \<Rightarrow>
          if key = [] then (e, res, Some (Errorf ''%s:%d: line has no variable name'' [FStr path, FInt (int n)]))
          else if aget e key \<noteq> None
          then env_lines path (Suc n) ls read_err e (res\<lparr>ef_skipped := ef_skipped res @ [key]\<rparr>)
          else (case setenv key val e of
              (e', Some x) \<Rightarrow>
                (e', res, Some (Errorf ''%s:%d: set %s: %w'' [FStr path, FInt (int n), FStr key, FW x]))
            | (e', None) \<Rightarrow> env_lines path (Suc n) ls read_err e' (res\<lparr>ef_set := ef_set res @ [key]\<rparr>)))"

text \<open>
  What opening and reading the file gives: an error, or its permission bits if \<open>Stat\<close> works, its bytes and
  the error reading ends with, if any.
\<close>

record env_file =
  fl_mode :: "nat option"
  fl_content :: string
  fl_read_err :: "go_err option"

definition error_is_not_exist :: "go_err \<Rightarrow> bool" where
  "error_is_not_exist x = (err_is x ErrNotExist \<or> contains_str (err_text x) ''file does not exist'')"

definition load_env_file :: "string \<Rightarrow> env_file result \<Rightarrow> env \<Rightarrow> env \<times> env_file_result \<times> go_err option" where
  "load_env_file path file e =
     (let res = \<lparr>ef_path = [], ef_set = [], ef_skipped = [], ef_world_readable = False\<rparr> in
      case file of
        Inl x \<Rightarrow>
          if error_is_not_exist x then (e, res, None)
          else (e, res, Some (Errorf ''open env file %s: %w'' [FStr path, FW x]))
      | Inr f \<Rightarrow>
          env_lines path 1 (scan_lines (fl_content f)) (fl_read_err f) e
            (res\<lparr>ef_path := path,
                 ef_world_readable := (case fl_mode f of None \<Rightarrow> False | Some m \<Rightarrow> m mod 64 \<noteq> 0)\<rparr>))"

definition env_file_log :: "env_file_result \<Rightarrow> (string \<times> string list) list" where
  "env_file_log r = [(''path'', [ef_path r]), (''set'', ef_set r), (''overridden_by_environment'', ef_skipped r)]"

subsection \<open>What the settings guarantee\<close>

text \<open>
  A configuration that loads is one the service can run with.  Sizes, counts and timeouts are positive,
  the refill rate is not zero or negative, the provider is known, and a provider that will be used
  has its key.
\<close>

lemma loaded_config_is_usable:
  assumes "load_config p e = Inr c"
  shows "http_addr c \<noteq> [] \<and> data_dir c \<noteq> [] \<and> 0 < queue_buffer c \<and> 0 < worker_count c \<and>
    0 < shutdown_timeout c \<and> 0 < cfg_job_timeout c \<and> 1 \<le> fanout_variants c \<and> 0 < rate_limit_burst c \<and>
    \<not> fl_le (rate_limit_rps c) (Fin 0) \<and> provider c \<in> {[], ''anthropic'', ''openai''} \<and>
    (resolved_provider c = [] \<longleftrightarrow> provider_api_key c = [])"
proof -
  from assms have v: "validate_config p c = None" by (simp add: load_config_def Let_def split: option.splits)
  then have p: "provider c \<in> {[], provider_anthropic, provider_openai}" "provider c \<noteq> [] \<Longrightarrow> provider_api_key c \<noteq> []"
    by (auto simp: validate_config_def split: if_splits)
  have d: "provider_anthropic \<noteq> provider_openai" "provider_anthropic \<noteq> []" "provider_openai \<noteq> []"
    by (simp_all add: provider_anthropic_def provider_openai_def)
  have "resolved_provider c = [] \<longleftrightarrow> provider_api_key c = []"
    using p d by (auto simp: resolved_provider_def provider_api_key_def)
  with p v show ?thesis
    by (simp add: validate_config_def provider_anthropic_def provider_openai_def split: if_splits)
qed

text \<open>
  C32: secrets never reach the log.  What a log line shows of a configuration is the same for any two
  values of the token and of the keys, as long as each is set or unset in both.
\<close>

theorem log_hides_secrets:
  assumes "t = [] \<longleftrightarrow> auth_token c = []" and "a = [] \<longleftrightarrow> anthropic_api_key c = []"
    and "b = [] \<longleftrightarrow> openai_api_key c = []"
  shows "log_value (c\<lparr>auth_token := t, anthropic_api_key := a, openai_api_key := b\<rparr>) = log_value c"
  using assms by (simp add: log_value_def redacted_def resolved_provider_def)

text \<open>Parsers that refuse everything, for the examples: what they would read falls back to its default.\<close>

definition no_parsers :: parsers where
  "no_parsers = \<lparr>parse_duration = (\<lambda>s. None), parse_float = (\<lambda>s. None), parse_ip = (\<lambda>s. None),
     show_float = (\<lambda>f. [])\<rparr>"

definition example_env :: env where
  "example_env = [(''ROJO_PROVIDER'', ''OpenAI ''), (''OPENAI_API_KEY'', ''sk-1''), (''ROJO_AUTH_TOKEN'', ''t'')]"

lemma example_env_loads: "load_config no_parsers example_env = Inr (read_config no_parsers example_env)"
proof -
  have "validate_config no_parsers (read_config no_parsers example_env) = None" by code_simp
  then show ?thesis by (simp add: load_config_def)
qed

theorem loaded_config_is_usable_witness:
  "let c = read_config no_parsers example_env in 0 < worker_count c \<and> provider_api_key c = ''sk-1''"
  using loaded_config_is_usable [OF example_env_loads]
  by (simp add: Let_def read_config_def provider_api_key_def resolved_provider_def) code_simp

theorem log_hides_secrets_witness:
  "let c = read_config no_parsers example_env
   in log_value (c\<lparr>auth_token := ''u'', anthropic_api_key := [], openai_api_key := ''sk-2''\<rparr>) = log_value c"
proof -
  have "auth_token (read_config no_parsers example_env) = ''t''"
    and "anthropic_api_key (read_config no_parsers example_env) = []"
    and "openai_api_key (read_config no_parsers example_env) = ''sk-1''"
    by (simp_all add: read_config_def getenv_def example_env_def)
  then show ?thesis unfolding Let_def by (intro log_hides_secrets) simp_all
qed

text \<open>
  A refill rate of \<open>NaN\<close>, which \<open>strconv.ParseFloat\<close> reads as not a number, is a setting the service
  starts with, since no comparison with it holds; the limiter made of it then admits every request of every client.
\<close>

lemma nan_setting_disables_limiter:
  assumes "parse_float p ''NaN'' = Some NaN"
  shows "\<exists>c. load_config p [(''ROJO_RATE_LIMIT_RPS'', ''NaN'')] = Inr c \<and>
    map snd (snd (burst now ks (new_rate_limiter (rate_limit_burst c) (rate_limit_rps c)))) = replicate (length ks) True"
proof -
  let ?c = "read_config p [(''ROJO_RATE_LIMIT_RPS'', ''NaN'')]"
  have env: "get_env [(''ROJO_RATE_LIMIT_RPS'', ''NaN'')] k f = f"
    "get_env_parsed q [(''ROJO_RATE_LIMIT_RPS'', ''NaN'')] k x = x" "getenv [(''ROJO_RATE_LIMIT_RPS'', ''NaN'')] k = []"
    if "k \<noteq> ''ROJO_RATE_LIMIT_RPS''" for k f q and x :: 'x
    using that by (simp_all add: get_env_def get_env_parsed_def getenv_def)
  have rps: "rate_limit_rps ?c = NaN"
    using assms by (simp add: read_config_def get_env_float_def get_env_parsed_def)
  have "validate_config p ?c = None"
    using rps by (simp add: validate_config_def read_config_def env get_env_int_def get_env_duration_def
      second_def minute_def default_http_addr_def)
  then show ?thesis using rps nan_rate_admits by (simp add: load_config_def)
qed

theorem nan_setting_disables_limiter_witness:
  "let p = no_parsers\<lparr>parse_float := (\<lambda>s. if s = ''NaN'' then Some NaN else None)\<rparr>
   in \<exists>c. load_config p [(''ROJO_RATE_LIMIT_RPS'', ''NaN'')] = Inr c \<and>
     map snd (snd (burst 0 [''a'', ''a''] (new_rate_limiter (rate_limit_burst c) (rate_limit_rps c)))) = [True, True]"
  using nan_setting_disables_limiter [of "no_parsers\<lparr>parse_float := (\<lambda>s. if s = ''NaN'' then Some NaN else None)\<rparr>"
      0 "[''a'', ''a'']"]
  by (simp add: Let_def)

subsection \<open>The file fills gaps and overrides nothing\<close>

lemma setenv_ok: "setenv key val e = (e', None) \<Longrightarrow> e' = aput key val e"
  and setenv_fails: "setenv key val e = (e', Some x) \<Longrightarrow> e' = e"
  by (auto simp: setenv_def split: if_splits)

lemma env_lines_fill:
  assumes "env_lines path n ls re e res = (e', res', x)"
  shows "(aget e k \<noteq> None \<longrightarrow> aget e' k = aget e k) \<and>
    (k \<in> set (ef_set res') \<longleftrightarrow> k \<in> set (ef_set res) \<or> aget e k = None \<and> aget e' k \<noteq> None)"
  using assms
proof (induction path n ls re e res rule: env_lines.induct)
  case (2 path n l ls re e res)
  show ?case
  proof (cases "parse_env_line (drop_cr l)")
    case None
    with 2 show ?thesis by (auto split: if_splits)
  next
    case (Some kv)
    obtain key val where kv: "kv = (key, val)" by (cases kv)
    obtain e1 x1 where s: "setenv key val e = (e1, x1)" by (cases "setenv key val e")
    consider (long) "max_scan_token \<le> length l" | (anonymous) "\<not> max_scan_token \<le> length l" "key = []"
      | (present) v where "\<not> max_scan_token \<le> length l" "key \<noteq> []" "aget e key = Some v"
      | (refused) y where "\<not> max_scan_token \<le> length l" "key \<noteq> []" "aget e key = None" "x1 = Some y"
      | (taken) "\<not> max_scan_token \<le> length l" "key \<noteq> []" "aget e key = None" "x1 = None"
      by (cases x1; cases "aget e key") auto
    then show ?thesis
    proof cases
      case refused
      with 2 Some kv s show ?thesis by (auto dest: setenv_fails)
    next
      case taken
      with s have e1: "e1 = aput key val e" by (auto dest: setenv_ok)
      from 2 Some kv s taken
      have "(aget e1 k \<noteq> None \<longrightarrow> aget e' k = aget e1 k) \<and>
        (k \<in> set (ef_set res') \<longleftrightarrow> k \<in> set (ef_set res @ [key]) \<or> aget e1 k = None \<and> aget e' k \<noteq> None)"
        by (auto split: prod.splits)
      with taken show ?thesis by (auto simp: e1 split: if_splits)
    qed (use 2 Some kv in auto)
  qed
qed auto


definition example_file :: env_file where
  "example_file = \<lparr>fl_mode = Some 420, fl_content = ''export A=1'' @ [CHR 0x0A] @ ''B=2 # two'' @ [CHR 0x0A],
     fl_read_err = None\<rparr>"

lemma example_file_lines: "scan_lines (fl_content example_file) = [''export A=1'', ''B=2 # two'']"
  by code_simp

lemma example_file_parses:
  "parse_env_line (drop_cr ''export A=1'') = Some (''A'', ''1'')"
  "parse_env_line (drop_cr ''B=2 # two'') = Some (''B'', ''2'')"
  by code_simp+


subsection \<open>A written file reads back\<close>

definition env_name :: "string \<Rightarrow> bool" where
  "env_name k = (k \<noteq> [] \<and> hd k \<noteq> CHR ''#'' \<and> list_all (\<lambda>c. plain_char c \<and> c \<noteq> CHR ''='') k)"

definition env_entry :: "string \<times> string \<Rightarrow> string" where
  "env_entry kv = fst kv @ [CHR ''='', CHR 0x22] @ snd kv @ [CHR 0x22]"

lemma env_name_not_export: "env_name k \<Longrightarrow> \<not> has_prefix (k @ CHR ''='' # r) ''export ''"
proof
  assume k: "env_name k" and p: "has_prefix (k @ CHR ''='' # r) ''export ''"
  have "\<not> plain_char (CHR '' '')" by code_simp
  with k have sp: "CHR '' '' \<notin> set k" by (auto simp: env_name_def list_all_iff)
  have eq: "take 7 (k @ CHR ''='' # r) = ''export ''" using p by (simp add: has_prefix_def eval_nat_numeral)
  show False
  proof (cases "length k < 7")
    case True
    then have "CHR ''='' \<in> set (take 7 (k @ CHR ''='' # r))" by (auto simp: take_Cons')
    with eq show False by simp
  next
    case False
    then have "take 7 k = ''export ''" using eq by simp
    then have "CHR '' '' \<in> set (take 7 k)" by simp
    with sp show False by (meson in_set_takeD)
  qed
qed

lemma parse_env_entry:
  assumes "env_name (fst kv)"
  shows "parse_env_line (env_entry kv) = Some kv"
proof -
  obtain k v where kv: "kv = (k, v)" by (cases kv)
  let ?val = "CHR 0x22 # v @ [CHR 0x22]" and ?l = "k @ CHR ''='' # CHR 0x22 # v @ [CHR 0x22]"
  have k: "env_name k" using assms kv by simp
  have q: "plain_char (CHR 0x22)" by code_simp
  have hd: "hd ?l = hd k" "k \<noteq> []" "hd k \<noteq> CHR ''#''" and all: "\<forall>c \<in> set k. plain_char c"
    and ne: "CHR ''='' \<notin> set k" using k by (auto simp: env_name_def list_all_iff)
  have t1: "trim_space ?l = ?l" by (rule trim_space_plain) (use hd all q in \<open>auto simp: last_append\<close>)
  have t2: "trim_space k = k" by (rule trim_space_plain) (use hd all in auto)
  have t3: "trim_space ?val = ?val" by (rule trim_space_plain) (use q in auto)
  have "\<not> has_prefix ?l ''#''" using hd by (cases k) (auto simp: has_prefix_def)
  moreover have "trim_prefix ?l ''export '' = ?l" using env_name_not_export [OF k] by (simp add: trim_prefix_def)
  moreover have "index_byte ?l (CHR ''='') = Some (length k)" using ne by (rule index_byte_first)
  ultimately show ?thesis
    unfolding parse_env_line_def env_entry_def kv by (simp add: t1 t2 t3 Let_def)
qed

text \<open>An entry that a line of the file can hold.\<close>

definition env_setting :: "string \<times> string \<Rightarrow> bool" where
  "env_setting kv =
     (env_name (fst kv) \<and> CHR 0x0A \<notin> set (snd kv) \<and> CHR 0x00 \<notin> set (snd kv) \<and>
      length (env_entry kv) < max_scan_token)"

definition env_content :: "(string \<times> string) list \<Rightarrow> string" where
  "env_content kvs = concat (map (\<lambda>kv. env_entry kv @ [CHR 0x0A]) kvs)"

lemma env_name_plain: "env_name k \<Longrightarrow> \<not> plain_char c \<Longrightarrow> c \<notin> set k"
  by (auto simp: env_name_def list_all_iff)

lemma scan_env_content:
  assumes "list_all env_setting kvs"
  shows "scan_lines (env_content kvs) = map env_entry kvs"
proof -
  have "split_on (CHR 0x0A) (env_content kvs) = map env_entry kvs @ [[]]" using assms
  proof (induction kvs)
    case (Cons kv kvs)
    have "\<not> plain_char (CHR 0x0A)" by code_simp
    with Cons.prems have "CHR 0x0A \<notin> set (env_entry kv)"
      by (auto simp: env_setting_def env_entry_def env_name_plain)
    with Cons show ?case by (simp add: env_content_def split_on_append_sep split_on_nosep)
  qed (simp add: env_content_def)
  then show ?thesis by (simp add: scan_lines_def Let_def)
qed

lemma setenv_setting: "env_setting kv \<Longrightarrow> setenv (fst kv) (snd kv) e = (aput (fst kv) (snd kv) e, None)"
proof -
  assume kv: "env_setting kv"
  have "\<not> plain_char (CHR 0x00)" by code_simp
  with kv show ?thesis by (auto simp: setenv_def env_setting_def env_name_plain) (auto simp: env_name_def list_all_iff)
qed

lemma env_lines_entries:
  assumes "list_all env_setting kvs" and "distinct (map fst kvs)" and "\<And>k. k \<in> fst ` set kvs \<Longrightarrow> aget e k = None"
  shows "env_lines path n (map env_entry kvs) None e res =
    (fold (\<lambda>kv. aput (fst kv) (snd kv)) kvs e, res\<lparr>ef_set := ef_set res @ map fst kvs\<rparr>, None)"
  using assms
proof (induction kvs arbitrary: n e res)
  case (Cons kv kvs)
  have kv: "env_setting kv" and name: "env_name (fst kv)" "fst kv \<noteq> []"
    using Cons.prems(1) by (auto simp: env_setting_def env_name_def)
  have cr: "drop_cr (env_entry kv) = env_entry kv" by (simp add: drop_cr_def env_entry_def)
  have fresh: "k \<in> fst ` set kvs \<Longrightarrow> aget (aput (fst kv) (snd kv) e) k = None" for k
    using Cons.prems(2,3) by (auto simp: rev_image_eqI)
  have none: "aget e (fst kv) = None" using Cons.prems(3) by simp
  have short: "\<not> max_scan_token \<le> length (env_entry kv)" using kv by (simp add: env_setting_def)
  obtain k v where [simp]: "kv = (k, v)" by (cases kv)
  show ?case
    using Cons.IH [of "aput (fst kv) (snd kv) e"] Cons.prems fresh none short name
      setenv_setting [OF kv, of e] parse_env_entry [OF name(1)] cr
    by simp
qed simp

lemma aget_fold_aput:
  "distinct (map fst kvs) \<Longrightarrow>
   aget (fold (\<lambda>kv. aput (fst kv) (snd kv)) kvs e) k = (case map_of kvs k of Some v \<Rightarrow> Some v | None \<Rightarrow> aget e k)"
  by (induction kvs arbitrary: e) (auto split: option.splits dest!: map_of_SomeD intro: rev_image_eqI)

text \<open>
  C30: a file of settings reads back.  When each line is a name, an equals sign and a double-quoted value, then every
  value arrives as it was, whatever spaces, quotes or comment signs it holds.
\<close>

theorem env_file_reads_back:
  assumes "list_all env_setting kvs" and "distinct (map fst kvs)" and "list_all (\<lambda>kv. aget e (fst kv) = None) kvs"
  shows "case load_env_file path (Inr \<lparr>fl_mode = m, fl_content = env_content kvs, fl_read_err = None\<rparr>) e of
     (e', res, x) \<Rightarrow>
       x = None \<and> ef_set res = map fst kvs \<and> ef_skipped res = [] \<and>
       (\<forall>k. aget e' k = (case map_of kvs k of Some v \<Rightarrow> Some v | None \<Rightarrow> aget e k))"
proof -
  have "k \<in> fst ` set kvs \<Longrightarrow> aget e k = None" for k using assms(3) by (auto simp: list_all_iff)
  then show ?thesis
    using assms(1,2) by (simp add: load_env_file_def Let_def scan_env_content env_lines_entries aget_fold_aput)
qed

theorem env_file_reads_back_witness:
  "case load_env_file ''.env'' (Inr \<lparr>fl_mode = None,
      fl_content = env_content [(''TOKEN'', '' a # b''), (''KEY'', [CHR 0x22])], fl_read_err = None\<rparr>) [(''A'', ''0'')] of
     (e', res, x) \<Rightarrow> aget e' ''TOKEN'' = Some '' a # b'' \<and> aget e' ''A'' = Some ''0''"
proof -
  have "list_all env_setting [(''TOKEN'', '' a # b''), (''KEY'', [CHR 0x22])]"
    by (simp add: env_setting_def env_name_def env_entry_def plain_char_def max_scan_token_def)
  from env_file_reads_back [OF this, of "[(''A'', ''0'')]" "''.env''" None] show ?thesis by (auto split: prod.splits)
qed

end
