(* ===== verification/Mcp_Server.thy ===== *)
theory Mcp_Server
  imports Mcp_Gate Config
begin

text \<open>
  The tool around the gate: \<open>internal/mcpserver/server.go\<close> and \<open>cmd/rojo-mcp/main.go\<close>.  The MCP library, which calls the
  handler, is left out; the worktree manager over a base directory is a parameter.
\<close>

subsection \<open>Settings\<close>

record mcp_config =
  mg_worktree_dir :: string
  mg_max_check_output :: int
  mg_max_diff :: int

definition default_worktree_dir :: string where
  "default_worktree_dir = ''/tmp/rojo-mcp-worktrees''"

definition env_int :: "env \<Rightarrow> string \<Rightarrow> int" where
  "env_int e k =
     (case aget e k of
        None \<Rightarrow> 0
      | Some v \<Rightarrow> if v = [] then 0 else (case atoi v of None \<Rightarrow> 0 | Some n \<Rightarrow> if n < 0 then 0 else n))"

definition mcp_settings :: "env \<Rightarrow> mcp_config" where
  "mcp_settings e =
     \<lparr>mg_worktree_dir = getenv e ''ROJO_MCP_WORKTREE_DIR'', mg_max_check_output = env_int e ''ROJO_MCP_MAX_CHECK_OUTPUT'',
      mg_max_diff = env_int e ''ROJO_MCP_MAX_DIFF''\<rparr>"

definition new_gate ::
    "(string \<Rightarrow> 'w workspaces) \<Rightarrow> ('w \<times> tree) verifier \<Rightarrow> ('w \<Rightarrow> 'w \<times> root_env) \<Rightarrow>
     (nat \<Rightarrow> 'w \<Rightarrow> 'w \<times> string) \<Rightarrow> mcp_config \<Rightarrow> 'w gate" where
  "new_gate manager checks rt rand c =
     \<lparr>gt_workspaces = manager (if mg_worktree_dir c = [] then default_worktree_dir else mg_worktree_dir c),
      gt_checks = checks, gt_root = rt, gt_rand = rand, gt_max_check_output = mg_max_check_output c,
      gt_max_diff = mg_max_diff c\<rparr>"

subsection \<open>The tool\<close>

definition no_verify_result :: verify_result where
  "no_verify_result =
     \<lparr>vf_passed = False, vf_summary = [], vf_checks = [], vf_changed_files = [], vf_diff = [], vf_truncated = []\<rparr>"

text \<open>The handler of \<open>rojo_verify\<close>: the text for the model, if any, the structured result and an error.\<close>

definition verify_tool :: "'w gate \<Rightarrow> verify_request \<Rightarrow> ('w, string option \<times> verify_result \<times> go_err option) act" where
  "verify_tool g req x =
     (case gate_verify g req x of
        (x', Panic p) \<Rightarrow> (x', Panic p)
      | (x', Return (Inl e)) \<Rightarrow> (x', Return (None, no_verify_result, Some e))
      | (x', Return (Inr res)) \<Rightarrow> (x', Return (Some (summarize res), res, None)))"

text \<open>How the program ends when the transport has; a cancelled context is not a failure.\<close>

definition mcp_exit :: "go_err option \<Rightarrow> bool \<Rightarrow> int" where
  "mcp_exit run_err ctx_done = (if run_err \<noteq> None \<and> \<not> ctx_done then 1 else 0)"

subsection \<open>What the caller reads\<close>

lemma env_int_nonneg: "0 \<le> env_int e k"
  by (auto simp: env_int_def split: option.split)

text \<open>Whatever the environment says, the limits of the answer are positive.\<close>

lemma limits_positive:
  "0 < max_check_output (new_gate manager checks rt rand c)" "0 < max_diff (new_gate manager checks rt rand c)"
  by (auto simp: max_check_output_def max_diff_def default_max_check_output_def default_max_diff_def)

text \<open>The first word of the text is the verdict of the structured result.\<close>

lemma summary_tells_verdict:
  "has_prefix (summarize res) ''PASSED '' \<longleftrightarrow> vf_passed res" "has_prefix (summarize res) ''FAILED '' \<longleftrightarrow> \<not> vf_passed res"
  by (auto simp: summarize_def verdict_def has_prefix_def)

lemma verify_tool_agrees:
  assumes "verify_tool g req x = (x', Return (Some txt, res, eo))"
  shows "eo = None \<and> (has_prefix txt ''PASSED '' \<longleftrightarrow> vf_passed res)"
  using assms summary_tells_verdict(1) by (auto simp: verify_tool_def split: prod.splits outcome.splits sum.splits)

lemma clip_bound: "0 \<le> m \<Longrightarrow> int (length (fst (clip s m))) \<le> m + 16"
  by (auto simp: clip_def)

end
