(* ===== verification/Model_Clients.thy ===== *)
theory Model_Clients
  imports Agents Metrics Config
begin

text \<open>
  \<open>internal/agents/model\<close>, \<open>internal/metrics/model.go\<close> and the choice of the provider in \<open>cmd/api/main.go\<close>: the two
  model clients, over the calls of their SDKs, and the decorator that counts what they use.
\<close>

subsection \<open>The interface (\<open>client.go\<close>)\<close>

record model_request =
  mr_system :: string
  mr_prompt :: string
  mr_max_toks :: int

record model_response =
  mo_text :: string
  mo_model :: string
  mo_usage :: usage

definition usage_total :: "usage \<Rightarrow> int64" where
  "usage_total u = us_input u + us_output u"

definition no_response :: model_response where
  "no_response = \<lparr>mo_text = [], mo_model = [], mo_usage = \<lparr>us_input = 0, us_output = 0\<rparr>\<rparr>"

text \<open>\<open>Generate\<close> returns a response and an error; on an error the response may still be looked at.\<close>

type_synonym 'w model_client = "model_request \<Rightarrow> 'w \<Rightarrow> 'w \<times> model_response \<times> go_err option"

definition fake_generate :: "string \<Rightarrow> go_err option \<Rightarrow> usage \<Rightarrow> 'w model_client" where
  "fake_generate reply eo u req w =
     (case eo of Some e \<Rightarrow> (w, no_response, Some e)
      | None \<Rightarrow> (w, \<lparr>mo_text = reply, mo_model = ''fake'', mo_usage = u\<rparr>, None))"

subsection \<open>Options\<close>

record client_options =
  co_api_key :: string
  co_model :: string
  co_timeout :: duration
  co_max_retries :: int
  co_base_url :: string

datatype request_option = With_API_Key string | With_Timeout duration | With_Max_Retries int | With_Base_URL string

definition request_options :: "client_options \<Rightarrow> request_option list" where
  "request_options c =
     (if co_api_key c \<noteq> [] then [With_API_Key (co_api_key c)] else []) @
     (if 0 < co_timeout c then [With_Timeout (co_timeout c)] else []) @
     (if 0 < co_max_retries c then [With_Max_Retries (co_max_retries c)] else []) @
     (if co_base_url c \<noteq> [] then [With_Base_URL (co_base_url c)] else [])"

definition default_max_tokens :: int where
  "default_max_tokens = 16000"

definition token_budget :: "model_request \<Rightarrow> int" where
  "token_budget req = (if mr_max_toks req \<le> 0 then default_max_tokens else mr_max_toks req)"

text \<open>The error for an answer that was cut off; the two clients word it alike.\<close>

definition cut_off :: "model_request \<Rightarrow> go_err" where
  "cut_off req =
     Errorf ''%w: %d tokens were not enough to finish the answer; the change is probably too large for one response''
       [FW (Sentinel ErrTruncated), FInt (token_budget req)]"

subsection \<open>Anthropic (\<open>anthropic.go\<close>)\<close>

record anthropic_params =
  an_model :: string
  an_max_tokens :: int
  an_user_text :: string
  an_thinking_adaptive :: bool
  an_system :: "string list"

datatype content_block = Text_Block string | Other_Block

record anthropic_message =
  am_content :: "content_block list"
  am_stop_reason :: string
  am_model :: string
  am_usage :: usage

text \<open>The SDK: sending a message, and the status of an API error that \<open>errors.As\<close> finds in an error.\<close>

record 'w anthropic_sdk =
  sdk_message :: "request_option list \<Rightarrow> anthropic_params \<Rightarrow> 'w \<Rightarrow> 'w \<times> anthropic_message result"
  sdk_status :: "go_err \<Rightarrow> int option"
  sdk_default_model :: string

definition anthropic_model :: "'w anthropic_sdk \<Rightarrow> client_options \<Rightarrow> string" where
  "anthropic_model sdk opts = (if co_model opts \<noteq> [] then co_model opts else sdk_default_model sdk)"

definition describe_api_error :: "(go_err \<Rightarrow> int option) \<Rightarrow> go_err \<Rightarrow> go_err" where
  "describe_api_error code_of e =
     (case code_of e of
        None \<Rightarrow> Errorf ''call anthropic api: %w'' [FW e]
      | Some c \<Rightarrow>
          if c = 401 then Errorf ''anthropic auth failed (check ANTHROPIC_API_KEY): %w'' [FW e]
          else if c = 404 then Errorf ''anthropic model not found (check the configured model id): %w'' [FW e]
          else if c = 413 then Errorf ''anthropic request too large (reduce the prompt or context): %w'' [FW e]
          else if c = 429 then Errorf ''anthropic rate limited after retries: %w'' [FW e]
          else if 500 \<le> c then Errorf ''anthropic server error %d after retries: %w'' [FInt c, FW e]
          else Errorf ''anthropic request rejected (%d): %w'' [FInt c, FW e])"

definition text_of :: "content_block list \<Rightarrow> string" where
  "text_of bs = concat (map (\<lambda>b. case b of Text_Block t \<Rightarrow> t | Other_Block \<Rightarrow> []) bs)"

definition anthropic_params_of :: "string \<Rightarrow> model_request \<Rightarrow> anthropic_params" where
  "anthropic_params_of m req =
     \<lparr>an_model = m, an_max_tokens = token_budget req, an_user_text = mr_prompt req, an_thinking_adaptive = True,
      an_system = (if mr_system req \<noteq> [] then [mr_system req] else [])\<rparr>"

definition anthropic_answer :: "model_request \<Rightarrow> anthropic_message \<Rightarrow> model_response result" where
  "anthropic_answer req msg =
     (if trim_space (text_of (am_content msg)) = []
      then Inl (Errorf ''%w (stop reason %q)'' [FW (Sentinel ErrNoTextContent), FQ (am_stop_reason msg)])
      else if am_stop_reason msg = ''max_tokens'' then Inl (cut_off req)
      else Inr \<lparr>mo_text = text_of (am_content msg), mo_model = am_model msg, mo_usage = am_usage msg\<rparr>)"

text \<open>What \<open>Generate\<close> makes of the result of the call: an error comes with the zero response.\<close>

definition generated :: "(go_err \<Rightarrow> go_err) \<Rightarrow> ('m \<Rightarrow> model_response result) \<Rightarrow> 'm result \<Rightarrow> model_response \<times> go_err option" where
  "generated describe answer r =
     (case r of
        Inl e \<Rightarrow> (no_response, Some (describe e))
      | Inr m \<Rightarrow> (case answer m of Inl e \<Rightarrow> (no_response, Some e) | Inr resp \<Rightarrow> (resp, None)))"

definition anthropic_generate :: "'w anthropic_sdk \<Rightarrow> client_options \<Rightarrow> 'w model_client" where
  "anthropic_generate sdk opts req w =
     (case sdk_message sdk (request_options opts) (anthropic_params_of (anthropic_model sdk opts) req) w of
        (w', r) \<Rightarrow> (w', generated (describe_api_error (sdk_status sdk)) (anthropic_answer req) r))"

subsection \<open>OpenAI (\<open>openai.go\<close>)\<close>

datatype chat_message = System_Message string | User_Message string

record openai_params =
  op_model :: string
  op_messages :: "chat_message list"
  op_max_tokens :: int
  op_json :: bool

record openai_choice =
  ch_finish_reason :: string
  ch_refusal :: string
  ch_content :: string

record openai_completion =
  cp_choices :: "openai_choice list"
  cp_model :: string
  cp_usage :: usage

text \<open>An API error of OpenAI carries a status and a code.\<close>

record 'w openai_sdk =
  sdk_complete :: "request_option list \<Rightarrow> openai_params \<Rightarrow> 'w \<Rightarrow> 'w \<times> openai_completion result"
  sdk_api_error :: "go_err \<Rightarrow> (int \<times> string) option"
  sdk_default_chat_model :: string

definition openai_model :: "'w openai_sdk \<Rightarrow> client_options \<Rightarrow> string" where
  "openai_model sdk opts = (if co_model opts \<noteq> [] then co_model opts else sdk_default_chat_model sdk)"

definition describe_openai_error :: "(go_err \<Rightarrow> (int \<times> string) option) \<Rightarrow> go_err \<Rightarrow> go_err" where
  "describe_openai_error api e =
     (case api e of
        None \<Rightarrow> Errorf ''call openai api: %w'' [FW e]
      | Some (c, code) \<Rightarrow>
          if c = 401 then Errorf ''openai auth failed (check OPENAI_API_KEY): %w'' [FW e]
          else if c = 403
          then Errorf ''openai denied this request (check the key's project and model access): %w'' [FW e]
          else if c = 404 then Errorf ''openai model not found (check the configured model id): %w'' [FW e]
          else if c = 413 then Errorf ''openai request too large (reduce the prompt or context): %w'' [FW e]
          else if c = 429 then
            if contains_str (to_lower code) ''quota'' then Errorf ''openai quota exceeded (check billing): %w'' [FW e]
            else Errorf ''openai rate limited after retries: %w'' [FW e]
          else if 500 \<le> c then Errorf ''openai server error %d after retries: %w'' [FInt c, FW e]
          else Errorf ''openai request rejected (%d): %w'' [FInt c, FW e])"

definition openai_params_of :: "string \<Rightarrow> model_request \<Rightarrow> openai_params" where
  "openai_params_of m req =
     \<lparr>op_model = m,
      op_messages = (if mr_system req \<noteq> [] then [System_Message (mr_system req)] else []) @ [User_Message (mr_prompt req)],
      op_max_tokens = token_budget req, op_json = True\<rparr>"

definition openai_answer :: "model_request \<Rightarrow> openai_completion \<Rightarrow> model_response result" where
  "openai_answer req cp =
     (case cp_choices cp of
        [] \<Rightarrow> Inl (Errorf ''%w (no choices returned)'' [FW (Sentinel ErrNoTextContent)])
      | c # _ \<Rightarrow>
          if ch_finish_reason c = ''length'' then Inl (cut_off req)
          else if trim_space (ch_refusal c) \<noteq> []
          then Inl (Errorf ''%w: model refused: %s'' [FW (Sentinel ErrNoTextContent), FStr (trim_space (ch_refusal c))])
          else if trim_space (ch_content c) = []
          then Inl (Errorf ''%w (finish reason %q)'' [FW (Sentinel ErrNoTextContent), FQ (ch_finish_reason c)])
          else Inr \<lparr>mo_text = ch_content c, mo_model = cp_model cp, mo_usage = cp_usage cp\<rparr>)"

definition openai_generate :: "'w openai_sdk \<Rightarrow> client_options \<Rightarrow> 'w model_client" where
  "openai_generate sdk opts req w =
     (case sdk_complete sdk (request_options opts) (openai_params_of (openai_model sdk opts) req) w of
        (w', r) \<Rightarrow> (w', generated (describe_openai_error (sdk_api_error sdk)) (openai_answer req) r))"

subsection \<open>The choice of the provider (\<open>cmd/api/main.go\<close>)\<close>

definition model_options :: "config \<Rightarrow> string \<Rightarrow> client_options" where
  "model_options cfg key =
     \<lparr>co_api_key = key, co_model = model_id cfg, co_timeout = cfg_job_timeout cfg, co_max_retries = 0, co_base_url = []\<rparr>"

definition new_model_client :: "'w anthropic_sdk \<Rightarrow> 'w openai_sdk \<Rightarrow> config \<Rightarrow> string \<Rightarrow> 'w model_client" where
  "new_model_client an oa cfg prov =
     (if prov = provider_openai then openai_generate oa (model_options cfg (openai_api_key cfg))
      else anthropic_generate an (model_options cfg (anthropic_api_key cfg)))"

definition model_name :: "'w anthropic_sdk \<Rightarrow> 'w openai_sdk \<Rightarrow> string \<Rightarrow> string \<Rightarrow> string" where
  "model_name an oa configured prov =
     (if configured \<noteq> [] then configured
      else if prov = provider_openai then sdk_default_chat_model oa
      else sdk_default_model an)"

subsection \<open>Counting (\<open>metrics/model.go\<close>)\<close>

definition instrument_model :: "('w \<Rightarrow> 'w \<times> time) \<Rightarrow> 'w model_client \<Rightarrow> ('w \<times> registry option) model_client" where
  "instrument_model clk cl req x =
     (case x of (w, r) \<Rightarrow> (case clk w of (w1, start) \<Rightarrow> (case cl req w1 of (w2, resp, eo) \<Rightarrow>
       (case clk w2 of (w3, now) \<Rightarrow>
          ((w3, model_call (word_of_int (now - start)) (eo \<noteq> None) (mo_usage resp) r), resp, eo)))))"

text \<open>How the agents call a client.\<close>

definition agent_client :: "'w model_client \<Rightarrow> 'w client" where
  "agent_client cl sys prompt w =
     (case cl \<lparr>mr_system = sys, mr_prompt = prompt, mr_max_toks = 0\<rparr> w of
        (w', resp, Some e) \<Rightarrow> (w', Inl e) | (w', resp, None) \<Rightarrow> (w', Inr (mo_text resp)))"

subsection \<open>Only whole answers\<close>

text \<open>The text is all of what the provider answered to this request, and the provider was not cut off.\<close>

definition whole_answer ::
    "'w anthropic_sdk \<Rightarrow> 'w openai_sdk \<Rightarrow> config \<Rightarrow> string \<Rightarrow> model_request \<Rightarrow> 'w \<Rightarrow> model_response \<Rightarrow> bool" where
  "whole_answer an oa cfg prov req w resp \<longleftrightarrow>
     trim_space (mo_text resp) \<noteq> [] \<and>
     (if prov = provider_openai
      then \<exists>cp c cs. cp_choices cp = c # cs \<and> ch_finish_reason c \<noteq> ''length'' \<and> trim_space (ch_refusal c) = [] \<and>
        resp = \<lparr>mo_text = ch_content c, mo_model = cp_model cp, mo_usage = cp_usage cp\<rparr> \<and>
        snd (sdk_complete oa (request_options (model_options cfg (openai_api_key cfg)))
          (openai_params_of (model_name an oa (model_id cfg) prov) req) w) = Inr cp
      else \<exists>msg. am_stop_reason msg \<noteq> ''max_tokens'' \<and>
        resp = \<lparr>mo_text = text_of (am_content msg), mo_model = am_model msg, mo_usage = am_usage msg\<rparr> \<and>
        snd (sdk_message an (request_options (model_options cfg (anthropic_api_key cfg)))
          (anthropic_params_of (model_name an oa (model_id cfg) prov) req) w) = Inr msg)"

lemma generated_None:
  "generated describe answer r = (resp, None) \<longleftrightarrow> (\<exists>m. r = Inr m \<and> answer m = Inr resp)"
  by (auto simp: generated_def split: sum.splits)

lemma generated_error: "generated describe answer r = (resp, Some e) \<Longrightarrow> resp = no_response"
  by (auto simp: generated_def split: sum.splits)

lemma client_whole:
  assumes "new_model_client an oa cfg prov req w = (w', resp, None)"
  shows "whole_answer an oa cfg prov req w resp"
proof (cases "prov = provider_openai")
  case True
  let ?call = "sdk_complete oa (request_options (model_options cfg (openai_api_key cfg)))
    (openai_params_of (model_name an oa (model_id cfg) prov) req) w"
  have m: "openai_model oa (model_options cfg (openai_api_key cfg)) = model_name an oa (model_id cfg) prov"
    by (simp add: openai_model_def model_options_def model_name_def True)
  from assms True obtain cp where cp: "snd ?call = Inr cp" "openai_answer req cp = Inr resp"
    by (auto simp: new_model_client_def openai_generate_def m generated_None split: prod.splits)
  from cp(2) show ?thesis using True cp(1)
    by (auto simp: whole_answer_def openai_answer_def split: list.splits if_splits)
next
  case False
  let ?call = "sdk_message an (request_options (model_options cfg (anthropic_api_key cfg)))
    (anthropic_params_of (model_name an oa (model_id cfg) prov) req) w"
  have m: "anthropic_model an (model_options cfg (anthropic_api_key cfg)) = model_name an oa (model_id cfg) prov"
    by (simp add: anthropic_model_def model_options_def model_name_def False)
  from assms False obtain msg where msg: "snd ?call = Inr msg" "anthropic_answer req msg = Inr resp"
    by (auto simp: new_model_client_def anthropic_generate_def m generated_None split: prod.splits)
  from msg(2) show ?thesis using False msg(1)
    by (auto simp: whole_answer_def anthropic_answer_def split: if_splits)
qed

lemma instrument_transparent:
  "instrument_model clk cl req (w, r) = ((w', r'), resp, eo) \<Longrightarrow> \<exists>w2. cl req (fst (clk w)) = (w2, resp, eo)"
  by (auto simp: instrument_model_def split: prod.splits)

lemma agent_client_text:
  "agent_client cl sys prompt w = (w', Inr text) \<Longrightarrow>
   \<exists>resp. cl \<lparr>mr_system = sys, mr_prompt = prompt, mr_max_toks = 0\<rparr> w = (w', resp, None) \<and> text = mo_text resp"
  by (auto simp: agent_client_def split: prod.splits option.splits)

text \<open>
  C21: half an answer never becomes a change.  The operations the implementor proposes, asked through the counting
  decorator of whichever provider is configured, were read from an answer that is the whole text of what the provider
  sent for this very prompt, which was neither cut off at the token limit nor a refusal.
\<close>

theorem operations_from_whole_answer:
  assumes "propose_agent js sys (agent_client (instrument_model clk (new_model_client an oa cfg prov))) req (w, r) = (x, Inr ops)"
  shows "\<exists>prompt resp. marshal_impl_request js req = Inr prompt \<and>
    whole_answer an oa cfg prov \<lparr>mr_system = sys, mr_prompt = prompt, mr_max_toks = 0\<rparr> (fst (clk w)) resp \<and>
    unmarshal_ops js (unfence (mo_text resp)) = Inr ops"
proof -
  let ?cl = "agent_client (instrument_model clk (new_model_client an oa cfg prov))"
  from assms obtain prompt where p: "marshal_impl_request js req = Inr prompt"
    by (auto simp: propose_agent_def split: if_splits sum.splits)
  obtain y t where c: "?cl sys prompt (w, r) = (y, t)" by (cases "?cl sys prompt (w, r)")
  with assms p obtain ans where t: "t = Inr ans" "unmarshal_ops js (unfence ans) = Inr ops"
    by (auto simp: propose_agent_def split: if_splits sum.splits option.splits)
  have "?cl sys prompt (w, r) = (y, Inr ans)" using c t(1) by (rule trans [OF _ arg_cong [of _ _ "Pair y"]])
  from agent_client_text [OF this] obtain resp where i: "instrument_model clk (new_model_client an oa cfg prov)
      \<lparr>mr_system = sys, mr_prompt = prompt, mr_max_toks = 0\<rparr> (w, r) = (y, resp, None)" "ans = mo_text resp" by (elim exE conjE)
  obtain w' r' where "y = (w', r')" by (cases y)
  with i(1) have "whole_answer an oa cfg prov \<lparr>mr_system = sys, mr_prompt = prompt, mr_max_toks = 0\<rparr> (fst (clk w)) resp"
    using instrument_transparent client_whole by metis
  with p t(2) i(2) show ?thesis by blast
qed

text \<open>A provider that answers with one operation, in two blocks after some thinking.\<close>

definition example_sdk :: "nat anthropic_sdk" where
  "example_sdk =
     \<lparr>sdk_message = (\<lambda>opts p w. (Suc w, Inr
        \<lparr>am_content = [Other_Block, Text_Block ''delete '', Text_Block ''a.go''], am_stop_reason = ''end_turn'',
         am_model = an_model p, am_usage = \<lparr>us_input = 10, us_output = 5\<rparr>\<rparr>)),
      sdk_status = (\<lambda>e. None), sdk_default_model = ''claude-opus-4-8''\<rparr>"

definition silent_sdk :: "nat openai_sdk" where
  "silent_sdk =
     \<lparr>sdk_complete = (\<lambda>opts p w. (w, Inl (Errorf ''refused'' []))), sdk_api_error = (\<lambda>e. None),
      sdk_default_chat_model = ''gpt-5.2''\<rparr>"

definition example_json :: agent_json where
  "example_json =
     \<lparr>marshal_plan_request = (\<lambda>r. Inr []), unmarshal_plan = (\<lambda>s. Inr empty_plan),
      marshal_impl_request = (\<lambda>r. Inr (iq_task r)),
      unmarshal_ops = (\<lambda>s. if s = ''delete a.go'' then Inr [\<lparr>op_kind = op_delete, op_path = ''a.go'', op_content = []\<rparr>]
        else Inl (Errorf ''unexpected end of JSON input'' [])),
      marshal_review_request = (\<lambda>r. Inr []), unmarshal_review = (\<lambda>s. Inl (Errorf ''no'' []))\<rparr>"

definition example_request :: implementor_request where
  "example_request = \<lparr>iq_task = ''t'', iq_plan = empty_plan, iq_files = [], iq_tree = [], iq_feedback = []\<rparr>"

definition example_config :: config where
  "example_config = read_config no_parsers []"

lemma example_proposal:
  "propose_agent example_json ''s'' (agent_client (instrument_model (\<lambda>w. (w, 0))
       (new_model_client example_sdk silent_sdk example_config provider_anthropic))) example_request (0, None) =
     ((1, None), Inr [\<lparr>op_kind = op_delete, op_path = ''a.go'', op_content = []\<rparr>])"
proof -
  have "trim_space ''t'' \<noteq> []" "trim_space ''delete a.go'' = ''delete a.go''" "unfence ''delete a.go'' = ''delete a.go''"
    "trim_space ''a.go'' \<noteq> []" by code_simp+
  then show ?thesis
    by (simp add: propose_agent_def example_request_def example_json_def agent_client_def instrument_model_def
      new_model_client_def provider_anthropic_def provider_openai_def anthropic_generate_def example_sdk_def generated_def
      anthropic_answer_def text_of_def model_call_def op_delete_def op_write_def op_append_def)
qed

theorem operations_from_whole_answer_witness:
  "\<exists>prompt resp. marshal_impl_request example_json example_request = Inr prompt \<and>
    whole_answer example_sdk silent_sdk example_config provider_anthropic
      \<lparr>mr_system = ''s'', mr_prompt = prompt, mr_max_toks = 0\<rparr> 0 resp \<and>
    unmarshal_ops example_json (unfence (mo_text resp)) = Inr [\<lparr>op_kind = op_delete, op_path = ''a.go'', op_content = []\<rparr>]"
  using operations_from_whole_answer [OF example_proposal] by simp

subsection \<open>What is counted\<close>

fun ask_all :: "'w model_client \<Rightarrow> model_request list \<Rightarrow> 'w \<Rightarrow> 'w \<times> (model_response \<times> go_err option) list" where
  "ask_all cl [] w = (w, [])"
| "ask_all cl (q # qs) w = (case cl q w of (w1, a) \<Rightarrow> (case ask_all cl qs w1 of (w2, as) \<Rightarrow> (w2, a # as)))"

text \<open>The tokens a series of answers reports; a negative number is no report.\<close>

definition spent :: "(usage \<Rightarrow> int64) \<Rightarrow> (model_response \<times> go_err option) list \<Rightarrow> int" where
  "spent f as = sum_list (map (\<lambda>a. max 0 (sint (f (mo_usage (fst a))))) as)"

definition failures :: "(model_response \<times> go_err option) list \<Rightarrow> nat" where
  "failures as = length (filter (\<lambda>a. snd a \<noteq> None) as)"

lemma spent_simps [simp]: "spent f [] = 0" "spent f (a # as) = max 0 (sint (f (mo_usage (fst a)))) + spent f as"
  by (simp_all add: spent_def)

lemma spent_nonneg: "0 \<le> spent f as"
  by (auto simp: spent_def intro!: sum_list_nonneg)

lemma failures_simps [simp]: "failures [] = 0" "failures (a # as) = (if snd a \<noteq> None then 1 else 0) + failures as"
  by (simp_all add: failures_def)

lemma sint_add_pos:
  fixes a v :: int64
  assumes "0 \<le> sint a" and "sint a + max 0 (sint v) < 2 ^ 63"
  shows "sint (if 0 < sint v then a + v else a) = sint a + max 0 (sint v)"
  using assms sint_plus_small [of a v] by (auto simp: max_def)

lemma sint_add_bit:
  fixes a :: int64
  assumes "0 \<le> sint a" and "sint a + (if b then 1 else 0) < 2 ^ 63"
  shows "sint (if b then a + 1 else a) = sint a + (if b then 1 else 0)"
  using assms sint_plus_small [of a 1] by (auto split: if_splits)

definition counts :: "registry \<Rightarrow> int \<Rightarrow> int \<Rightarrow> int \<Rightarrow> int \<Rightarrow> bool" where
  "counts r calls errs inp outp \<longleftrightarrow>
     sint (model_calls r) = calls \<and> sint (model_errors r) = errs \<and> sint (input_tokens r) = inp \<and> sint (output_tokens r) = outp"

lemma model_call_counts:
  assumes "counts r c e i o2" and "0 \<le> c" "0 \<le> e" "0 \<le> i" "0 \<le> o2"
    and "c + 1 < 2 ^ 63" "e + 1 < 2 ^ 63" "i + max 0 (sint (us_input u)) < 2 ^ 63" "o2 + max 0 (sint (us_output u)) < 2 ^ 63"
  shows "\<exists>r'. model_call took failed u (Some r) = Some r' \<and>
    counts r' (c + 1) (e + (if failed then 1 else 0)) (i + max 0 (sint (us_input u))) (o2 + max 0 (sint (us_output u)))"
proof -
  have f: "sint (model_calls r) = c" "sint (model_errors r) = e" "sint (input_tokens r) = i" "sint (output_tokens r) = o2"
    using assms(1) by (simp_all add: counts_def)
  have "sint (model_calls r + 1) = c + 1" using sint_add_bit [of "model_calls r" True] assms(2,6) f by simp
  moreover have "sint (if failed then model_errors r + 1 else model_errors r) = e + (if failed then 1 else 0)"
    using sint_add_bit [of "model_errors r" failed] assms(3,7) f by simp
  moreover have "sint (if 0 < sint (us_input u) then input_tokens r + us_input u else input_tokens r) = i + max 0 (sint (us_input u))"
    using sint_add_pos [of "input_tokens r"] assms(4,8) f by simp
  moreover have "sint (if 0 < sint (us_output u) then output_tokens r + us_output u else output_tokens r) =
      o2 + max 0 (sint (us_output u))"
    using sint_add_pos [of "output_tokens r"] assms(5,9) f by simp
  ultimately show ?thesis by (simp add: model_call_def counts_def del: if_split)
qed

lemma ask_all_counts:
  assumes "ask_all (instrument_model clk cl) qs (w, Some r) = ((w', ro), as)" and "counts r c e i o2"
    and "0 \<le> c" "0 \<le> e" "0 \<le> i" "0 \<le> o2"
    and "c + int (length qs) < 2 ^ 63" "e + int (length qs) < 2 ^ 63" "i + spent us_input as < 2 ^ 63" "o2 + spent us_output as < 2 ^ 63"
  shows "length as = length qs \<and> (\<exists>r'. ro = Some r' \<and>
    counts r' (c + int (length qs)) (e + int (failures as)) (i + spent us_input as) (o2 + spent us_output as))"
  using assms
proof (induction qs arbitrary: w r c e i o2 as)
  case (Cons q qs)
  obtain w1 r1 a where s: "instrument_model clk cl q (w, Some r) = ((w1, r1), a)" by (metis prod.collapse)
  obtain x as' where rest: "ask_all (instrument_model clk cl) qs (w1, r1) = (x, as')" by (metis surj_pair)
  have x: "x = (w', ro)" "as = a # as'" using Cons.prems(1) s rest by auto
  let ?u = "mo_usage (fst a)" and ?f = "snd a \<noteq> None"
  obtain took where r1: "r1 = model_call took ?f ?u (Some r)"
    using s by (cases a) (auto simp: instrument_model_def split: prod.splits)
  have nn: "0 \<le> spent us_input as'" "0 \<le> spent us_output as'" by (rule spent_nonneg)+
  have b: "c + 1 < 2 ^ 63" "e + 1 < 2 ^ 63" "i + max 0 (sint (us_input ?u)) < 2 ^ 63" "o2 + max 0 (sint (us_output ?u)) < 2 ^ 63"
    using Cons.prems(7-10) nn x(2) by simp_all
  obtain r2 where r2: "r1 = Some r2" "counts r2 (c + 1) (e + (if ?f then 1 else 0))
      (i + max 0 (sint (us_input ?u))) (o2 + max 0 (sint (us_output ?u)))"
    using model_call_counts [OF Cons.prems(2-6) b] r1 by metis
  have "length as' = length qs \<and> (\<exists>r'. ro = Some r' \<and>
      counts r' (c + 1 + int (length qs)) (e + (if ?f then 1 else 0) + int (failures as'))
        (i + max 0 (sint (us_input ?u)) + spent us_input as') (o2 + max 0 (sint (us_output ?u)) + spent us_output as'))"
    by (rule Cons.IH [OF _ r2(2)]) (use rest r2(1) x Cons.prems(3-10) in \<open>auto split: if_splits\<close>)
  then show ?case using x(2) by (auto simp: algebra_simps)
qed auto

text \<open>
  C24: the figures a cost is computed from are those the clients reported.  After any series of calls, in a fresh
  registry and below 2^63, the counters of calls, errors and tokens are the number of calls, the number of
  failures and the sums of the reported tokens.
\<close>

theorem usage_is_counted:
  assumes "ask_all (instrument_model clk cl) qs (w, Some metrics_new) = ((w', ro), as)"
    and "int (length qs) < 2 ^ 63" and "spent us_input as < 2 ^ 63" and "spent us_output as < 2 ^ 63"
  shows "\<exists>r. ro = Some r \<and> sint (model_calls r) = int (length qs) \<and> sint (model_errors r) = int (failures as) \<and>
    sint (input_tokens r) = spent us_input as \<and> sint (output_tokens r) = spent us_output as"
proof -
  have "counts metrics_new 0 0 0 0" by (simp add: counts_def metrics_new_def)
  from ask_all_counts [OF assms(1) this] assms(2-4) show ?thesis by (simp add: counts_def)
qed

text \<open>
  What the agents and the counters may rely on of a client: an error comes with the zero response, and an answer has text.
  The decorator keeps both, and both providers promise them.
\<close>

locale answering_client =
  fixes cl :: "'w model_client"
  assumes fail_zero: "cl req w = (w', resp, Some e) \<Longrightarrow> resp = no_response"
    and ok_text: "cl req w = (w', resp, None) \<Longrightarrow> trim_space (mo_text resp) \<noteq> []"
begin

lemma agent_text: "agent_client cl sys prompt w = (w', Inr ans) \<Longrightarrow> trim_space ans \<noteq> []"
  by (auto simp: agent_client_def split: prod.splits option.splits dest: ok_text)

lemma instrumented_laws:
  "instrument_model clk cl req x = (x', resp, Some e) \<Longrightarrow> resp = no_response"
  "instrument_model clk cl req x = (x', resp, None) \<Longrightarrow> trim_space (mo_text resp) \<noteq> []"
  by (auto simp: instrument_model_def split: prod.splits dest: fail_zero ok_text)

lemma failed_call_is_free:
  assumes "instrument_model clk cl req (w, Some r) = ((w', ro), resp, Some e)"
  shows "\<exists>r'. ro = Some r' \<and> input_tokens r' = input_tokens r \<and> output_tokens r' = output_tokens r \<and>
    model_calls r' = model_calls r + 1 \<and> model_errors r' = model_errors r + 1"
proof -
  have "resp = no_response" by (rule instrumented_laws(1) [OF assms])
  with assms show ?thesis by (auto simp: instrument_model_def model_call_def no_response_def split: prod.splits)
qed

end

lemma new_client_fails_zero: "new_model_client an oa cfg prov req w = (w', resp, Some e) \<Longrightarrow> resp = no_response"
  by (auto simp: new_model_client_def anthropic_generate_def openai_generate_def
      split: if_splits prod.splits dest: generated_error)

lemma new_client_ok_text:
  "new_model_client an oa cfg prov req w = (w', resp, None) \<Longrightarrow> trim_space (mo_text resp) \<noteq> []"
  by (drule client_whole, erule rev_mp) (simp add: whole_answer_def split: sum.splits)

interpretation backend: answering_client "new_model_client an oa cfg prov"
  by unfold_locales (erule new_client_fails_zero, erule new_client_ok_text)

interpretation metered: answering_client "instrument_model clk (new_model_client an oa cfg prov)"
  by unfold_locales (erule backend.instrumented_laws(1), erule backend.instrumented_laws(2))

lemma agents_get_text:
  "agent_client (instrument_model clk (new_model_client an oa cfg prov)) sys prompt x = (x', Inr ans) \<Longrightarrow> trim_space ans \<noteq> []"
  by (rule metered.agent_text)

text \<open>
  So a call that failed is counted as free.  The comment on the decorator says that a failed call's tokens are counted too,
  but both clients return the zero response with every error, also for an answer that was cut off after all its tokens
  were generated.
\<close>

lemma failed_call_counts_no_tokens:
  "instrument_model clk (new_model_client an oa cfg prov) req (w, Some r) = ((w', ro), resp, Some e) \<Longrightarrow>
   \<exists>r'. ro = Some r' \<and> input_tokens r' = input_tokens r \<and> output_tokens r' = output_tokens r \<and>
     model_calls r' = model_calls r + 1 \<and> model_errors r' = model_errors r + 1"
  by (rule backend.failed_call_is_free)

lemma cut_off_answer_is_free:
  assumes "snd (sdk_message an (request_options (model_options cfg (anthropic_api_key cfg)))
      (anthropic_params_of (model_name an oa (model_id cfg) provider_anthropic) req) w) = Inr msg"
    and "am_stop_reason msg = ''max_tokens''" and "trim_space (text_of (am_content msg)) \<noteq> []"
  shows "\<exists>w'. new_model_client an oa cfg provider_anthropic req w = (w', no_response, Some (cut_off req)) \<and>
    err_is (cut_off req) ErrTruncated"
proof -
  have m: "anthropic_model an (model_options cfg (anthropic_api_key cfg)) = model_name an oa (model_id cfg) provider_anthropic"
    by (simp add: anthropic_model_def model_options_def model_name_def provider_anthropic_def provider_openai_def)
  have "provider_anthropic \<noteq> provider_openai" by (simp add: provider_anthropic_def provider_openai_def)
  with assms show ?thesis
    by (auto simp: new_model_client_def anthropic_generate_def m generated_def anthropic_answer_def cut_off_def
      split: prod.splits)
qed

definition failing_then_answering :: "nat model_client" where
  "failing_then_answering req w =
     (if w = 0 then (1, no_response, Some (Sentinel ErrTruncated))
      else (2, \<lparr>mo_text = ''ok'', mo_model = ''m'', mo_usage = \<lparr>us_input = 10, us_output = 5\<rparr>\<rparr>, None))"

definition example_question :: model_request where
  "example_question = \<lparr>mr_system = [], mr_prompt = ''p'', mr_max_toks = 0\<rparr>"

theorem usage_is_counted_witness:
  "\<exists>w' r as. ask_all (instrument_model (\<lambda>w. (w, 0)) failing_then_answering) [example_question, example_question] (0, Some metrics_new) = ((w', Some r), as) \<and>
     sint (model_calls r) = 2 \<and> sint (model_errors r) = 1 \<and> sint (input_tokens r) = 10 \<and> sint (output_tokens r) = 5"
proof -
  let ?as = "[(no_response, Some (Sentinel ErrTruncated)),
    (\<lparr>mo_text = ''ok'', mo_model = ''m'', mo_usage = \<lparr>us_input = 10, us_output = 5\<rparr>\<rparr>, None)]"
  obtain ro where a: "ask_all (instrument_model (\<lambda>w. (w, 0)) failing_then_answering) [example_question, example_question] (0, Some metrics_new) = ((2, ro), ?as)"
    by (simp add: instrument_model_def failing_then_answering_def)
  have "spent us_input ?as = 10" "spent us_output ?as = 5" "failures ?as = 1" by (simp_all add: no_response_def)
  with usage_is_counted [OF a] a show ?thesis by auto
qed

end
