(* ===== verification/Api.thy ===== *)
theory Api
  imports Rate_Limit Processor_Props Queue_Worker
begin

text \<open>
  The handlers of \<open>internal/api/\<close> over the server's state: \<open>jobs.go\<close>, \<open>events.go\<close>, \<open>artifacts.go\<close>, \<open>health.go\<close>
  and \<open>metrics.go\<close>, and the chain of middleware that \<open>cmd/api/main.go\<close> puts before them.
\<close>

subsection \<open>The server\<close>

record 'w server =
  sv_world :: 'w
  sv_pb :: persisting_bus
  sv_queue :: job_queue
  sv_cancels :: canceller
  sv_limiter :: rate_limiter
  sv_metrics :: "registry option"

text \<open>What the JSON decoder makes of the bytes it was given: a value, a want of more bytes, or an error.\<close>

datatype decoded = Decoded new_job_request | Incomplete | Malformed

text \<open>The collaborators of the handlers; the flags tell which of the optional ones are set.\<close>

record 'w api =
  ap_codec :: json_codec
  ap_decode :: "string \<Rightarrow> decoded"
  ap_now :: "'w \<Rightarrow> 'w \<times> time"
  ap_os :: "'w \<Rightarrow> 'w \<times> os_env"
  ap_rand :: "nat \<Rightarrow> 'w \<Rightarrow> 'w \<times> string"
  ap_queue :: bool
  ap_canceller :: bool
  ap_bus :: bool
  ap_events :: bool
  ap_artifacts :: bool

definition read_world :: "('w \<Rightarrow> 'w \<times> 'a) \<Rightarrow> 'w server \<Rightarrow> 'w server \<times> 'a" where
  "read_world f s = (case f (sv_world s) of (w, a) \<Rightarrow> (s\<lparr>sv_world := w\<rparr>, a))"

abbreviation sv_store :: "'w server \<Rightarrow> store" where
  "sv_store s \<equiv> pb_store (sv_pb s)"

definition put_store :: "store \<Rightarrow> 'w server \<Rightarrow> 'w server" where
  "put_store st s = s\<lparr>sv_pb := (sv_pb s)\<lparr>pb_store := st\<rparr>\<rparr>"

subsection \<open>Submitting a job (\<open>jobs.go\<close>)\<close>

definition max_request_body_bytes :: nat where
  "max_request_body_bytes = 65536"

text \<open>The last steps of \<open>Create\<close>: the event, then the answer.\<close>

definition announce_created :: "'w api \<Rightarrow> job \<Rightarrow> writer \<times> 'w server \<Rightarrow> (writer \<times> 'w server) \<times> unit outcome" where
  "announce_created a j ws =
     (case ws of (w, s) \<Rightarrow>
       if \<not> ap_bus a then ok_json 201 (Body_Job j) (w, s)
       else case read_world (ap_os a) s of (s1, env) \<Rightarrow> (case read_world (ap_now a) s1 of (s2, now) \<Rightarrow>
         (case pb_publish (ap_codec a) env now
             \<lparr>ev_job_id = job_id j, ev_type = TypeJobCreated, ev_payload = [], ev_created_at = 0\<rparr> (sv_pb s2) of
            (pb, Panic p) \<Rightarrow> ((w, s2\<lparr>sv_pb := pb\<rparr>), Panic p)
          | (pb, Return _) \<Rightarrow> ok_json 201 (Body_Job j) (w, s2\<lparr>sv_pb := pb\<rparr>))))"

text \<open>A job the queue refused is failed, so that it does not look pending for ever.\<close>

definition reject_unqueueable :: "'w api \<Rightarrow> job \<Rightarrow> writer \<times> 'w server \<Rightarrow> (writer \<times> 'w server) \<times> unit outcome" where
  "reject_unqueueable a j ws =
     (case ws of (w, s) \<Rightarrow> (case read_world (ap_now a) s of (s1, now) \<Rightarrow>
       (case transition now StatusFailed j of
          (Some e, _) \<Rightarrow> fail_json 503 ''queue full, try again later'' (w, s1)
        | (None, j') \<Rightarrow> (case read_world (ap_os a) s1 of (s2, env) \<Rightarrow>
            (case fs_update (ap_codec a) env j' (sv_store s2) of
               (st, _) \<Rightarrow> fail_json 503 ''queue full, try again later'' (w, put_store st s2))))))"

definition enqueue_created :: "'w api \<Rightarrow> job \<Rightarrow> writer \<times> 'w server \<Rightarrow> (writer \<times> 'w server) \<times> unit outcome" where
  "enqueue_created a j ws =
     (case ws of (w, s) \<Rightarrow>
       if \<not> ap_queue a then announce_created a j (w, s)
       else case enqueue (job_id j) (sv_queue s) of
         Panic p \<Rightarrow> ((w, s), Panic p)
       | Return (q, Some e) \<Rightarrow> reject_unqueueable a j (w, s\<lparr>sv_queue := q\<rparr>)
       | Return (q, None) \<Rightarrow> announce_created a j (w, s\<lparr>sv_queue := q\<rparr>))"

definition submit :: "'w api \<Rightarrow> new_job_request \<Rightarrow> writer \<times> 'w server \<Rightarrow> (writer \<times> 'w server) \<times> unit outcome" where
  "submit a req ws =
     (case ws of (w, s) \<Rightarrow> (case read_world (ap_now a) s of (s1, now) \<Rightarrow>
       (case read_world (ap_rand a 16) s1 of (s2, bs) \<Rightarrow>
         let j = \<lparr>job_id = hex_encode bs, task = req_task req, repo_path = req_repo_path req,
                  status = StatusQueued, created_at = now, updated_at = now\<rparr> in
         (case read_world (ap_os a) s2 of (s3, env) \<Rightarrow>
           (case fs_create (ap_codec a) env j (sv_store s3) of
              (st, Some e) \<Rightarrow> fail_json 500 ''failed to create job'' (w, put_store st s3)
            | (st, None) \<Rightarrow> enqueue_created a j (w, put_store st s3))))))"

definition create_job :: "'w api \<Rightarrow> 'w server handler" where
  "create_job a r ws =
     (case ap_decode a (take max_request_body_bytes (hq_body r)) of
        Malformed \<Rightarrow> fail_json 400 ''invalid json body'' ws
      | Incomplete \<Rightarrow>
          if max_request_body_bytes < length (hq_body r) then fail_json 413 ''request body too large'' ws
          else fail_json 400 ''invalid json body'' ws
      | Decoded req0 \<Rightarrow> (case validate req0 of
            (req, Some e) \<Rightarrow> fail_json 400 (err_text e) ws
          | (req, None) \<Rightarrow> submit a req ws))"

subsection \<open>Reading and cancelling jobs\<close>

definition get_job :: "'w api \<Rightarrow> 'w server handler" where
  "get_job a r ws =
     (case ws of (w, s) \<Rightarrow> (case fs_get (path_value r ''jobID'') (sv_store s) of
        Inl e \<Rightarrow> if err_is e ErrJobNotFound then fail_json 404 ''job not found'' ws
                 else fail_json 500 ''failed to load job'' ws
      | Inr j \<Rightarrow> ok_json 200 (Body_Job j) ws))"

definition cancel_job :: "'w api \<Rightarrow> 'w server handler" where
  "cancel_job a r ws =
     (case ws of (w, s) \<Rightarrow> let k = path_value r ''jobID'' in
       (case fs_get k (sv_store s) of
          Inl e \<Rightarrow> if err_is e ErrJobNotFound then fail_json 404 ''job not found'' ws
                   else fail_json 500 ''failed to load job'' ws
        | Inr _ \<Rightarrow>
            if \<not> ap_canceller a then fail_json 503 ''cancellation not available'' ws
            else (case cn_cancel k (sv_cancels s) of
              (c, Some e) \<Rightarrow> fail_json 409 (err_text e) (w, s\<lparr>sv_cancels := c\<rparr>)
            | (c, None) \<Rightarrow> ok_json 202 (Body_Obj [(''job_id'', JStr k), (''status'', JStr ''cancel_requested'')])
                (w, s\<lparr>sv_cancels := c\<rparr>))))"

definition default_list_limit :: int where
  "default_list_limit = 50"

definition max_list_limit :: int where
  "max_list_limit = 200"

definition page_limit :: "string \<Rightarrow> int result" where
  "page_limit raw =
     (if raw = [] then Inr default_list_limit
      else case atoi raw of
        None \<Rightarrow> Inl (Errorf ''limit must be a positive integer, got %q'' [FQ raw])
      | Some n \<Rightarrow>
          if n < 1 then Inl (Errorf ''limit must be a positive integer, got %q'' [FQ raw])
          else Inr (if max_list_limit < n then max_list_limit else n))"

definition page_offset :: "string \<Rightarrow> int result" where
  "page_offset raw =
     (if raw = [] then Inr 0
      else case atoi raw of
        None \<Rightarrow> Inl (Errorf ''offset must be a non-negative integer, got %q'' [FQ raw])
      | Some n \<Rightarrow>
          if n < 0 then Inl (Errorf ''offset must be a non-negative integer, got %q'' [FQ raw]) else Inr n)"

definition page_params :: "request \<Rightarrow> (int \<times> int) result" where
  "page_params r =
     (case page_limit (query_get r ''limit'') of
        Inl e \<Rightarrow> Inl e
      | Inr limit \<Rightarrow> (case page_offset (query_get r ''offset'') of
            Inl e \<Rightarrow> Inl e
          | Inr offset \<Rightarrow> Inr (limit, offset)))"

text \<open>\<open>list[offset:end]\<close>, after both were clamped to the length.\<close>

definition page :: "int \<Rightarrow> int \<Rightarrow> 'a list \<Rightarrow> 'a list" where
  "page limit offset xs =
     (let n = int (length xs); from_i = (if n < offset then n else offset);
          to_i = (if n < from_i + limit then n else from_i + limit)
      in take (nat (to_i - from_i)) (drop (nat from_i) xs))"

definition list_jobs :: "'w api \<Rightarrow> 'w server handler" where
  "list_jobs a r ws =
     (case page_params r of
        Inl e \<Rightarrow> fail_json 400 (err_text e) ws
      | Inr (limit, offset) \<Rightarrow> (case ws of (w, s) \<Rightarrow>
          let js = fs_list (sv_store s) in
          ok_json 200 (Body_Jobs (page limit offset js))
            (set_header ''X-Total-Count'' (show_int (int (length js))) w, s)))"

subsection \<open>Events, patches, health and metrics\<close>

definition event_history :: "'w api \<Rightarrow> 'w server handler" where
  "event_history a r ws =
     (if \<not> ap_events a then fail_json 503 ''event store not available'' ws
      else case ws of (w, s) \<Rightarrow> (case read_world (ap_os a) s of (s1, env) \<Rightarrow>
        (case fs_history (ap_codec a) env (path_value r ''jobID'') (sv_store s1) of
           Inl e \<Rightarrow> fail_json 500 ''failed to load events'' (w, s1)
         | Inr evs \<Rightarrow>
             let raw = query_get r ''since'' in
             if raw = [] then ok_json 200 (Body_Events evs) (w, s1)
             else case atoi raw of
               None \<Rightarrow> fail_json 400 ''since must be a non-negative integer'' (w, s1)
             | Some n \<Rightarrow>
                 if n < 0 then fail_json 400 ''since must be a non-negative integer'' (w, s1)
                 else ok_json 200 (Body_Events (drop (nat (min n (int (length evs)))) evs)) (w, s1))))"

definition job_diff :: "'w api \<Rightarrow> 'w server handler" where
  "job_diff a r ws =
     (case ws of (w, s) \<Rightarrow> let k = path_value r ''jobID'' in
       (case fs_get k (sv_store s) of
          Inl e \<Rightarrow> if err_is e ErrJobNotFound then fail_json 404 ''job not found'' ws
                   else fail_json 500 ''failed to load job'' ws
        | Inr j \<Rightarrow>
            if \<not> ap_artifacts a then fail_json 503 ''artifacts not available'' ws
            else (case read_world (ap_os a) s of (s1, env) \<Rightarrow>
              (case fs_read_artifact env k artifact_diff (sv_store s1) of
                 Inl e \<Rightarrow>
                   if err_is e ErrNotExist
                   then fail_json 404 (''no diff for job in status '' @ status_string (status j)) (w, s1)
                   else fail_json 500 ''failed to read diff'' (w, s1)
               | Inr diff \<Rightarrow>
                   respond (\<lambda>w. write_body (Body_Text diff) (write_header 200
                     (set_header ''Content-Disposition'' (''attachment; filename='' @ [CHR 0x22] @ k @ ''.diff'' @ [CHR 0x22])
                       (set_header ''Content-Length'' (show_int (int (length diff)))
                         (set_header ''Content-Type'' ''text/x-diff; charset=utf-8'' w))))) (w, s1)))))"

text \<open>The registered checks run one after the other; each may read the world.\<close>

type_synonym 'w health_check = "'w server \<Rightarrow> 'w server \<times> go_err option"

definition register_check ::
    "string \<Rightarrow> 'w health_check \<Rightarrow> (string, 'w health_check) amap \<Rightarrow> (string, 'w health_check) amap" where
  "register_check name c checks = aput name c checks"

fun run_health :: "(string, 'w health_check) amap \<Rightarrow> 'w server \<Rightarrow> 'w server \<times> (string, json) amap \<times> bool" where
  "run_health [] s = (s, [], True)"
| "run_health ((name, c) # cs) s =
     (case c s of (s1, eo) \<Rightarrow> (case run_health cs s1 of (s2, results, healthy) \<Rightarrow>
        (case eo of
           Some e \<Rightarrow> (s2, aput name (JStr (''failed: '' @ err_text e)) results, False)
         | None \<Rightarrow> (s2, aput name (JStr ''ok'') results, healthy))))"

definition overlay :: "(string, json) amap \<Rightarrow> (string, json) amap \<Rightarrow> (string, json) amap" where
  "overlay extra m = fold (\<lambda>(k, v). aput k v) extra m"

definition health_status ::
    "(string, 'w health_check) amap \<Rightarrow> ('w server \<Rightarrow> (string, json) amap) option \<Rightarrow> 'w server handler" where
  "health_status checks info r ws =
     (case ws of (w, s) \<Rightarrow> (case run_health checks s of (s1, results, healthy) \<Rightarrow>
        let body0 = [(''status'', JStr ''ok''), (''checks'', JObj results)];
            body1 = (case info of None \<Rightarrow> body0 | Some f \<Rightarrow> overlay (f s1) body0)
        in if healthy then ok_json 200 (Body_Obj body1) (w, s1)
           else ok_json 503 (Body_Obj (aput ''status'' (JStr ''unhealthy'') body1)) (w, s1)))"

definition metrics_report :: "('w server \<Rightarrow> (string, json) amap) option \<Rightarrow> 'w server handler" where
  "metrics_report live r ws =
     (case ws of (w, s) \<Rightarrow>
        ok_json 200 (Body_Obj (case live of None \<Rightarrow> snapshot (sv_metrics s)
                               | Some f \<Rightarrow> overlay (f s) (snapshot (sv_metrics s)))) ws)"

subsection \<open>The chain (\<open>cmd/api/main.go\<close>)\<close>

definition limited :: "'w api \<Rightarrow> 'w server handler \<Rightarrow> 'w server handler" where
  "limited a = rate_limit sv_limiter (\<lambda>rl s. s\<lparr>sv_limiter := rl\<rparr>) (read_world (ap_now a))"

definition handler_chain :: "'w api \<Rightarrow> string \<Rightarrow> 'w server handler \<Rightarrow> 'w server handler" where
  "handler_chain a token mux =
     (let chain = limited a (logger_middleware (read_world (ap_rand a 8)) (recover_middleware mux)) in
      if token \<noteq> [] then token_auth token chain else chain)"

end
