(* ===== verification/Api_Props.thy ===== *)
theory Api_Props
  imports Api
begin

text \<open>What the handlers guarantee: submissions, pages, and what a request can reach.\<close>

subsection \<open>Submissions\<close>

definition steady_api :: "'w api \<Rightarrow> bool" where
  "steady_api a = ((\<forall>w. writable (snd (ap_os a w))) \<and> (\<forall>j. enc_job (ap_codec a) j \<noteq> None))"

definition stored :: "'w server \<Rightarrow> string \<Rightarrow> job option" where
  "stored s = aget (st_index (sv_store s))"

definition served :: "'w server \<Rightarrow> bool" where
  "served s = (bus_inv (pb_inner (sv_pb s)) \<and> \<not> q_closed (sv_queue s))"

lemma read_world_simps [simp]:
  "read_world f s = (s1, x) \<Longrightarrow> sv_pb s1 = sv_pb s \<and> sv_queue s1 = sv_queue s"
  by (auto simp: read_world_def split: prod.splits)

lemma read_world_os: "steady_api a \<Longrightarrow> read_world (ap_os a) s = (s1, env) \<Longrightarrow> writable env"
  by (auto simp: steady_api_def read_world_def split: prod.splits) (metis snd_conv)

lemma announce_created_spec:
  assumes "served s"
  shows "\<exists>s'. announce_created a j (w, s) = ((write_json 201 (Body_Job j) w, s'), Return ()) \<and>
    stored s' = stored s \<and> sv_queue s' = sv_queue s"
proof -
  obtain s1 env where os: "read_world (ap_os a) s = (s1, env)" by (cases "read_world (ap_os a) s")
  obtain s2 now where now: "read_world (ap_now a) s1 = (s2, now)" by (cases "read_world (ap_now a) s1")
  let ?e = "\<lparr>ev_job_id = job_id j, ev_type = TypeJobCreated, ev_payload = [], ev_created_at = 0\<rparr>"
  obtain pb oc where p: "pb_publish (ap_codec a) env now ?e (sv_pb s2) = (pb, oc)"
    by (cases "pb_publish (ap_codec a) env now ?e (sv_pb s2)")
  have s2: "sv_pb s2 = sv_pb s" "sv_queue s2 = sv_queue s" using os now by (simp_all)
  have "bus_inv (pb_inner (sv_pb s2))" using assms s2 by (simp add: served_def)
  from pb_publish_no_panic [OF this, of "ap_codec a" env now ?e] p obtain eo where "oc = Return eo" by auto
  moreover have "st_index (pb_store pb) = st_index (sv_store s)"
    using pb_publish_index [of "ap_codec a" env now ?e "sv_pb s2"] p s2 by simp
  ultimately show ?thesis
    using os now p s2 by (auto simp: announce_created_def respond_defs stored_def)
qed

lemma reject_spec:
  assumes "steady_api a" and "stored s (job_id j) \<noteq> None" and "status j = StatusQueued"
  shows "\<exists>s' t. reject_unqueueable a j (w, s) =
      ((write_json 503 (Body_Error ''queue full, try again later'') w, s'), Return ()) \<and>
    stored s' = (stored s)(job_id j \<mapsto> j\<lparr>status := StatusFailed, updated_at := t\<rparr>) \<and> sv_queue s' = sv_queue s"
proof -
  obtain s1 now where now: "read_world (ap_now a) s = (s1, now)" by (cases "read_world (ap_now a) s")
  obtain s2 env where os: "read_world (ap_os a) s1 = (s2, env)" by (cases "read_world (ap_os a) s1")
  let ?j = "j\<lparr>status := StatusFailed, updated_at := now\<rparr>"
  have tr: "transition now StatusFailed j = (None, ?j)"
    using assms(3) nonterminal_can_fail [of StatusQueued] by (simp add: transition_ok)
  have s2: "sv_pb s2 = sv_pb s" "sv_queue s2 = sv_queue s" using os now by simp_all
  have "writable env" by (rule read_world_os [OF assms(1) os])
  moreover have "enc_job (ap_codec a) ?j \<noteq> None" using assms(1) by (simp add: steady_api_def)
  moreover have "aget (st_index (sv_store s2)) (job_id ?j) \<noteq> None" using assms(2) s2 by (simp add: stored_def)
  ultimately obtain st where u: "fs_update (ap_codec a) env ?j (sv_store s2) = (st, None)"
    using fs_update_steady by blast
  then have "aget (st_index st) = (aget (st_index (sv_store s2)))(job_id j \<mapsto> ?j)"
    by (auto simp: fs_update_def split: if_splits prod.splits option.splits)
  with now os tr u s2 show ?thesis
    by (auto simp: reject_unqueueable_def respond_defs stored_def put_store_def)
qed

lemma char_less_byte: "byte c < 256"
  by (simp add: byte_def)

text \<open>The identifiers the server makes are ones the store accepts.\<close>

lemma hex_encode_length: "length (hex_encode bs) = 2 * length bs"
  by (induction bs) (simp_all add: hex_encode_def)

lemma hex_encode_valid:
  assumes "length bs = 16"
  shows "valid_job_id (hex_encode bs)"
proof -
  have d: "hex_digit n \<noteq> CHR 0x00 \<and> hex_digit n \<noteq> CHR ''/'' \<and> hex_digit n \<noteq> CHR ''.'' \<and> hex_digit n \<noteq> CHR 0x5C"
    if "n < 16" for n
  proof -
    have "list_all (\<lambda>n. hex_digit n \<noteq> CHR 0x00 \<and> hex_digit n \<noteq> CHR ''/'' \<and> hex_digit n \<noteq> CHR ''.'' \<and>
        hex_digit n \<noteq> CHR 0x5C) [0..<16]" by code_simp
    with that show ?thesis by (simp add: list_all_iff)
  qed
  have "c \<noteq> CHR 0x00 \<and> c \<noteq> CHR ''/'' \<and> c \<noteq> CHR ''.'' \<and> c \<noteq> CHR 0x5C" if "c \<in> set (hex_encode bs)" for c
  proof -
    from that obtain x where "c = hex_digit (byte x div 16) \<or> c = hex_digit (byte x mod 16)"
      by (auto simp: hex_encode_def)
    moreover have "byte x div 16 < 16" "byte x mod 16 < 16" for x
      using char_less_byte [of x] by (simp_all add: less_mult_imp_div_less)
    ultimately show ?thesis using d by metis
  qed
  with hex_encode_length [of bs] assms show ?thesis
    by (auto simp: valid_job_id_def contains_any_def list_ex_iff)
qed

lemma submit_spec:
  assumes a: "steady_api a" "ap_queue a" and s: "served s"
    and id: "\<forall>w. length (snd (ap_rand a 16 w)) = 16 \<and> stored s (hex_encode (snd (ap_rand a 16 w))) = None"
  shows "\<exists>w' s' j. submit a req (w, s) = ((w', s'), Return ()) \<and>
    stored s (job_id j) = None \<and> task j = req_task req \<and> repo_path j = req_repo_path req \<and> status j = StatusQueued \<and>
    (if length (q_buf (sv_queue s)) < q_cap (sv_queue s)
     then w' = write_json 201 (Body_Job j) w \<and>
       stored s' = (stored s)(job_id j \<mapsto> j) \<and> q_buf (sv_queue s') = q_buf (sv_queue s) @ [job_id j]
     else w' = write_json 503 (Body_Error ''queue full, try again later'') w \<and>
       (\<exists>t. stored s' = (stored s)(job_id j \<mapsto> j\<lparr>status := StatusFailed, updated_at := t\<rparr>)) \<and>
       sv_queue s' = sv_queue s)"
proof -
  obtain s1 now where now: "read_world (ap_now a) s = (s1, now)" by (cases "read_world (ap_now a) s")
  obtain s2 bs where rand: "read_world (ap_rand a 16) s1 = (s2, bs)" by (cases "read_world (ap_rand a 16) s1")
  obtain s3 env where os: "read_world (ap_os a) s2 = (s3, env)" by (cases "read_world (ap_os a) s2")
  define j where "j = \<lparr>job_id = hex_encode bs, task = req_task req, repo_path = req_repo_path req,
    status = StatusQueued, created_at = now, updated_at = now\<rparr>"
  have bs: "length bs = 16" "stored s (hex_encode bs) = None"
    using id rand by (auto simp: read_world_def split: prod.splits) (metis snd_conv)+
  have s3: "sv_pb s3 = sv_pb s" "sv_queue s3 = sv_queue s" using os now rand by simp_all
  obtain b where b: "enc_job (ap_codec a) j = Some b" using a(1) by (auto simp: steady_api_def)
  obtain fs where w: "write_job (ap_codec a) env j (st_fs (sv_store s3)) = (fs, None)"
    using write_job_steady [OF read_world_os [OF a(1) os] b] by blast
  define st where "st = (sv_store s3)\<lparr>st_fs := fs, st_index := aput (job_id j) j (st_index (sv_store s3))\<rparr>"
  have c: "fs_create (ap_codec a) env j (sv_store s3) = (st, None)"
    using hex_encode_valid [OF bs(1)] bs(2) s3 w by (simp add: fs_create_def j_def st_def stored_def)
  let ?s = "put_store st s3"
  have st: "stored ?s = (stored s)(job_id j \<mapsto> j)" "sv_queue ?s = sv_queue s"
    using s3 by (simp_all add: stored_def put_store_def st_def fun_eq_iff)
  have sub: "submit a req (w, s) = enqueue_created a j (w, ?s)"
    using now rand os c by (simp add: submit_def j_def)
  let ?room = "length (q_buf (sv_queue s)) < q_cap (sv_queue s)"
  have sv: "served (?s\<lparr>sv_queue := q\<rparr>)" if "\<not> q_closed q" for q
    using s s3 that by (simp add: served_def put_store_def)
  show ?thesis
  proof (cases ?room)
    case True
    let ?q = "(sv_queue s)\<lparr>q_buf := q_buf (sv_queue s) @ [job_id j]\<rparr>"
    have "\<not> q_closed ?q" using s by (simp add: served_def)
    from announce_created_spec [OF sv [OF this], of a j w] obtain s' where
      "announce_created a j (w, ?s\<lparr>sv_queue := ?q\<rparr>) = ((write_json 201 (Body_Job j) w, s'), Return ())"
      "stored s' = stored (?s\<lparr>sv_queue := ?q\<rparr>)" "sv_queue s' = ?q" by auto
    moreover have "enqueue (job_id j) (sv_queue ?s) = Return (?q, None)"
      using True s st(2) by (simp add: enqueue_def served_def)
    moreover have "stored (?s\<lparr>sv_queue := ?q\<rparr>) = stored ?s" by (simp add: stored_def)
    ultimately have "submit a req (w, s) = ((write_json 201 (Body_Job j) w, s'), Return ())"
      "stored s' = (stored s)(job_id j \<mapsto> j)" "sv_queue s' = ?q"
      using a(2) st(1) by (simp_all add: sub enqueue_created_def)
    with True bs show ?thesis by (intro exI [of _ "write_json 201 (Body_Job j) w"] exI [of _ s'] exI [of _ j]) (simp add: j_def)
  next
    case False
    have "stored (?s\<lparr>sv_queue := sv_queue s\<rparr>) (job_id j) \<noteq> None" using st by (simp add: stored_def)
    from reject_spec [OF a(1) this, of w] obtain s' t where
      "reject_unqueueable a j (w, ?s\<lparr>sv_queue := sv_queue s\<rparr>) =
        ((write_json 503 (Body_Error ''queue full, try again later'') w, s'), Return ())"
      "stored s' = (stored (?s\<lparr>sv_queue := sv_queue s\<rparr>))(job_id j \<mapsto> j\<lparr>status := StatusFailed, updated_at := t\<rparr>)"
      "sv_queue s' = sv_queue s" by (auto simp: j_def)
    moreover have "enqueue (job_id j) (sv_queue ?s) = Return (sv_queue s, Some (Sentinel ErrQueueFull))"
      using False s st(2) by (simp add: enqueue_def served_def)
    moreover have "stored (?s\<lparr>sv_queue := sv_queue s\<rparr>) = stored ?s" by (simp add: stored_def)
    ultimately have "submit a req (w, s) = ((write_json 503 (Body_Error ''queue full, try again later'') w, s'), Return ())"
      "stored s' = (stored s)(job_id j \<mapsto> j\<lparr>status := StatusFailed, updated_at := t\<rparr>)" "sv_queue s' = sv_queue s"
      using a(2) st(1) by (simp_all add: sub enqueue_created_def)
    with False bs show ?thesis
      by (intro exI [of _ "write_json 503 (Body_Error ''queue full, try again later'') w"] exI [of _ s'] exI [of _ j])
        (auto simp: j_def)
  qed
qed

text \<open>
  C15: no submission is lost or left hanging.  On a disk that accepts writes, with an open queue and a fresh
  identifier, a valid request always gets an answer: 201, and then the job is stored as queued and
  its identifier is the last in the queue; or 503 when the queue is full, and then the job is stored as
  failed and the queue is as it was.  Nothing else in the store changes.
\<close>

theorem submission_is_queued_or_failed:
  assumes "steady_api a" and "ap_queue a" and "served s"
    and "\<forall>w. length (snd (ap_rand a 16 w)) = 16 \<and> stored s (hex_encode (snd (ap_rand a 16 w))) = None"
    and "ap_decode a (take max_request_body_bytes (hq_body r)) = Decoded req0"
    and "validate req0 = (req, None)"
  shows "\<exists>w' s' j. create_job a r (w, s) = ((w', s'), Return ()) \<and>
    stored s (job_id j) = None \<and> task j = req_task req \<and> repo_path j = req_repo_path req \<and> status j = StatusQueued \<and>
    (if length (q_buf (sv_queue s)) < q_cap (sv_queue s)
     then w' = write_json 201 (Body_Job j) w \<and>
       stored s' = (stored s)(job_id j \<mapsto> j) \<and> q_buf (sv_queue s') = q_buf (sv_queue s) @ [job_id j]
     else w' = write_json 503 (Body_Error ''queue full, try again later'') w \<and>
       (\<exists>t. stored s' = (stored s)(job_id j \<mapsto> j\<lparr>status := StatusFailed, updated_at := t\<rparr>)) \<and>
       sv_queue s' = sv_queue s)"
  using submit_spec [OF assms(1-4), of req w] assms(5,6) by (simp add: create_job_def)

text \<open>A server with a queue of one, which is free.\<close>

definition demo_api :: "nat api" where
  "demo_api =
     \<lparr>ap_codec = plain_codec, ap_decode = (\<lambda>b. Decoded \<lparr>req_task = b, req_repo_path = ''/r''\<rparr>),
      ap_now = (\<lambda>w. (Suc w, 7)), ap_os = (\<lambda>w. (w, no_faults)), ap_rand = (\<lambda>n w. (w, replicate n (CHR ''a''))),
      ap_queue = True, ap_canceller = True, ap_bus = True, ap_events = True, ap_artifacts = True\<rparr>"

definition demo_server :: "nat server" where
  "demo_server =
     \<lparr>sv_world = 0, sv_pb = \<lparr>pb_inner = new_in_process_bus, pb_store = one_job_store\<rparr>, sv_queue = queue_new 1,
      sv_cancels = new_canceller, sv_limiter = new_rate_limiter 30 (Fin 5), sv_metrics = Some metrics_new\<rparr>"

definition demo_request :: request where
  "demo_request =
     \<lparr>hq_path = ''/api/v1/jobs'', hq_headers = [], hq_query = [], hq_values = [], hq_remote = ''1.2.3.4:5'',
      hq_body = ''rename the flag''\<rparr>"

theorem submission_is_queued_or_failed_witness:
  "\<exists>w' s' j. create_job demo_api demo_request (new_writer, demo_server) = ((w', s'), Return ()) \<and>
    w' = write_json 201 (Body_Job j) new_writer \<and> stored s' = (stored demo_server)(job_id j \<mapsto> j) \<and>
    q_buf (sv_queue s') = [job_id j]"
proof -
  have a: "steady_api demo_api" "ap_queue demo_api" "served demo_server"
    by (simp_all add: steady_api_def demo_api_def writable_def no_faults_def plain_codec_def served_def demo_server_def
        new_bus_inv queue_new_def)
  have id: "\<forall>w. length (snd (ap_rand demo_api 16 w)) = 16 \<and> stored demo_server (hex_encode (snd (ap_rand demo_api 16 w))) = None"
  proof -
    have "hex_encode (replicate 16 (CHR ''a'')) \<noteq> ''j''"
      using hex_encode_length [of "replicate 16 (CHR ''a'')"] by auto
    then show ?thesis by (simp add: demo_api_def stored_def demo_server_def one_job_store_def)
  qed
  have dec: "ap_decode demo_api (take max_request_body_bytes (hq_body demo_request)) =
      Decoded \<lparr>req_task = ''rename the flag'', req_repo_path = ''/r''\<rparr>"
  proof -
    have "length (hq_body demo_request) \<le> max_request_body_bytes"
      by (simp add: demo_request_def max_request_body_bytes_def)
    then show ?thesis by (simp add: demo_api_def demo_request_def)
  qed
  have "validate \<lparr>req_task = ''rename the flag'', req_repo_path = ''/r''\<rparr> =
      (\<lparr>req_task = ''rename the flag'', req_repo_path = ''/r''\<rparr>, None)" by code_simp
  from submission_is_queued_or_failed [OF a id dec this, of new_writer] show ?thesis
    by (auto simp: demo_server_def queue_new_def)
qed

subsection \<open>Pages\<close>

lemma page_eq: "0 \<le> limit \<Longrightarrow> 0 \<le> offset \<Longrightarrow> page limit offset xs = take (nat limit) (drop (nat offset) xs)"
proof -
  assume l: "0 \<le> limit" and o: "0 \<le> offset"
  show ?thesis
  proof (cases "int (length xs) < offset")
    case True
    then have "length xs \<le> nat offset" by simp
    with True l show ?thesis by (simp add: page_def Let_def)
  next
    case False
    show ?thesis
    proof (cases "int (length xs) < offset + limit")
      case True
      then have "length (drop (nat offset) xs) \<le> nat limit" using False o by simp
      with True False o show ?thesis by (simp add: page_def Let_def nat_diff_distrib)
    next
      case False
      with \<open>\<not> int (length xs) < offset\<close> l o show ?thesis by (simp add: page_def Let_def)
    qed
  qed
qed

text \<open>The request for page \<open>i\<close> of \<open>limit\<close> jobs each, and the jobs an answer carries.\<close>

definition page_request :: "nat \<Rightarrow> nat \<Rightarrow> request" where
  "page_request limit i =
     \<lparr>hq_path = ''/api/v1/jobs'', hq_headers = [],
      hq_query = [(''limit'', show_nat limit), (''offset'', show_nat (i * limit))], hq_values = [], hq_remote = [],
      hq_body = []\<rparr>"

definition jobs_sent :: "(writer \<times> 's) \<times> unit outcome \<Rightarrow> job list" where
  "jobs_sent x = concat (map (\<lambda>b. case b of Body_Jobs js \<Rightarrow> js | _ \<Rightarrow> []) (wr_body (fst (fst x))))"

lemma take_chunks: "concat (map (\<lambda>i. take l (drop (i * l) xs)) [0..<n]) = take (n * l) xs"
proof (induction n)
  case (Suc n)
  have "Suc n * l = n * l + l" by simp
  with Suc show ?case by (simp only: take_add upt_Suc map_append concat_append) simp
qed simp

text \<open>
  C37: paging shows every job once.  Asked for pages of up to 200 jobs one after the other, until the pages
  reach the length of the list, the server sends the whole listing, newest first, without a gap or
  a repetition, and no page is longer than asked.
\<close>

theorem pages_cover_the_listing:
  assumes "1 \<le> l" and "l \<le> 200" and "length (fs_list (sv_store s)) \<le> n * l" and "n * l < 2 ^ 63"
  shows "concat (map (\<lambda>i. jobs_sent (list_jobs a (page_request l i) (new_writer, s))) [0..<n]) =
      fs_list (sv_store s) \<and>
    list_all (\<lambda>i. length (jobs_sent (list_jobs a (page_request l i) (new_writer, s))) \<le> l) [0..<n]"
proof -
  have one: "jobs_sent (list_jobs a (page_request l i) (new_writer, s)) = take l (drop (i * l) (fs_list (sv_store s)))"
    if "i < n" for i
  proof -
    have "i * l \<le> n * l" using that by simp
    then have "i * l < 2 ^ 63" using assms(4) by linarith
    then have "atoi (show_nat (i * l)) = Some (int (i * l))" by (rule atoi_show_nat)
    moreover have "atoi (show_nat l) = Some (int l)" using assms(2) by (intro atoi_show_nat) simp
    ultimately have "page_params (page_request l i) = Inr (int l, int (i * l))"
      using assms(1,2)
      by (simp add: page_params_def page_limit_def page_offset_def query_get_def page_request_def max_list_limit_def
          del: of_nat_mult)
    then show ?thesis
      by (simp add: list_jobs_def respond_defs jobs_sent_def write_json_def write_body_def write_header_def
          set_header_def new_writer_def page_eq Let_def del: of_nat_mult)
  qed
  then have "concat (map (\<lambda>i. jobs_sent (list_jobs a (page_request l i) (new_writer, s))) [0..<n]) =
      concat (map (\<lambda>i. take l (drop (i * l) (fs_list (sv_store s)))) [0..<n])"
    by (intro arg_cong [of _ _ concat] map_cong) simp_all
  with one assms(3) show ?thesis by (simp add: take_chunks list_all_iff)
qed

theorem pages_cover_the_listing_witness:
  "concat (map (\<lambda>i. jobs_sent (list_jobs demo_api (page_request 2 i) (new_writer, demo_server))) [0..<3]) =
     fs_list (sv_store demo_server)"
proof -
  have "length (fs_list (sv_store demo_server)) \<le> 3 * 2"
    by (simp add: demo_server_def one_job_store_def fs_list_def)
  from pages_cover_the_listing [of 2, OF _ _ this, of demo_api] show ?thesis by simp
qed

end
