(* ===== verification/Stream.thy ===== *)
theory Stream
  imports Api_Props "HOL-Library.Sublist"
begin

text \<open>
  \<open>internal/api/stream.go\<close>: the events of a job, live over a WebSocket.  The WebSocket library is a parameter.  The loop
  of the handler runs among the other goroutines of the server, which publish; a run is given by the turns of both.
\<close>

subsection \<open>The handler\<close>

definition subscriber_buffer :: int where
  "subscriber_buffer = 64"

definition write_timeout :: duration where
  "write_timeout = 5 * second"

record 'w socket =
  so_accept :: "request \<Rightarrow> 'w \<Rightarrow> 'w \<times> go_err option"
  so_marshal :: "event \<Rightarrow> string result"
  so_write :: "duration \<Rightarrow> string \<Rightarrow> 'w \<Rightarrow> 'w \<times> go_err option"
  so_close :: "'w \<Rightarrow> 'w"

definition write_event :: "'w socket \<Rightarrow> event \<Rightarrow> 'w \<Rightarrow> 'w \<times> go_err option" where
  "write_event so e w =
     (case so_marshal so e of Inl x \<Rightarrow> (w, Some x) | Inr body \<Rightarrow> so_write so write_timeout body w)"

text \<open>
  \<open>Hijack\<close>, through which the library takes the connection over; the recorder remembers it.
\<close>

definition hijack :: "writer \<Rightarrow> writer" where
  "hijack w = w\<lparr>wr_recorder := map_option (\<lambda>(code, h). (code, True)) (wr_recorder w)\<rparr>"

text \<open>
  A turn: another goroutine publishes an event, the handler looks at its channel, or it learns that the peer is gone.  When
  both are ready, \<open>select\<close> takes either.
\<close>

datatype turn = Publishes os_env time event | Receives | Peer_Gone

definition with_pb :: "persisting_bus \<Rightarrow> 'w server \<Rightarrow> 'w server" where
  "with_pb p s = s\<lparr>sv_pb := p\<rparr>"

text \<open>The loop; the result has the events written and whether the loop has ended.\<close>

fun stream_loop :: "json_codec \<Rightarrow> 'w socket \<Rightarrow> nat \<Rightarrow> turn list \<Rightarrow> 'w server \<Rightarrow> 'w server \<times> event list \<times> bool" where
  "stream_loop c so a [] s = (s, [], False)"
| "stream_loop c so a (Publishes env now e # ts) s =
     stream_loop c so a ts (with_pb (fst (pb_publish c env now e (sv_pb s))) s)"
| "stream_loop c so a (Peer_Gone # ts) s = (s, [], True)"
| "stream_loop c so a (Receives # ts) s =
     (case bus_receive a (pb_inner (sv_pb s)) of
        (b, Would_Block) \<Rightarrow> stream_loop c so a ts s
      | (b, Closed_Chan) \<Rightarrow> (s, [], True)
      | (b, Got e) \<Rightarrow>
          (case read_world (write_event so e) (with_pb ((sv_pb s)\<lparr>pb_inner := b\<rparr>) s) of
             (s1, Some x) \<Rightarrow> (s1, [], True)
           | (s1, None) \<Rightarrow> (case stream_loop c so a ts s1 of (s2, es, fin) \<Rightarrow> (s2, e # es, fin))))"

text \<open>
  The handler.  It answers, or its turns run out first (\<open>None\<close>); beside that the result has the events written.
\<close>

definition stream ::
    "'w api \<Rightarrow> 'w socket \<Rightarrow> turn list \<Rightarrow> request \<Rightarrow> writer \<times> 'w server \<Rightarrow>
     ((writer \<times> 'w server) \<times> unit outcome option) \<times> event list" where
  "stream a so ts r ws =
     (if \<not> ap_bus a then (case fail_json 503 ''event bus not available'' ws of (ws', oc) \<Rightarrow> ((ws', Some oc), []))
      else case ws of (w, s) \<Rightarrow> (case read_world (so_accept so r) s of
          (s1, Some x) \<Rightarrow> (((w, s1), Some (Return ())), [])
        | (s1, None) \<Rightarrow> (case pb_subscribe (path_value r ''jobID'') subscriber_buffer (sv_pb s1) of
            (p, sub) \<Rightarrow> (case stream_loop (ap_codec a) so sub ts (with_pb p s1) of
                (s2, sent, False) \<Rightarrow> (((hijack w, s2), None), sent)
              | (s2, sent, True) \<Rightarrow>
                  (let s3 = with_pb (pb_unsubscribe sub (sv_pb s2)) s2 in
                   (((hijack w, s3\<lparr>sv_world := so_close so (sv_world s3)\<rparr>), Some (Return ())), sent))))))"

subsection \<open>What a peer is told\<close>

text \<open>The events of a job that reach its log during the turns.\<close>

fun logged :: "json_codec \<Rightarrow> string \<Rightarrow> turn list \<Rightarrow> store \<Rightarrow> event list" where
  "logged c k [] st = []"
| "logged c k (Publishes env now e # ts) st =
     (case fs_append c env (stamp now e) st of
        (st', None) \<Rightarrow> (if ev_job_id e = k then [stamp now e] else []) @ logged c k ts st'
      | (st', Some x) \<Rightarrow> logged c k ts st')"
| "logged c k (Receives # ts) st = logged c k ts st"
| "logged c k (Peer_Gone # ts) st = []"

definition listening :: "nat \<Rightarrow> string \<Rightarrow> event list \<Rightarrow> bus \<Rightarrow> bool" where
  "listening a k q b \<longleftrightarrow> bus_inv b \<and> a \<in> set (subs_of b k) \<and>
     (\<exists>s. aget (bus_heap b) a = Some s \<and> sub_job_id s = k \<and> sub_chan s = q \<and> sub_cap s = 64 \<and> \<not> sub_closed s)"

lemma listening_subscribed:
  assumes "bus_inv b" and "bus_subscribe k subscriber_buffer b = (b', a)"
  shows "listening a k [] b'" and "subs_of b' k' = (if k' = k then subs_of b k @ [a] else subs_of b k')"
proof -
  have "bus_inv b'" using subscribe_inv [OF assms(1), of k subscriber_buffer] assms(2) by simp
  then show "listening a k [] b'"
    using assms(2) by (auto simp: listening_def bus_subscribe_def Let_def subs_of_def subscriber_buffer_def)
  show "subs_of b' k' = (if k' = k then subs_of b k @ [a] else subs_of b k')"
    using assms(2) by (auto simp: bus_subscribe_def Let_def subs_of_def)
qed

lemma listening_publish:
  assumes "listening a k q b" and "bus_publish now e b = Return b'"
  shows "listening a k (if ev_job_id e = k \<and> length q < 64 then q @ [stamp now e] else q) b'" and "subs_of b' = subs_of b"
proof -
  have inv: "bus_inv b" using assms(1) by (simp add: listening_def)
  obtain s where s: "aget (bus_heap b) a = Some s" "sub_job_id s = k" "sub_chan s = q" "sub_cap s = 64" "\<not> sub_closed s"
    and a: "a \<in> set (subs_of b k)" using assms(1) by (auto simp: listening_def)
  obtain h where b': "b' = b\<lparr>bus_heap := h, bus_drop_calls := bus_drop_calls b'\<rparr>"
    and h: "\<And>x. aget h x = (if x \<in> set (subs_of b (ev_job_id e))
         then map_option (offered (stamp now e)) (aget (bus_heap b) x) else aget (bus_heap b) x)"
    using publish_result [OF inv, of now e] assms(2) by auto
  have heap: "bus_heap b' = h" by (subst b') simp
  show subs: "subs_of b' = subs_of b" by (rule ext, subst b') simp
  have mem: "a \<in> set (subs_of b (ev_job_id e)) \<longleftrightarrow> ev_job_id e = k"
    using a s(1,2) bus_invD(1) [OF inv, of a "ev_job_id e"] by auto
  have "bus_inv b'" by (rule publish_inv [OF inv assms(2)])
  then show "listening a k (if ev_job_id e = k \<and> length q < 64 then q @ [stamp now e] else q) b'"
    unfolding listening_def heap subs using s a mem h [of a] by (auto simp: offered_def)
qed

lemma listening_receive:
  assumes "listening a k q b"
  shows "bus_receive a b = (b, Would_Block) \<and> q = [] \<or>
    (\<exists>e es b'. q = e # es \<and> bus_receive a b = (b', Got e) \<and> listening a k es b' \<and> subs_of b' = subs_of b)"
proof (cases q)
  case Nil
  then show ?thesis using assms by (auto simp: listening_def bus_receive_def)
next
  case (Cons e es)
  obtain s where s: "aget (bus_heap b) a = Some s" "sub_job_id s = k" "sub_chan s = q" "sub_cap s = 64" "\<not> sub_closed s"
    using assms by (auto simp: listening_def)
  let ?b = "b\<lparr>bus_heap := aput a (s\<lparr>sub_chan := es\<rparr>) (bus_heap b)\<rparr>"
  have r: "bus_receive a b = (?b, Got e)" using s Cons by (simp add: bus_receive_def)
  have subs: "subs_of ?b = subs_of b" by (rule ext) simp
  have "bus_inv ?b" using receive_inv [of b a] assms r by (simp add: listening_def)
  then have "listening a k es ?b" using s assms unfolding listening_def subs by simp
  with r Cons subs show ?thesis by blast
qed

lemma stamp_twice: "stamp now (stamp now e) = stamp now e"
  by (simp add: stamp_def)

lemma stream_loop_spec:
  assumes "listening a k q (pb_inner (sv_pb s))" and "stream_loop c so a ts s = (s', sent, fin)"
  shows "subseq sent (q @ logged c k ts (sv_store s)) \<and>
    (length (q @ logged c k ts (sv_store s)) \<le> 64 \<longrightarrow> prefix sent (q @ logged c k ts (sv_store s))) \<and>
    (\<exists>q'. listening a k q' (pb_inner (sv_pb s'))) \<and> subs_of (pb_inner (sv_pb s')) = subs_of (pb_inner (sv_pb s))"
  using assms
proof (induction c so a ts s arbitrary: q sent rule: stream_loop.induct)
  case (2 c so a env now e ts s)
  let ?p = "sv_pb s" and ?p' = "fst (pb_publish c env now e (sv_pb s))"
  have inv: "bus_inv (pb_inner ?p)" using "2.prems"(1) by (simp add: listening_def)
  from inv show ?case
  proof (cases rule: pb_publish_cases [of ?p c env now e])
    case (failed st x)
    have s1: "sv_pb (with_pb ?p' s) = ?p\<lparr>pb_store := st\<rparr>" by (simp add: with_pb_def failed(2))
    from "2.IH" [of q sent] "2.prems" show ?thesis by (simp add: s1 failed(1))
  next
    case (sent st b)
    have s1: "sv_pb (with_pb ?p' s) = ?p\<lparr>pb_store := st, pb_inner := b\<rparr>" by (simp add: with_pb_def sent(4))
    have l: "listening a k (if ev_job_id e = k \<and> length q < 64 then q @ [stamp now e] else q) b" "subs_of b = subs_of (pb_inner ?p)"
      using listening_publish [OF "2.prems"(1) sent(2)] by (auto simp: stamp_twice)
    let ?q = "if ev_job_id e = k \<and> length q < 64 then q @ [stamp now e] else q"
    from "2.IH" [of ?q sent] l(1) "2.prems"(2)
    have ih: "subseq sent (?q @ logged c k ts st) \<and>
        (length (?q @ logged c k ts st) \<le> 64 \<longrightarrow> prefix sent (?q @ logged c k ts st)) \<and>
        (\<exists>q'. listening a k q' (pb_inner (sv_pb s'))) \<and> subs_of (pb_inner (sv_pb s')) = subs_of b" by (simp add: s1)
    show ?thesis
    proof (cases "ev_job_id e = k \<and> \<not> length q < 64")
      case True
      have "subseq (q @ logged c k ts st) (q @ stamp now e # logged c k ts st)" by (simp add: subseq_append' list_emb_Cons)
      with ih True l(2) show ?thesis by (auto simp: sent(1) intro: subseq_order.trans)
    next
      case False
      with ih l(2) show ?thesis by (auto simp: sent(1))
    qed
  qed
next
  case (4 c so a ts s)
  from listening_receive [OF "4.prems"(1)] show ?case
  proof (elim disjE exE conjE)
    assume r: "bus_receive a (pb_inner (sv_pb s)) = (pb_inner (sv_pb s), Would_Block)" and q: "q = []"
    from "4.IH"(2) [OF r [symmetric] refl, of "[]" sent] "4.prems" r q show ?thesis by simp
  next
    fix e es b assume q: "q = e # es" and r: "bus_receive a (pb_inner (sv_pb s)) = (b, Got e)" and l: "listening a k es b"
      and subs: "subs_of b = subs_of (pb_inner (sv_pb s))"
    let ?s = "with_pb ((sv_pb s)\<lparr>pb_inner := b\<rparr>) s"
    obtain s1 eo where w: "read_world (write_event so e) ?s = (s1, eo)" by (cases "read_world (write_event so e) ?s")
    then have s1: "sv_pb s1 = (sv_pb s)\<lparr>pb_inner := b\<rparr>" by (auto simp: read_world_def with_pb_def split: prod.splits)
    show ?thesis
    proof (cases eo)
      case None
      obtain s2 es2 f where rest: "stream_loop c so a ts s1 = (s2, es2, f)" by (cases "stream_loop c so a ts s1")
      have out: "s2 = s'" "f = fin" "sent = e # es2" using rest "4.prems"(2) r w None by simp_all
      have l1: "listening a k es (pb_inner (sv_pb s1))" using l s1 by simp
      have st: "sv_store s1 = sv_store s" "subs_of (pb_inner (sv_pb s1)) = subs_of (pb_inner (sv_pb s))"
        using s1 subs by simp_all
      from "4.IH"(1) [OF r [symmetric] refl w [symmetric] None l1 rest [unfolded out(1,2)]]
      show ?thesis unfolding out(3) q st by simp
    next
      case (Some x)
      with "4.prems"(2) r w have "s' = s1" "sent = []" by simp_all
      with s1 l subs show ?thesis by auto
    qed
  qed
qed auto

text \<open>
  C16: the live stream tells the story of the log.  What a peer is sent is, in order, events that were appended to the job's
  log while it was connected; as long as there are no more than 64 of them none is left out, so the peer has
  a prefix.  When the handler returns, the bus has the subscribers it had before.
\<close>

theorem stream_follows_the_log:
  assumes "bus_inv (pb_inner (sv_pb s))" and "ap_bus a"
    and "stream a so ts r (w, s) = (((w', s'), oc), sent)"
  shows "subseq sent (logged (ap_codec a) (path_value r ''jobID'') ts (sv_store s)) \<and>
    (length (logged (ap_codec a) (path_value r ''jobID'') ts (sv_store s)) \<le> 64 \<longrightarrow>
      prefix sent (logged (ap_codec a) (path_value r ''jobID'') ts (sv_store s))) \<and>
    (oc \<noteq> None \<longrightarrow> bus_inv (pb_inner (sv_pb s')) \<and> subs_of (pb_inner (sv_pb s')) = subs_of (pb_inner (sv_pb s)))"
proof -
  let ?k = "path_value r ''jobID''"
  obtain s1 eo where acc: "read_world (so_accept so r) s = (s1, eo)" by (cases "read_world (so_accept so r) s")
  then have s1: "sv_pb s1 = sv_pb s" by (auto simp: read_world_def split: prod.splits)
  show ?thesis
  proof (cases eo)
    case (Some x)
    with assms acc s1 show ?thesis by (auto simp: stream_def)
  next
    case None
    obtain b sub where sb: "bus_subscribe ?k subscriber_buffer (pb_inner (sv_pb s)) = (b, sub)"
      by (cases "bus_subscribe ?k subscriber_buffer (pb_inner (sv_pb s))")
    let ?p = "(sv_pb s)\<lparr>pb_inner := b\<rparr>"
    obtain s2 es f where lp: "stream_loop (ap_codec a) so sub ts (with_pb ?p s1) = (s2, es, f)"
      by (cases "stream_loop (ap_codec a) so sub ts (with_pb ?p s1)")
    note l = listening_subscribed [OF assms(1) sb]
    have sent: "sent = es"
      using assms(2,3) acc None s1 sb lp by (cases f) (auto simp: stream_def pb_subscribe_def Let_def)
    from stream_loop_spec [OF _ lp, of ?k "[]"] l(1)
    have spec: "subseq es (logged (ap_codec a) ?k ts (sv_store s))"
      "length (logged (ap_codec a) ?k ts (sv_store s)) \<le> 64 \<longrightarrow> prefix es (logged (ap_codec a) ?k ts (sv_store s))"
      "\<exists>q. listening sub ?k q (pb_inner (sv_pb s2))" "subs_of (pb_inner (sv_pb s2)) = subs_of b"
      by (simp_all add: with_pb_def)
    have "bus_inv (pb_inner (sv_pb s')) \<and> subs_of (pb_inner (sv_pb s')) = subs_of (pb_inner (sv_pb s))" if "oc \<noteq> None"
    proof -
      have f: f using that assms(2,3) acc None s1 sb lp by (cases f) (auto simp: stream_def pb_subscribe_def Let_def)
      have s': "pb_inner (sv_pb s') = bus_unsubscribe sub (pb_inner (sv_pb s2))"
        using assms(2,3) acc None s1 sb lp f
        by (auto simp: stream_def pb_subscribe_def pb_unsubscribe_def with_pb_def Let_def)
      obtain x where inv: "bus_inv (pb_inner (sv_pb s2))" and x: "aget (bus_heap (pb_inner (sv_pb s2))) sub = Some x"
        using spec(3) by (auto simp: listening_def)
      have new: "sub \<notin> set (subs_of (pb_inner (sv_pb s)) k)" for k
      proof
        assume "sub \<in> set (subs_of (pb_inner (sv_pb s)) k)"
        with bus_invD(1,3) [OF assms(1)] have "sub < bus_next (pb_inner (sv_pb s))" by blast
        with sb show False by (simp add: bus_subscribe_def Let_def)
      qed
      have "subs_of (bus_unsubscribe sub (pb_inner (sv_pb s2))) k = subs_of (pb_inner (sv_pb s)) k" for k
        unfolding unsubscribe_subs [OF inv x] spec(4) l(2) using new by simp
      then show ?thesis using unsubscribe_inv [OF inv] s' by auto
    qed
    with spec(1,2) sent show ?thesis by blast
  qed
qed

text \<open>A peer that is told of one event and leaves.\<close>

definition example_socket :: "string list socket" where
  "example_socket =
     \<lparr>so_accept = (\<lambda>r w. (w, None)), so_marshal = (\<lambda>e. Inr (event_type_string (ev_type e))),
      so_write = (\<lambda>d b w. (w @ [b], None)), so_close = (\<lambda>w. w @ [''bye''])\<rparr>"

definition stream_api :: "string list api" where
  "stream_api =
     \<lparr>ap_codec = sample_codec, ap_decode = (\<lambda>b. Malformed), ap_now = (\<lambda>w. (w, 7)), ap_os = (\<lambda>w. (w, no_faults)),
      ap_rand = (\<lambda>n w. (w, [])), ap_queue = True, ap_canceller = True, ap_bus = True, ap_events = True, ap_artifacts = True\<rparr>"

definition stream_server :: "string list server" where
  "stream_server =
     \<lparr>sv_world = [], sv_pb = \<lparr>pb_inner = new_in_process_bus, pb_store = one_job_store\<rparr>, sv_queue = queue_new 1,
      sv_cancels = new_canceller, sv_limiter = new_rate_limiter 30 (Fin 5), sv_metrics = None\<rparr>"

definition stream_request :: request where
  "stream_request = demo_request\<lparr>hq_values := [(''jobID'', ''j'')]\<rparr>"

definition stream_turns :: "turn list" where
  "stream_turns = [Receives, Publishes no_faults 9 sample_event, Receives, Peer_Gone]"

lemma stream_run:
  "let x = stream stream_api example_socket stream_turns stream_request (new_writer, stream_server) in
     snd x = [sample_event] \<and> snd (fst x) = Some (Return ()) \<and> sv_world (snd (fst (fst x))) = [''job.started'', ''bye'']"
  by code_simp

theorem stream_follows_the_log_witness:
  "prefix [sample_event] (logged sample_codec ''j'' stream_turns one_job_store)"
proof -
  obtain w' s' where r: "stream stream_api example_socket stream_turns stream_request (new_writer, stream_server) =
      (((w', s'), Some (Return ())), [sample_event])" using stream_run by (metis prod.collapse)
  have "bus_inv (pb_inner (sv_pb stream_server))" "ap_bus stream_api"
    by (simp_all add: stream_server_def stream_api_def new_bus_inv)
  from stream_follows_the_log [OF this r]
  have p: "length (logged sample_codec ''j'' stream_turns one_job_store) \<le> 64 \<longrightarrow>
      prefix [sample_event] (logged sample_codec ''j'' stream_turns one_job_store)"
    by (simp add: stream_api_def stream_server_def stream_request_def path_value_def)
  have "length (logged sample_codec ''j'' stream_turns one_job_store) \<le> 1"
    by (simp add: stream_turns_def split: prod.split option.split)
  with p show ?thesis by simp
qed

end
