(* ===== verification/Rojo_Client.thy ===== *)
theory Rojo_Client
  imports Http
begin

text \<open>
  The clients of the HTTP API: \<open>cmd/rojo/client.go\<close>, which the command line uses, and
  \<open>internal/benchmark/client.go\<close>.  \<open>net/http\<close> and \<open>encoding/json\<close> are parameters: a transport answers requests and may
  change the world \<open>'w\<close>, and the decoders are arbitrary functions of a response.
\<close>

subsection \<open>The wire\<close>

record http_request =
  hr_method :: string
  hr_url :: string
  hr_header :: "(string, string) amap"
  hr_body :: "string option"

text \<open>\<open>hs_read_err\<close> is what reading the body to its end fails with, if it does.\<close>

record http_response =
  hs_status :: int
  hs_header :: "(string, string) amap"
  hs_body :: string
  hs_read_err :: "go_err option"

record client_job =
  cj_id :: string
  cj_task :: string
  cj_repo_path :: string
  cj_status :: string
  cj_created_at :: time
  cj_updated_at :: time

definition no_job :: client_job where
  "no_job = \<lparr>cj_id = [], cj_task = [], cj_repo_path = [], cj_status = [], cj_created_at = 0, cj_updated_at = 0\<rparr>"

text \<open>
  \<open>tp_build\<close> is the check \<open>http.NewRequest\<close> makes of its arguments.  Of the decoders, \<open>wi_error\<close> gives the message of
  a well-formed error body.
\<close>

record 'w transport =
  tp_build :: "string \<Rightarrow> string \<Rightarrow> go_err option"
  tp_do :: "http_request \<Rightarrow> 'w \<Rightarrow> 'w \<times> http_response result"

record wire =
  wi_encode :: "(string \<times> string) list \<Rightarrow> string result"
  wi_job :: "http_response \<Rightarrow> client_job result"
  wi_jobs :: "http_response \<Rightarrow> client_job list result"
  wi_events :: "http_response \<Rightarrow> event list result"
  wi_error :: "string \<Rightarrow> string option"

record 'w http_client =
  hc_base :: string
  hc_token :: string
  hc_transport :: "'w transport"
  hc_wire :: wire

definition response_header :: "http_response \<Rightarrow> string \<Rightarrow> string" where
  "response_header r k = (case aget (hs_header r) k of None \<Rightarrow> [] | Some v \<Rightarrow> v)"

subsection \<open>Requests\<close>

definition request_headers :: "'w http_client \<Rightarrow> bool \<Rightarrow> (string, string) amap" where
  "request_headers c has_body =
     (let h = (if has_body then [(''Content-Type'', ''application/json'')] else []) in
      if hc_token c \<noteq> [] then aput ''Authorization'' (''Bearer '' @ hc_token c) h else h)"

text \<open>\<open>client.do\<close>; the two clients differ in the hint they give when the server cannot be reached.\<close>

definition send_request ::
    "string \<Rightarrow> 'w http_client \<Rightarrow> string \<Rightarrow> string \<Rightarrow> (string \<times> string) list option \<Rightarrow> 'w \<Rightarrow>
     'w \<times> http_response result" where
  "send_request hint c meth path body w =
     (case (case body of None \<Rightarrow> Inr None | Some kvs \<Rightarrow>
              (case wi_encode (hc_wire c) kvs of Inl e \<Rightarrow> Inl e | Inr b \<Rightarrow> Inr (Some b))) of
        Inl e \<Rightarrow> (w, Inl (Errorf ''encode request: %w'' [FW e]))
      | Inr buf \<Rightarrow>
          (case tp_build (hc_transport c) meth (hc_base c @ path) of
             Some e \<Rightarrow> (w, Inl (Errorf ''build request: %w'' [FW e]))
           | None \<Rightarrow>
               (case tp_do (hc_transport c) \<lparr>hr_method = meth, hr_url = hc_base c @ path,
                      hr_header = request_headers c (body \<noteq> None), hr_body = buf\<rparr> w of
                  (w', Inl e) \<Rightarrow>
                    (w', Inl (Errorf (''cannot reach the rojo server at %s: %w'' @ hint) [FStr (hc_base c), FW e]))
                | (w', Inr r) \<Rightarrow> (w', Inr r))))"

definition start_hint :: string where
  "start_hint = CHR 0x0A # ''(start it with `make run`, or point --server at it)''"

definition do_request ::
    "'w http_client \<Rightarrow> string \<Rightarrow> string \<Rightarrow> (string \<times> string) list option \<Rightarrow> 'w \<Rightarrow> 'w \<times> http_response result" where
  "do_request = send_request start_hint"

definition as_error :: "wire \<Rightarrow> http_response \<Rightarrow> go_err" where
  "as_error wi r =
     (let b = take 65536 (hs_body r) in
      case wi_error wi b of
        Some m \<Rightarrow> if m \<noteq> [] then Errorf ''%s (HTTP %d)'' [FStr m, FInt (hs_status r)]
          else Errorf ''server returned HTTP %d: %s'' [FInt (hs_status r), FStr (trim_space b)]
      | None \<Rightarrow> Errorf ''server returned HTTP %d: %s'' [FInt (hs_status r), FStr (trim_space b)])"

text \<open>\<open>decode\<close>, with the value to decode into, if any, given by its decoder.\<close>

definition decode :: "wire \<Rightarrow> (http_response \<Rightarrow> 'a result) option \<Rightarrow> 'a \<Rightarrow> http_response \<Rightarrow> 'a result" where
  "decode wi out zero r =
     (if 400 \<le> hs_status r then Inl (as_error wi r)
      else case out of
        None \<Rightarrow> Inr zero
      | Some f \<Rightarrow> (case f r of Inl e \<Rightarrow> Inl (Errorf ''decode response: %w'' [FW e]) | Inr x \<Rightarrow> Inr x))"

text \<open>A request whose answer is decoded, with what the error of the decoding is wrapped in.\<close>

definition call_api ::
    "('w \<Rightarrow> 'w \<times> http_response result) \<Rightarrow> (http_response \<Rightarrow> 'a result) \<Rightarrow> (go_err \<Rightarrow> go_err) \<Rightarrow> 'w \<Rightarrow> 'w \<times> 'a result" where
  "call_api req dec wrap w =
     (case req w of
        (w', Inl e) \<Rightarrow> (w', Inl e)
      | (w', Inr r) \<Rightarrow> (w', case dec r of Inl e \<Rightarrow> Inl (wrap e) | Inr x \<Rightarrow> Inr x))"

subsection \<open>The calls of the command line (\<open>cmd/rojo/client.go\<close>)\<close>

definition jobs_path :: string where
  "jobs_path = ''/api/v1/jobs''"

definition client_create :: "'w http_client \<Rightarrow> string \<Rightarrow> string \<Rightarrow> 'w \<Rightarrow> 'w \<times> client_job result" where
  "client_create c t repo =
     call_api (do_request c ''POST'' jobs_path (Some [(''task'', t), (''repo_path'', repo)]))
       (decode (hc_wire c) (Some (wi_job (hc_wire c))) no_job) (\<lambda>e. Errorf ''create job: %w'' [FW e])"

definition client_get :: "'w http_client \<Rightarrow> string \<Rightarrow> 'w \<Rightarrow> 'w \<times> client_job result" where
  "client_get c k =
     call_api (do_request c ''GET'' (jobs_path @ ''/'' @ k) None)
       (decode (hc_wire c) (Some (wi_job (hc_wire c))) no_job) (\<lambda>e. Errorf ''get job %s: %w'' [FStr k, FW e])"

definition client_list :: "'w http_client \<Rightarrow> int \<Rightarrow> 'w \<Rightarrow> 'w \<times> (client_job list \<times> string) result" where
  "client_list c limit =
     call_api (do_request c ''GET'' (jobs_path @ ''?limit='' @ show_int limit) None)
       (\<lambda>r. case decode (hc_wire c) (Some (wi_jobs (hc_wire c))) [] r of
              Inl e \<Rightarrow> Inl e | Inr js \<Rightarrow> Inr (js, response_header r ''X-Total-Count''))
       (\<lambda>e. Errorf ''list jobs: %w'' [FW e])"

definition client_events :: "'w http_client \<Rightarrow> string \<Rightarrow> nat \<Rightarrow> 'w \<Rightarrow> 'w \<times> event list result" where
  "client_events c k since =
     call_api (do_request c ''GET'' (jobs_path @ ''/'' @ k @ ''/events?since='' @ show_nat since) None)
       (decode (hc_wire c) (Some (wi_events (hc_wire c))) []) (\<lambda>e. Errorf ''events for %s: %w'' [FStr k, FW e])"

text \<open>What a response to a request for the patch means; \<open>err\<close> turns an error response into an error.\<close>

definition patch_of :: "(http_response \<Rightarrow> go_err) \<Rightarrow> http_response \<Rightarrow> string result" where
  "patch_of err r =
     (if hs_status r = 404 then Inr []
      else if 400 \<le> hs_status r then Inl (err r)
      else case hs_read_err r of
        Some e \<Rightarrow> Inl (Errorf ''read diff: %w'' [FW e])
      | None \<Rightarrow> Inr (hs_body r))"

definition client_diff :: "'w http_client \<Rightarrow> string \<Rightarrow> 'w \<Rightarrow> 'w \<times> string result" where
  "client_diff c k =
     call_api (do_request c ''GET'' (jobs_path @ ''/'' @ k @ ''/diff'') None)
       (patch_of (\<lambda>r. Errorf ''diff for %s: %w'' [FStr k, FW (as_error (hc_wire c) r)])) (\<lambda>e. e)"

definition client_cancel :: "'w http_client \<Rightarrow> string \<Rightarrow> 'w \<Rightarrow> 'w \<times> go_err option" where
  "client_cancel c k w =
     (case call_api (do_request c ''POST'' (jobs_path @ ''/'' @ k @ ''/cancel'') None)
             (decode (hc_wire c) None ()) (\<lambda>e. Errorf ''cancel %s: %w'' [FStr k, FW e]) w of
        (w', Inl e) \<Rightarrow> (w', Some e) | (w', Inr _) \<Rightarrow> (w', None))"

end
