(* ===== verification/Rojo_Cli.thy ===== *)
theory Rojo_Cli
  imports Rojo_Client Config
begin

text \<open>
  The command line \<open>cmd/rojo/\<close>: rendering of events (\<open>render.go\<close>), the subcommands and the loop that watches a
  job (\<open>main.go\<close>).  The terminal is what was written to the two outputs so far.
\<close>

subsection \<open>Text\<close>

abbreviation nl :: string where
  "nl \<equiv> [CHR 0x0A]"

definition ellipsis :: string where
  "ellipsis = [CHR 0xE2, CHR 0x80, CHR 0xA6]"

definition em_dash :: string where
  "em_dash = [CHR 0xE2, CHR 0x80, CHR 0x94]"

text \<open>\<open>strings.Fields\<close>: \<open>acc\<close> is the field being read.\<close>

function go_fields :: "string \<Rightarrow> string \<Rightarrow> string list" where
  "go_fields acc s =
     (if s = [] then (if acc = [] then [] else [acc])
      else case find (\<lambda>w. w \<noteq> [] \<and> has_prefix s w) space_seqs of
        Some w \<Rightarrow> (if acc = [] then [] else [acc]) @ go_fields [] (drop (length w) s)
      | None \<Rightarrow> go_fields (acc @ take (rune_width s) s) (drop (rune_width s) s))"
  by pat_completeness auto
termination
proof (relation "measure (\<lambda>(acc, s). length s)")
  show "wf (measure (\<lambda>(acc :: string, s :: string). length s))" by simp
next
  fix acc s w :: string
  assume "s \<noteq> []" and "find (\<lambda>w. w \<noteq> [] \<and> has_prefix s w) space_seqs = Some w"
  then show "(([], drop (length w) s), (acc, s)) \<in> measure (\<lambda>(acc, s). length s)"
    by (cases w) (auto simp: find_Some_iff)
next
  fix acc s :: string
  assume "s \<noteq> []"
  then show "((acc @ take (rune_width s) s, drop (rune_width s) s), (acc, s)) \<in> measure (\<lambda>(acc, s). length s)"
    using rune_width_bounds(1) [of s] by (cases s) auto
qed

declare go_fields.simps [simp del]

text \<open>\<open>string([]rune(s)[:n])\<close>: an invalid byte comes back as U+FFFD.\<close>

fun take_runes :: "nat \<Rightarrow> string \<Rightarrow> string" where
  "take_runes 0 s = []"
| "take_runes (Suc n) s =
     (case s of
        [] \<Rightarrow> []
      | c # t \<Rightarrow>
          (if rune_width s = 1 \<and> 128 \<le> byte c then [CHR 0xEF, CHR 0xBF, CHR 0xBD] else take (rune_width s) s) @
          take_runes n (drop (rune_width s) s))"

definition one_line :: "string \<Rightarrow> nat \<Rightarrow> string" where
  "one_line s0 width =
     (let s = join_with '' '' (go_fields [] s0) in
      if width < rune_count s then take_runes (width - 1) s @ ellipsis else s)"

subsection \<open>Rendering an event (\<open>render.go\<close>)\<close>

text \<open>
  A number of a payload is a \<open>float64\<close> once it went through JSON, and \<open>%v\<close> prints a whole one of seven digits or more
  with an exponent.
\<close>

definition show_whole_float :: "int \<Rightarrow> string" where
  "show_whole_float n =
     (let ds = show_nat (nat \<bar>n\<bar>); sign = (if n < 0 then ''-'' else []) in
      if length ds \<le> 6 then sign @ ds
      else let ex = length ds - 1; frac = rev (dropWhile (\<lambda>c. c = CHR ''0'') (rev (tl ds))) in
        sign @ [hd ds] @ (if frac = [] then [] else CHR ''.'' # frac) @ ''e+'' @
        (if ex < 10 then ''0'' else []) @ show_nat ex)"

fun show_any :: "json \<Rightarrow> string" and show_entry :: "string \<times> json \<Rightarrow> string" where
  "show_any (JStr s) = s"
| "show_any (JInt n) = show_whole_float n"
| "show_any (JBool b) = (if b then ''true'' else ''false'')"
| "show_any (JErr e) = err_text e"
| "show_any (JList xs) = CHR ''['' # join_with '' '' (map show_any xs) @ '']''"
| "show_any (JObj kvs) = ''map['' @ join_with '' '' (map snd (sort_key fst (map (\<lambda>kv. (fst kv, show_entry kv)) kvs))) @ '']''"
| "show_entry kv = (case kv of (k, v) \<Rightarrow> k @ '':'' @ show_any v)"

definition payload :: "event \<Rightarrow> string \<Rightarrow> json option" where
  "payload e k = aget (ev_payload e) k"

definition show_value :: "json option \<Rightarrow> string" where
  "show_value v = (case v of None \<Rightarrow> ''<nil>'' | Some x \<Rightarrow> show_any x)"

definition path_list :: "json option \<Rightarrow> string" where
  "path_list v =
     (case v of
        Some (JList items) \<Rightarrow>
          if items = [] then ''no files''
          else let parts = map show_any items in
            if 6 < length parts
            then join_with '', '' (take 6 parts) @ '', '' @ ellipsis @
              sprintf '' (%d more)'' [show_int (int (length parts - 6))]
            else join_with '', '' parts
      | _ \<Rightarrow> ''no files'')"

definition note_of :: "json \<Rightarrow> string option" where
  "note_of it =
     (case it of
        JObj m \<Rightarrow> (case aget m ''note'' of Some (JStr n) \<Rightarrow> if n \<noteq> [] then Some n else None | _ \<Rightarrow> None)
      | _ \<Rightarrow> None)"

definition result_notes :: "json option \<Rightarrow> string" where
  "result_notes v =
     (case v of Some (JList items) \<Rightarrow> join_with ''; '' (somes (map note_of items)) | _ \<Rightarrow> [])"

text \<open>\<open>clk\<close> formats a time as the local wall clock.\<close>

definition render_event :: "(time \<Rightarrow> string) \<Rightarrow> event \<Rightarrow> string" where
  "render_event clk e =
     (let ts = clk (ev_created_at e); v = (\<lambda>k. show_value (payload e k)) in
      case ev_type e of
        TypeStepStarted \<Rightarrow> ts @ ''  '' @ [CHR 0xE2, CHR 0x86, CHR 0x92] @ '' '' @ v ''status''
      | TypePlanCreated \<Rightarrow> ts @ ''  plan: '' @ v ''summary''
      | TypeImplementationCompleted \<Rightarrow>
          ts @ ''  applied '' @ v ''operations'' @ '' operation(s): '' @ path_list (payload e ''paths'')
      | TypeVerificationCompleted \<Rightarrow>
          let line = ts @ ''  checks: '' @ v ''summary''; notes = result_notes (payload e ''results'') in
          if notes \<noteq> [] then line @ '' '' @ em_dash @ '' '' @ notes else line
      | TypeReviewCompleted \<Rightarrow> ts @ ''  review: '' @ v ''decision'' @ '' '' @ em_dash @ '' '' @ v ''notes''
      | TypeRevisionRequested \<Rightarrow> ts @ ''  revision requested: '' @ one_line (v ''notes'') 120
      | TypeDiffCaptured \<Rightarrow>
          if payload e ''empty'' = Some (JBool True) then ts @ ''  no changes were produced''
          else ts @ ''  patch captured: '' @ v ''bytes'' @ '' bytes across '' @ path_list (payload e ''files'')
      | TypeFanoutCompleted \<Rightarrow> ts @ ''  fan-out: '' @ v ''passed'' @ '' of '' @ v ''total'' @ '' variants passed''
      | TypeJobCompleted \<Rightarrow> ts @ ''  '' @ [CHR 0xE2, CHR 0x9C, CHR 0x93] @ '' completed''
      | TypeJobFailed \<Rightarrow>
          ts @ ''  '' @ [CHR 0xE2, CHR 0x9C, CHR 0x97] @ '' failed: '' @ one_line (v ''error'') 200
      | TypeJobCancelled \<Rightarrow> ts @ ''  cancelled''
      | _ \<Rightarrow> [])"

lemma rune_width_ascii: "byte c < 128 \<Longrightarrow> rune_width (c # t) = 1"
  by (auto simp: rune_width_def between_def split: list.splits)

lemma rune_width_local: "2 \<le> rune_width s \<Longrightarrow> rune_width (take (rune_width s) s @ t) = rune_width s"
proof -
  assume w: "2 \<le> rune_width s"
  show ?thesis
  proof (cases s)
    case a: (Cons a s1)
    show ?thesis
    proof (cases s1)
      case b: (Cons b s2)
      show ?thesis
      proof (cases s2)
        case c: (Cons c s3)
        show ?thesis
          using w a b c by (cases s3) (auto simp: rune_width_def Let_def simp del: second_range.simps split: prod.splits if_splits)
      qed (use w a b in \<open>auto simp: rune_width_def Let_def simp del: second_range.simps split: prod.splits if_splits\<close>)
    qed (use w a in \<open>auto simp: rune_width_def Let_def simp del: second_range.simps split: prod.splits if_splits\<close>)
  qed (use w in \<open>simp add: rune_width_def\<close>)
qed

lemma rune_count_step:
  assumes "r \<noteq> []" and "rune_width (r @ t) = length r"
  shows "rune_count (r @ t) = Suc (rune_count t)"
  using assms by (subst rune_count.simps) simp

lemma take_runes_count: "rune_count (take_runes n s @ t) \<le> n + rune_count t"
proof (induction n s rule: take_runes.induct)
  case (2 n s)
  show ?case
  proof (cases s)
    case (Cons c u)
    let ?r = "if rune_width s = 1 \<and> 128 \<le> byte c then [CHR 0xEF, CHR 0xBF, CHR 0xBD] else take (rune_width s) s"
    let ?t = "take_runes n (drop (rune_width s) s) @ t"
    have w: "1 \<le> rune_width s" "rune_width s \<le> length s" using rune_width_bounds(1,2) [of s] Cons by auto
    have "rune_width (?r @ ?t) = length ?r"
    proof (cases "rune_width s = 1")
      case True
      then show ?thesis using Cons rune_width_ascii [of c]
        by (auto simp: rune_width_def [of "CHR 0xEF # _"] between_def byte_def)
    next
      case False
      then show ?thesis using w rune_width_local [of s ?t] by simp
    qed
    moreover have "?r \<noteq> []" using w Cons by (auto simp: Suc_le_eq)
    ultimately have "rune_count (?r @ ?t) = Suc (rune_count ?t)" by (rule rune_count_step [rotated])
    moreover have "take_runes (Suc n) s @ t = ?r @ ?t" by (simp add: Cons)
    ultimately show ?thesis using 2 [OF Cons] by (simp only: Suc_le_mono add_Suc)
  qed simp
qed simp

text \<open>
  A line of the terminal is as wide as asked for.  However long and in whatever script a task or a note is, the
  line shown of it has at most that many runes; what is cut is marked by an ellipsis.
\<close>

lemma one_line_bounded:
  assumes "1 \<le> width"
  shows "rune_count (one_line s width) \<le> width"
proof (cases "width < rune_count (join_with '' '' (go_fields [] s))")
  case True
  have "rune_count ellipsis = 1" by (simp add: ellipsis_def rune_count.simps rune_width_def between_def byte_def)
  with True assms take_runes_count [of "width - 1" _ ellipsis] show ?thesis
    by (fastforce simp: one_line_def Let_def)
qed (simp add: one_line_def Let_def)

theorem one_line_bounded_witness: "rune_count (one_line ''fix the parser'' 5) \<le> 5"
  by (rule one_line_bounded) simp

subsection \<open>Flags (package \<open>flag\<close>)\<close>

datatype flag_kind = String_Flag | Bool_Flag | Int_Flag

definition bool_words :: "string list" where
  "bool_words = [''1'', ''t'', ''T'', ''TRUE'', ''true'', ''True'', ''0'', ''f'', ''F'', ''FALSE'', ''false'', ''False'']"

definition flag_true :: "string \<Rightarrow> bool" where
  "flag_true s = (s \<in> {''1'', ''t'', ''T'', ''TRUE'', ''true'', ''True''})"

text \<open>Whether a value may be given to a flag; \<open>int_ok\<close> is the integer syntax of the package.\<close>

definition flag_accepts :: "(string \<Rightarrow> int option) \<Rightarrow> flag_kind \<Rightarrow> string \<Rightarrow> bool" where
  "flag_accepts int_of k s =
     (case k of String_Flag \<Rightarrow> True | Bool_Flag \<Rightarrow> s \<in> set bool_words | Int_Flag \<Rightarrow> int_of s \<noteq> None)"

text \<open>
  \<open>FlagSet.Parse\<close>: the flags given with their values, the last one counting, and the other arguments, or nothing
  when parsing ends in an error.
\<close>

fun parse_flags ::
    "(string \<Rightarrow> int option) \<Rightarrow> (string, flag_kind) amap \<Rightarrow> (string, string) amap \<Rightarrow> string list \<Rightarrow>
     ((string, string) amap \<times> string list) option" where
  "parse_flags io ks vals [] = Some (vals, [])"
| "parse_flags io ks vals (s # rest) =
     (if length s < 2 \<or> hd s \<noteq> CHR ''-'' then Some (vals, s # rest)
      else if s = ''--'' then Some (vals, rest)
      else let body = (if s ! 1 = CHR ''-'' then drop 2 s else drop 1 s) in
        if hd body = CHR ''-'' \<or> hd body = CHR ''='' then None
        else let cut = map_option Suc (index_byte (tl body) (CHR ''=''));
                 name = (case cut of None \<Rightarrow> body | Some i \<Rightarrow> take i body);
                 val = map_option (\<lambda>i. drop (i + 1) body) cut in
          (case aget ks name of
             None \<Rightarrow> None
           | Some k \<Rightarrow>
               if k = Bool_Flag then
                 let v = (case val of None \<Rightarrow> ''true'' | Some v \<Rightarrow> v) in
                 if flag_accepts io k v then parse_flags io ks (aput name v vals) rest else None
               else (case val of
                   Some v \<Rightarrow> if flag_accepts io k v then parse_flags io ks (aput name v vals) rest else None
                 | None \<Rightarrow> (case rest of
                       [] \<Rightarrow> None
                     | v # rest' \<Rightarrow> if flag_accepts io k v then parse_flags io ks (aput name v vals) rest' else None))))"

definition flag_value :: "(string, string) amap \<Rightarrow> string \<Rightarrow> string \<Rightarrow> string" where
  "flag_value vals k dflt = (case aget vals k of None \<Rightarrow> dflt | Some v \<Rightarrow> v)"

subsection \<open>The machine the command line runs on\<close>

record 'w tty =
  tm_world :: 'w
  tm_out :: string
  tm_err :: string

definition put_out :: "string \<Rightarrow> 'w tty \<Rightarrow> 'w tty" where
  "put_out s t = t\<lparr>tm_out := tm_out t @ s\<rparr>"

definition say :: "string \<Rightarrow> 'w tty \<Rightarrow> 'w tty" where
  "say s t = t\<lparr>tm_err := tm_err t @ s @ nl\<rparr>"

text \<open>
  The environment, the file system and \<open>git apply\<close>, whose second part is its combined output, and the layouts
  of a local time.
\<close>

record 'w machine =
  mc_env :: env
  mc_getwd :: "'w \<Rightarrow> string result"
  mc_stat :: "string \<Rightarrow> 'w \<Rightarrow> go_err option"
  mc_git_apply :: "string \<Rightarrow> string \<Rightarrow> 'w \<Rightarrow> 'w \<times> string \<times> go_err option"
  mc_transport :: "'w transport"
  mc_wire :: wire
  mc_int :: "string \<Rightarrow> int option"
  mc_clock :: "time \<Rightarrow> string"
  mc_date :: "time \<Rightarrow> string"
  mc_rfc3339 :: "time \<Rightarrow> string"

definition on_world :: "('w \<Rightarrow> 'w \<times> 'a) \<Rightarrow> 'w tty \<Rightarrow> 'w tty \<times> 'a" where
  "on_world f t = (case f (tm_world t) of (w, a) \<Rightarrow> (t\<lparr>tm_world := w\<rparr>, a))"

definition say_error :: "string \<Rightarrow> go_err \<Rightarrow> 'w tty \<Rightarrow> 'w tty" where
  "say_error what e = say (what @ '' '' @ err_text e)"

definition env_or :: "env \<Rightarrow> string \<Rightarrow> string \<Rightarrow> string" where
  "env_or e k fallback = (if getenv e k \<noteq> [] then getenv e k else fallback)"

text \<open>\<open>filepath.Abs\<close>, then the check for a \<open>.git\<close> below it.\<close>

definition abs_path :: "'w machine \<Rightarrow> string \<Rightarrow> 'w \<Rightarrow> string result" where
  "abs_path mc p w =
     (if is_abs p then Inr (clean p)
      else case mc_getwd mc w of Inl e \<Rightarrow> Inl e | Inr wd \<Rightarrow> Inr (path_join [wd, p]))"

definition resolve_repo :: "'w machine \<Rightarrow> string \<Rightarrow> 'w \<Rightarrow> string result" where
  "resolve_repo mc flag w =
     (case (if flag = [] then mc_getwd mc w else Inr flag) of
        Inl e \<Rightarrow> Inl e
      | Inr dir \<Rightarrow> (case abs_path mc dir w of
            Inl e \<Rightarrow> Inl e
          | Inr full \<Rightarrow>
              if mc_stat mc (path_join [full, ''.git'']) w \<noteq> None
              then Inl (Errorf ''%s is not the root of a git repository (no .git found)'' [FStr full])
              else Inr full))"

definition git_apply :: "'w machine \<Rightarrow> string \<Rightarrow> string \<Rightarrow> 'w \<Rightarrow> 'w \<times> go_err option" where
  "git_apply mc repo patch w =
     (case mc_git_apply mc repo patch w of
        (w', out, Some e) \<Rightarrow> (w', Some (Errorf (''git apply: %v'' @ nl @ ''%s'') [FV e, FStr out]))
      | (w', out, None) \<Rightarrow> (w', None))"

subsection \<open>Watching a job\<close>

text \<open>
  The interrupts that arrive between two polls: the first of all asks the server to cancel, the second ends the
  program.  The result tells how many there were so far and whether the program has ended.
\<close>

fun interrupts :: "'w http_client \<Rightarrow> string \<Rightarrow> nat \<Rightarrow> nat \<Rightarrow> 'w tty \<Rightarrow> 'w tty \<times> nat \<times> bool" where
  "interrupts c k seen 0 t = (t, seen, False)"
| "interrupts c k seen (Suc n) t =
     (if seen = 0 then
        (case on_world (client_cancel c k) (say (nl @ ''cancelling the job (Ctrl-C again to stop watching)...'') t) of
           (t1, Some e) \<Rightarrow> interrupts c k 1 n (say_error ''cancel request failed:'' e t1)
         | (t1, None) \<Rightarrow> interrupts c k 1 n t1)
      else (say ''no longer watching; the server will finish cancelling'' t, Suc seen, True))"

definition terminal_status :: "string \<Rightarrow> bool" where
  "terminal_status s = (s \<in> {''completed'', ''failed'', ''cancelled''})"

definition show_events :: "(time \<Rightarrow> string) \<Rightarrow> event list \<Rightarrow> 'w tty \<Rightarrow> 'w tty" where
  "show_events clk evs t = fold say (filter (\<lambda>l. l \<noteq> []) (map (render_event clk) evs)) t"

datatype watch_end = Ended client_job | Watch_Failed go_err | Left_Watching

text \<open>
  The loop of \<open>watch\<close> may run for ever; \<open>sigs\<close> is its fuel and gives for each poll the interrupts that arrive before
  it, and \<open>None\<close> means that the watching goes on after them.
\<close>

fun watch ::
    "'w machine \<Rightarrow> 'w http_client \<Rightarrow> string \<Rightarrow> nat \<Rightarrow> nat \<Rightarrow> nat list \<Rightarrow> 'w tty \<Rightarrow> ('w tty \<times> watch_end) option" where
  "watch mc c k seen ints [] t = None"
| "watch mc c k seen ints (n # sigs) t =
     (case interrupts c k ints n t of
        (t0, ints', True) \<Rightarrow> Some (t0, Left_Watching)
      | (t0, ints', False) \<Rightarrow>
          (case on_world (client_events c k seen) t0 of
             (t1, Inl e) \<Rightarrow> Some (t1, Watch_Failed e)
           | (t1, Inr evs) \<Rightarrow>
               (case on_world (client_get c k) (show_events (mc_clock mc) evs t1) of
                  (t2, Inl e) \<Rightarrow> Some (t2, Watch_Failed e)
                | (t2, Inr j) \<Rightarrow>
                    if terminal_status (cj_status j) then Some (t2, Ended j)
                    else watch mc c k (seen + length evs) ints' sigs t2)))"

subsection \<open>The subcommands\<close>

definition usage_text :: string where
  "usage_text = join_with nl
     [''rojo '' @ em_dash @ '' run AI coding tasks against a local repository'',
      [],
      ''Usage:'',
      ''  rojo run [-repo DIR] [-apply] '' @ [CHR 0x22] @ ''task description'' @ [CHR 0x22],
      ''  rojo list [-limit N]'',
      ''  rojo get JOB_ID'',
      ''  rojo events JOB_ID'',
      ''  rojo diff JOB_ID'',
      ''  rojo cancel JOB_ID'',
      [],
      ''Global flags (before the subcommand):'',
      ''  -server URL   API address        (default $ROJO_SERVER or http://127.0.0.1:8080)'',
      ''  -token TOKEN  bearer token       (default $ROJO_AUTH_TOKEN)'',
      [],
      ''run flags:'',
      ''  -repo DIR     repository to work on (default: the current directory)'',
      ''  -apply        apply the resulting patch to the repository when the job completes'',
      [],
      ''The patch is written to stdout; progress goes to stderr. That split is what'',
      ''makes  rojo run '' @ [CHR 0x22] @ ''fix X'' @ [CHR 0x22] @ '' > fix.patch  work while still showing progress.'',
      [],
      ''Exit codes: 0 completed, 1 failed or error, 2 cancelled.'']"

text \<open>What a run does with the patch: apply it, or print it; it may end the command with an exit code.\<close>

definition deliver_patch ::
    "'w machine \<Rightarrow> 'w http_client \<Rightarrow> bool \<Rightarrow> string \<Rightarrow> string \<Rightarrow> client_job \<Rightarrow> 'w tty \<Rightarrow> 'w tty \<times> int option" where
  "deliver_patch mc c apply repo k final t =
     (case on_world (client_diff c k) t of
        (t1, Inl e) \<Rightarrow> (say_error ''error:'' e t1, None)
      | (t1, Inr patch) \<Rightarrow>
          if patch = [] then (t1, None)
          else if apply \<and> cj_status final = ''completed'' then
            (case on_world (git_apply mc repo patch) t1 of
               (t2, Some e) \<Rightarrow> (put_out patch (say_error ''error applying patch:'' e t2), Some 1)
             | (t2, None) \<Rightarrow> (say (''patch applied to '' @ repo) t2, None))
          else (put_out patch t1, None))"

definition exit_code_of :: "string \<Rightarrow> int" where
  "exit_code_of st = (if st = ''completed'' then 0 else if st = ''cancelled'' then 2 else 1)"

definition run_job ::
    "'w machine \<Rightarrow> 'w http_client \<Rightarrow> nat list \<Rightarrow> bool \<Rightarrow> string \<Rightarrow> string \<Rightarrow> 'w tty \<Rightarrow> ('w tty \<times> int) option" where
  "run_job mc c sigs apply t_text repo t =
     (case on_world (client_create c t_text repo) t of
        (t1, Inl e) \<Rightarrow> Some (say_error ''error:'' e t1, 1)
      | (t1, Inr j) \<Rightarrow>
          (case watch mc c (cj_id j) 0 0 sigs (say (''job '' @ cj_id j @ '' created for '' @ repo) t1) of
             None \<Rightarrow> None
           | Some (t2, Left_Watching) \<Rightarrow> Some (t2, 2)
           | Some (t2, Watch_Failed e) \<Rightarrow> Some (say_error ''error:'' e t2, 1)
           | Some (t2, Ended final) \<Rightarrow>
               (case deliver_patch mc c apply repo (cj_id j) final t2 of
                  (t3, Some code) \<Rightarrow> Some (t3, code)
                | (t3, None) \<Rightarrow> Some (t3, exit_code_of (cj_status final)))))"

definition cmd_run ::
    "'w machine \<Rightarrow> 'w http_client \<Rightarrow> nat list \<Rightarrow> string list \<Rightarrow> 'w tty \<Rightarrow> ('w tty \<times> int) option" where
  "cmd_run mc c sigs args t =
     (case parse_flags (mc_int mc) [(''repo'', String_Flag), (''apply'', Bool_Flag)] [] args of
        None \<Rightarrow> Some (t, 1)
      | Some (vals, rest) \<Rightarrow>
          let t_text = trim_space (join_with '' '' rest) in
          if t_text = []
          then Some (say (''run needs a task, e.g.  rojo run '' @ [CHR 0x22] @ ''add a retry to the fetcher'' @ [CHR 0x22]) t, 1)
          else case resolve_repo mc (flag_value vals ''repo'' []) (tm_world t) of
            Inl e \<Rightarrow> Some (say_error ''error:'' e t, 1)
          | Inr repo \<Rightarrow> run_job mc c sigs (flag_true (flag_value vals ''apply'' ''false'')) t_text repo t)"

definition pad_right :: "nat \<Rightarrow> string \<Rightarrow> string" where
  "pad_right n s = s @ replicate (n - rune_count s) (CHR '' '')"

definition list_line :: "'w machine \<Rightarrow> client_job \<Rightarrow> string" where
  "list_line mc j =
     cj_id j @ ''  '' @ pad_right 12 (cj_status j) @ ''  '' @ mc_date mc (cj_created_at j) @ ''  '' @
     one_line (cj_task j) 60 @ nl"

definition cmd_list :: "'w machine \<Rightarrow> 'w http_client \<Rightarrow> string list \<Rightarrow> 'w tty \<Rightarrow> 'w tty \<times> int" where
  "cmd_list mc c args t =
     (case parse_flags (mc_int mc) [(''limit'', Int_Flag)] [] args of
        None \<Rightarrow> (t, 1)
      | Some (vals, rest) \<Rightarrow>
          let limit = (case aget vals ''limit'' of None \<Rightarrow> 20 | Some v \<Rightarrow> the (mc_int mc v)) in
          (case on_world (client_list c limit) t of
             (t1, Inl e) \<Rightarrow> (say_error ''error:'' e t1, 1)
           | (t1, Inr (js, cnt)) \<Rightarrow>
               if js = [] then (put_out (''no jobs yet'' @ nl) t1, 0)
               else let t2 = put_out (concat (map (list_line mc) js)) t1; n = show_int (int (length js)) in
                 (if cnt \<noteq> [] \<and> cnt \<noteq> n
                  then put_out (sprintf ''(%d of %s jobs; -limit to see more)'' [n, cnt] @ nl) t2 else t2, 0)))"

definition one_id :: "string list \<Rightarrow> string \<Rightarrow> 'w tty \<Rightarrow> 'w tty \<times> string option" where
  "one_id args cmd t =
     (case args of
        [k] \<Rightarrow> if trim_space k = [] then (say (sprintf ''usage: rojo %s JOB_ID'' [cmd]) t, None) else (t, Some k)
      | _ \<Rightarrow> (say (sprintf ''usage: rojo %s JOB_ID'' [cmd]) t, None))"

definition cmd_get :: "'w machine \<Rightarrow> 'w http_client \<Rightarrow> string list \<Rightarrow> 'w tty \<Rightarrow> 'w tty \<times> int" where
  "cmd_get mc c args t =
     (case one_id args ''get'' t of
        (t0, None) \<Rightarrow> (t0, 1)
      | (t0, Some k) \<Rightarrow>
          (case on_world (client_get c k) t0 of
             (t1, Inl e) \<Rightarrow> (say_error ''error:'' e t1, 1)
           | (t1, Inr j) \<Rightarrow>
               (put_out (''id:       '' @ cj_id j @ nl @ ''status:   '' @ cj_status j @ nl @
                  ''repo:     '' @ cj_repo_path j @ nl @ ''task:     '' @ cj_task j @ nl @
                  ''created:  '' @ mc_rfc3339 mc (cj_created_at j) @ nl @
                  ''updated:  '' @ mc_rfc3339 mc (cj_updated_at j) @ nl) t1, 0)))"

definition cmd_events :: "'w machine \<Rightarrow> 'w http_client \<Rightarrow> string list \<Rightarrow> 'w tty \<Rightarrow> 'w tty \<times> int" where
  "cmd_events mc c args t =
     (case one_id args ''events'' t of
        (t0, None) \<Rightarrow> (t0, 1)
      | (t0, Some k) \<Rightarrow>
          (case on_world (client_events c k 0) t0 of
             (t1, Inl e) \<Rightarrow> (say_error ''error:'' e t1, 1)
           | (t1, Inr evs) \<Rightarrow>
               (fold (\<lambda>l. put_out (l @ nl)) (filter (\<lambda>l. l \<noteq> []) (map (render_event (mc_clock mc)) evs)) t1, 0)))"

definition cmd_diff :: "'w machine \<Rightarrow> 'w http_client \<Rightarrow> string list \<Rightarrow> 'w tty \<Rightarrow> 'w tty \<times> int" where
  "cmd_diff mc c args t =
     (case one_id args ''diff'' t of
        (t0, None) \<Rightarrow> (t0, 1)
      | (t0, Some k) \<Rightarrow>
          (case on_world (client_diff c k) t0 of
             (t1, Inl e) \<Rightarrow> (say_error ''error:'' e t1, 1)
           | (t1, Inr patch) \<Rightarrow>
               if patch = []
               then (say ''no patch for this job (it may still be running, or produced no changes)'' t1, 1)
               else (put_out patch t1, 0)))"

definition cmd_cancel :: "'w machine \<Rightarrow> 'w http_client \<Rightarrow> string list \<Rightarrow> 'w tty \<Rightarrow> 'w tty \<times> int" where
  "cmd_cancel mc c args t =
     (case one_id args ''cancel'' t of
        (t0, None) \<Rightarrow> (t0, 1)
      | (t0, Some k) \<Rightarrow>
          (case on_world (client_cancel c k) t0 of
             (t1, Some e) \<Rightarrow> (say_error ''error:'' e t1, 1)
           | (t1, None) \<Rightarrow> (put_out (''cancel requested for '' @ k @ nl) t1, 0)))"

definition default_server :: string where
  "default_server = ''http://127.0.0.1:8080''"

definition trim_right_slashes :: "string \<Rightarrow> string" where
  "trim_right_slashes s = rev (dropWhile (\<lambda>c. c = CHR ''/'') (rev s))"

definition new_client :: "'w machine \<Rightarrow> string \<Rightarrow> string \<Rightarrow> 'w http_client" where
  "new_client mc b tok = \<lparr>hc_base = b, hc_token = tok, hc_transport = mc_transport mc, hc_wire = mc_wire mc\<rparr>"

definition dispatch ::
    "'w machine \<Rightarrow> 'w http_client \<Rightarrow> nat list \<Rightarrow> string \<Rightarrow> string list \<Rightarrow> 'w tty \<Rightarrow> ('w tty \<times> int) option" where
  "dispatch mc c sigs cmd args t =
     (if cmd = ''run'' then cmd_run mc c sigs args t
      else if cmd = ''list'' then Some (cmd_list mc c args t)
      else if cmd = ''get'' then Some (cmd_get mc c args t)
      else if cmd = ''events'' then Some (cmd_events mc c args t)
      else if cmd = ''diff'' then Some (cmd_diff mc c args t)
      else if cmd = ''cancel'' then Some (cmd_cancel mc c args t)
      else if cmd \<in> {''help'', ''-h'', ''--help''} then Some (put_out (usage_text @ nl) t, 0)
      else Some (say (''unknown command '' @ quote cmd @ nl @ nl @ usage_text) t, 1))"

definition run_cli :: "'w machine \<Rightarrow> nat list \<Rightarrow> string list \<Rightarrow> 'w tty \<Rightarrow> ('w tty \<times> int) option" where
  "run_cli mc sigs args t =
     (case parse_flags (mc_int mc) [(''server'', String_Flag), (''token'', String_Flag)] [] args of
        None \<Rightarrow> Some (t, 1)
      | Some (vals, []) \<Rightarrow> Some (say usage_text t, 1)
      | Some (vals, cmd # rest) \<Rightarrow>
          dispatch mc
            (new_client mc (trim_right_slashes (flag_value vals ''server'' (env_or (mc_env mc) ''ROJO_SERVER'' default_server)))
              (flag_value vals ''token'' (getenv (mc_env mc) ''ROJO_AUTH_TOKEN'')))
            sigs cmd rest t)"

end
