(* ===== verification/Rojo_Cli_Props.thy ===== *)
theory Rojo_Cli_Props
  imports Rojo_Cli
begin

text \<open>
  What the command line shows and returns: the events of a watched job, the exit code and what happens to the patch.
\<close>

subsection \<open>The events a watcher sees\<close>

text \<open>
  A server that keeps the log of a job: the log only grows, whoever talks to the server, and a request for
  the events from some index on gets the end of it.
\<close>

definition feeds :: "'w http_client \<Rightarrow> string \<Rightarrow> ('w \<Rightarrow> event list) \<Rightarrow> bool" where
  "feeds c k hist \<longleftrightarrow>
     (\<forall>n w w' r. client_events c k n w = (w', r) \<longrightarrow>
        prefix (hist w) (hist w') \<and> (\<forall>evs. r = Inr evs \<longrightarrow> evs = drop n (hist w'))) \<and>
     (\<forall>w w' r. client_get c k w = (w', r) \<longrightarrow> prefix (hist w) (hist w'))"

definition event_lines :: "(time \<Rightarrow> string) \<Rightarrow> event list \<Rightarrow> string" where
  "event_lines clk evs = concat (map (\<lambda>l. l @ nl) (filter (\<lambda>l. l \<noteq> []) (map (render_event clk) evs)))"

lemma event_lines_append [simp]: "event_lines clk (xs @ ys) = event_lines clk xs @ event_lines clk ys"
  by (simp add: event_lines_def)

lemma fold_say: "tm_err (fold say ls t) = tm_err t @ concat (map (\<lambda>l. l @ nl) ls) \<and>
    tm_world (fold say ls t) = tm_world t \<and> tm_out (fold say ls t) = tm_out t"
  by (induction ls arbitrary: t) (simp_all add: say_def)

lemma show_events_simps [simp]:
  "tm_err (show_events clk evs t) = tm_err t @ event_lines clk evs"
  "tm_world (show_events clk evs t) = tm_world t" "tm_out (show_events clk evs t) = tm_out t"
  by (simp_all add: show_events_def event_lines_def fold_say)

lemma on_world_simps:
  "on_world f t = (t', a) \<longleftrightarrow> f (tm_world t) = (tm_world t', a) \<and> tm_err t' = tm_err t \<and> tm_out t' = tm_out t"
  by (cases t; cases t') (auto simp: on_world_def split: prod.splits)

lemma prefix_take: "prefix xs ys \<Longrightarrow> n \<le> length xs \<Longrightarrow> take n ys = take n xs"
  by (auto simp: prefix_def)

lemma one_poll:
  assumes f: "feeds c k hist" and e: "on_world (client_events c k seen) t = (t1, r1)"
    and g: "on_world (client_get c k) (show_events clk evs t1) = (t2, r2)"
    and n: "seen \<le> length (hist (tm_world t))" and out: "tm_err t = start @ event_lines clk (take seen (hist (tm_world t)))"
  shows "seen \<le> length (hist (tm_world t1)) \<and> tm_err t1 = start @ event_lines clk (take seen (hist (tm_world t1)))"
    and "r1 = Inr evs \<Longrightarrow> seen + length evs \<le> length (hist (tm_world t2)) \<and>
      tm_err t2 = start @ event_lines clk (take (seen + length evs) (hist (tm_world t2)))"
proof -
  have e': "client_events c k seen (tm_world t) = (tm_world t1, r1)" "tm_err t1 = tm_err t"
    using e by (simp_all add: on_world_simps)
  have p1: "prefix (hist (tm_world t)) (hist (tm_world t1))" and evs: "r1 = Inr evs \<Longrightarrow> evs = drop seen (hist (tm_world t1))"
    using f e'(1) unfolding feeds_def by blast+
  show one: "seen \<le> length (hist (tm_world t1)) \<and> tm_err t1 = start @ event_lines clk (take seen (hist (tm_world t1)))"
    using n out p1 e'(2) prefix_length_le [OF p1] prefix_take [OF p1 n] by simp
  assume r1: "r1 = Inr evs"
  have g': "client_get c k (tm_world t1) = (tm_world t2, r2)" "tm_err t2 = tm_err t1 @ event_lines clk evs"
    using g by (simp_all add: on_world_simps)
  have p2: "prefix (hist (tm_world t1)) (hist (tm_world t2))" using f g'(1) unfolding feeds_def by blast
  have len: "seen + length evs = length (hist (tm_world t1))" using evs [OF r1] one by simp
  have "take (seen + length evs) (hist (tm_world t2)) = hist (tm_world t1)" using prefix_take [OF p2] len by simp
  moreover have "event_lines clk (take seen (hist (tm_world t1))) @ event_lines clk evs = event_lines clk (hist (tm_world t1))"
    using evs [OF r1] by (metis append_take_drop_id event_lines_append)
  ultimately show "seen + length evs \<le> length (hist (tm_world t2)) \<and>
      tm_err t2 = start @ event_lines clk (take (seen + length evs) (hist (tm_world t2)))"
    using len one g'(2) prefix_length_le [OF p2] by simp
qed

lemma watch_shows:
  assumes "feeds c k hist" and "watch mc c k seen ints sigs t = Some (t', r)" and "set sigs \<subseteq> {0}"
    and "seen \<le> length (hist (tm_world t))"
    and "tm_err t = start @ event_lines (mc_clock mc) (take seen (hist (tm_world t)))"
  shows "\<exists>n \<le> length (hist (tm_world t')).
    tm_err t' = start @ event_lines (mc_clock mc) (take n (hist (tm_world t')))"
  using assms
proof (induction mc c k seen ints sigs t rule: watch.induct)
  case (2 mc c k seen ints n sigs t)
  note f = "2.prems"(1)
  have n: "n = 0" and sigs: "set sigs \<subseteq> {0}" using "2.prems"(3) by auto
  obtain t1 r1 where e: "on_world (client_events c k seen) t = (t1, r1)" by (cases "on_world (client_events c k seen) t")
  show ?case
  proof (cases r1)
    case (Inl x)
    with "2.prems"(2) n e have "t' = t1" by simp
    moreover obtain t2 r2 where "on_world (client_get c k) (show_events (mc_clock mc) [] t1) = (t2, r2)"
      by (cases "on_world (client_get c k) (show_events (mc_clock mc) [] t1)")
    ultimately show ?thesis using one_poll(1) [OF f e _ "2.prems"(4,5)] by blast
  next
    case (Inr evs)
    obtain t2 r2 where g: "on_world (client_get c k) (show_events (mc_clock mc) evs t1) = (t2, r2)"
      by (cases "on_world (client_get c k) (show_events (mc_clock mc) evs t1)")
    note after = one_poll(2) [OF f e g "2.prems"(4,5) Inr]
    show ?thesis
    proof (cases "\<exists>j. r2 = Inr j \<and> \<not> terminal_status (cj_status j)")
      case True
      then obtain j where j: "r2 = Inr j" "\<not> terminal_status (cj_status j)" by blast
      with "2.prems"(2) n e g Inr have "watch mc c k (seen + length evs) ints sigs t2 = Some (t', r)" by simp
      with "2.IH" [of t "(ints, False)" ints False t1 "Inr evs" evs t2 "Inr j" j] f sigs after n e g Inr j
      show ?thesis by simp
    next
      case False
      with "2.prems"(2) n e g Inr have "t' = t2" by (auto split: sum.splits if_splits)
      with after show ?thesis by blast
    qed
  qed
qed simp

text \<open>
  Who watches a job sees its history told once, in order and without a gap.  When nobody interrupts, what
  the command has written on its error output is the lines of a prefix of the job's log, however the polls fell.
\<close>

lemma watch_tells_each_event_once:
  assumes "feeds c k hist" and "watch mc c k 0 0 sigs t = Some (t', r)" and "set sigs \<subseteq> {0}"
  shows "\<exists>n \<le> length (hist (tm_world t')).
    tm_err t' = tm_err t @ event_lines (mc_clock mc) (take n (hist (tm_world t')))"
  using watch_shows [OF assms(1,2,3), of "tm_err t"] by (simp add: event_lines_def)

text \<open>
  A small server for the examples.  Its world counts the events it has; their log is \<open>A\<close>, the start of a step, and then
  \<open>B\<close>, the job's failure, which happens while the status is asked for.
\<close>

definition example_event :: "char \<Rightarrow> event" where
  "example_event ch =
     (if ch = CHR ''A''
      then \<lparr>ev_job_id = ''j'', ev_type = TypeStepStarted, ev_payload = [(''status'', JStr ''verifying'')], ev_created_at = 1\<rparr>
      else \<lparr>ev_job_id = ''j'', ev_type = TypeJobFailed, ev_payload = [(''error'', JStr ''checks failed'')], ev_created_at = 2\<rparr>)"

definition reply :: "string \<Rightarrow> http_response" where
  "reply b = \<lparr>hs_status = 200, hs_header = [], hs_body = b, hs_read_err = None\<rparr>"

definition example_wire :: "string \<Rightarrow> wire" where
  "example_wire st =
     \<lparr>wi_encode = (\<lambda>kvs. Inr []),
      wi_job = (\<lambda>r. Inr (no_job\<lparr>cj_id := ''j'', cj_status := st\<rparr>)), wi_jobs = (\<lambda>r. Inr []),
      wi_events = (\<lambda>r. Inr (map example_event (hs_body r))), wi_error = (\<lambda>b. None)\<rparr>"

definition racing_log :: "nat \<Rightarrow> event list" where
  "racing_log w = map example_event (if w = 0 then ''A'' else ''AB'')"

definition racing_transport :: "nat transport" where
  "racing_transport =
     \<lparr>tp_build = (\<lambda>m u. None),
      tp_do = (\<lambda>q w. let p = ''/api/v1/jobs/j/events?since='' in
        if has_prefix (hr_url q) p
        then (w, Inr (reply (drop (read_nat (drop (length p) (hr_url q))) (if w = 0 then ''A'' else ''AB''))))
        else (1, Inr (reply [])))\<rparr>"

definition racing_client :: "nat http_client" where
  "racing_client = \<lparr>hc_base = [], hc_token = [], hc_transport = racing_transport, hc_wire = example_wire ''failed''\<rparr>"

definition idle_tty :: "nat tty" where
  "idle_tty = \<lparr>tm_world = 0, tm_out = [], tm_err = []\<rparr>"

lemma racing_events: "client_events racing_client ''j'' n w = (w, Inr (drop n (racing_log w)))"
proof -
  have p: "''/api/v1/jobs'' @ ''/'' @ ''j'' @ ''/events?since='' @ x = ''/api/v1/jobs/j/events?since='' @ x" for x by simp
  show ?thesis
    unfolding client_events_def call_api_def do_request_def send_request_def jobs_path_def
    by (simp add: racing_client_def racing_transport_def p Let_def reply_def decode_def example_wire_def
      racing_log_def drop_map has_prefix_append [of "''/api/v1/jobs/j/events?since=''", simplified] del: drop_append)
qed

lemma racing_get: "client_get racing_client ''j'' w = (1, Inr (no_job\<lparr>cj_id := ''j'', cj_status := ''failed''\<rparr>))"
  unfolding client_get_def call_api_def do_request_def send_request_def jobs_path_def
  by (simp add: racing_client_def racing_transport_def Let_def reply_def decode_def example_wire_def has_prefix_def)

lemma racing_feeds: "feeds racing_client ''j'' racing_log"
  by (auto simp: feeds_def racing_events racing_get racing_log_def)

lemma racing_watch:
  "\<exists>t'. watch mc racing_client ''j'' 0 0 [0] idle_tty =
     Some (t', Ended (no_job\<lparr>cj_id := ''j'', cj_status := ''failed''\<rparr>)) \<and>
     tm_world t' = 1 \<and> tm_err t' = event_lines (mc_clock mc) (racing_log 0)"
  by (simp add: on_world_def racing_events racing_get terminal_status_def idle_tty_def)

definition no_machine :: "nat machine" where
  "no_machine =
     \<lparr>mc_env = [], mc_getwd = (\<lambda>w. Inr ''/r''), mc_stat = (\<lambda>p w. None), mc_git_apply = (\<lambda>r p w. (w, [], None)),
      mc_transport = racing_transport, mc_wire = example_wire ''failed'', mc_int = atoi,
      mc_clock = (\<lambda>t. []), mc_date = (\<lambda>t. []), mc_rfc3339 = (\<lambda>t. [])\<rparr>"

text \<open>
  The end of the story can be missing.  The loop reads the events before it reads the status, so a job
  that ends between the two requests is reported as failed without the line that says why, although
  the server has the event.
\<close>

lemma watch_misses_the_end:
  "feeds racing_client ''j'' racing_log \<and>
   (\<exists>t' j. watch mc racing_client ''j'' 0 0 [0] idle_tty = Some (t', Ended j) \<and> cj_status j = ''failed'' \<and>
      map ev_type (racing_log (tm_world t')) = [TypeStepStarted, TypeJobFailed] \<and>
      tm_err t' = event_lines (mc_clock mc) (take 1 (racing_log (tm_world t'))))"
proof -
  obtain t' where "watch mc racing_client ''j'' 0 0 [0] idle_tty =
      Some (t', Ended (no_job\<lparr>cj_id := ''j'', cj_status := ''failed''\<rparr>))"
    and t: "tm_world t' = 1" "tm_err t' = event_lines (mc_clock mc) (racing_log 0)"
    using racing_watch by blast
  moreover have "map ev_type (racing_log 1) = [TypeStepStarted, TypeJobFailed]" "take 1 (racing_log 1) = racing_log 0"
    by (simp_all add: racing_log_def example_event_def)
  ultimately show ?thesis using racing_feeds by fastforce
qed

subsection \<open>The patch and the exit code\<close>

lemma watch_ignores_git: "watch (mc\<lparr>mc_git_apply := g\<rparr>) c k seen ints sigs t = watch mc c k seen ints sigs t"
proof (induction mc c k seen ints sigs t rule: watch.induct)
  case (2 mc c k seen ints n sigs t)
  obtain t0 i b where i: "interrupts c k ints n t = (t0, i, b)" by (metis prod_cases3)
  obtain t1 r1 where e: "on_world (client_events c k seen) t0 = (t1, r1)" by (cases "on_world (client_events c k seen) t0")
  show ?case
  proof (cases r1)
    case (Inr evs)
    obtain t2 r2 where j: "on_world (client_get c k) (show_events (mc_clock mc) evs t1) = (t2, r2)"
      by (cases "on_world (client_get c k) (show_events (mc_clock mc) evs t1)")
    show ?thesis
    proof (cases r2)
      fix j assume "r2 = Inr j"
      with 2 [OF i [symmetric] refl _ e [symmetric] Inr _ this] i e Inr \<open>on_world _ _ = (t2, r2)\<close> show ?thesis
        by (cases b) auto
    qed (use i e Inr \<open>on_world _ _ = (t2, r2)\<close> in \<open>cases b; simp\<close>)
  qed (use i e in \<open>cases b; simp\<close>)
qed simp

lemma deliver_ignores_git:
  "(apply \<and> cj_status j = ''completed'') = False \<Longrightarrow>
   deliver_patch (mc\<lparr>mc_git_apply := g\<rparr>) c apply repo k j t = deliver_patch mc c apply repo k j t"
  by (simp only: deliver_patch_def if_False)

text \<open>
  C35: the repository of the user is left alone unless asked for.  Without \<open>-apply\<close> a run writes the same, ends with
  the same code and leaves the same world whatever \<open>git apply\<close> would do.
\<close>

theorem apply_only_when_asked:
  "run_job (mc\<lparr>mc_git_apply := g\<rparr>) c sigs False what repo t = run_job mc c sigs False what repo t"
  by (simp only: run_job_def watch_ignores_git deliver_ignores_git simp_thms)

lemma exit_code_zero: "exit_code_of st = 0 \<longleftrightarrow> st = ''completed''"
  by (simp add: exit_code_of_def)

lemma watch_ended:
  assumes "watch mc c k seen ints sigs t = Some (t', Ended j)"
  shows "\<exists>w w'. client_get c k w = (w', Inr j)"
  using assms
proof (induction mc c k seen ints sigs t rule: watch.induct)
  case (2 mc c k seen ints n sigs t)
  obtain t0 i b where i: "interrupts c k ints n t = (t0, i, b)" by (metis prod_cases3)
  obtain t1 r1 where e: "on_world (client_events c k seen) t0 = (t1, r1)" by (cases "on_world (client_events c k seen) t0")
  from "2.prems" i e obtain evs where r1: "r1 = Inr evs" and b: "\<not> b" by (cases b; cases r1) auto
  obtain t2 r2 where g: "on_world (client_get c k) (show_events (mc_clock mc) evs t1) = (t2, r2)"
    by (cases "on_world (client_get c k) (show_events (mc_clock mc) evs t1)")
  from "2.prems" i e r1 b g obtain j' where r2: "r2 = Inr j'" by (cases r2) auto
  show ?case
  proof (cases "terminal_status (cj_status j')")
    case True
    with "2.prems" i e r1 b g r2 show ?thesis by (auto simp: on_world_simps)
  next
    case False
    with "2.prems" i e r1 b g r2 have "watch mc c k (seen + length evs) i sigs t2 = Some (t', Ended j)" by simp
    from "2.IH" [OF i [symmetric] refl _ e [symmetric] r1 g [symmetric] r2 False this] b show ?thesis by simp
  qed
qed simp

text \<open>
  C26: the exit code 0 is a promise that is kept.  A run that ends with it was told by the server, about the job it submitted,
  that the job is completed.
\<close>

theorem exit_zero_means_completed:
  assumes "run_job mc c sigs apply what repo t = Some (t', 0)"
  shows "\<exists>j j' w w1 w2. client_create c what repo (tm_world t) = (w, Inr j) \<and>
    client_get c (cj_id j) w1 = (w2, Inr j') \<and> cj_status j' = ''completed''"
proof -
  obtain t1 r1 where cr: "on_world (client_create c what repo) t = (t1, r1)" by (cases "on_world (client_create c what repo) t")
  with assms obtain j where r1: "r1 = Inr j" by (cases r1) (auto simp: run_job_def)
  let ?t = "say (''job '' @ cj_id j @ '' created for '' @ repo) t1"
  from assms cr r1 obtain t2 e where w: "watch mc c (cj_id j) 0 0 sigs ?t = Some (t2, e)"
    by (cases "watch mc c (cj_id j) 0 0 sigs ?t") (auto simp: run_job_def)
  with assms cr r1 obtain j' where e: "e = Ended j'" by (cases e) (auto simp: run_job_def)
  obtain t3 code where d: "deliver_patch mc c apply repo (cj_id j) j' t2 = (t3, code)"
    by (cases "deliver_patch mc c apply repo (cj_id j) j' t2")
  have "code = None \<or> code = Some 1"
    using d by (auto simp: deliver_patch_def split: prod.splits sum.splits option.splits if_splits)
  with assms cr r1 w e d have "cj_status j' = ''completed''"
    by (auto simp: run_job_def exit_code_zero)
  moreover have "\<exists>w1 w2. client_get c (cj_id j) w1 = (w2, Inr j')" using w e by (auto dest: watch_ended)
  ultimately show ?thesis using cr r1 by (auto simp: on_world_simps)
qed

text \<open>A server whose jobs are completed at once and whose patches cannot be read.\<close>

definition losing_client :: "nat http_client" where
  "losing_client =
     \<lparr>hc_base = [], hc_token = [],
      hc_transport = \<lparr>tp_build = (\<lambda>m u. None),
        tp_do = (\<lambda>q w. (w, Inr (if has_suffix (hr_url q) ''/diff'' then (reply ''disk'')\<lparr>hs_status := 500\<rparr> else reply [])))\<rparr>,
      hc_wire = example_wire ''completed''\<rparr>"

lemma losing_calls:
  "client_create losing_client ''t'' ''/r'' w = (w, Inr (no_job\<lparr>cj_id := ''j'', cj_status := ''completed''\<rparr>))"
  "client_get losing_client ''j'' w = (w, Inr (no_job\<lparr>cj_id := ''j'', cj_status := ''completed''\<rparr>))"
  "client_events losing_client ''j'' 0 w = (w, Inr [])"
  "\<exists>e. client_diff losing_client ''j'' w = (w, Inl e)"
  unfolding client_create_def client_get_def client_events_def client_diff_def call_api_def do_request_def
    send_request_def jobs_path_def
  by (simp_all add: losing_client_def decode_def reply_def example_wire_def patch_of_def has_suffix_def has_prefix_def
    show_nat.simps digit_def)

lemma losing_run:
  "\<exists>t'. run_job mc losing_client [0] apply ''t'' ''/r'' idle_tty = Some (t', 0) \<and> tm_out t' = []"
proof -
  obtain e where "client_diff losing_client ''j'' 0 = (0, Inl e)" using losing_calls(4) by blast
  then show ?thesis
    by (simp add: run_job_def on_world_def idle_tty_def losing_calls terminal_status_def show_events_def
      deliver_patch_def exit_code_of_def no_job_def say_def say_error_def)
qed

theorem exit_zero_means_completed_witness:
  "\<exists>t' j j' w w1 w2. run_job no_machine losing_client [0] False ''t'' ''/r'' idle_tty = Some (t', 0) \<and>
    client_create losing_client ''t'' ''/r'' 0 = (w, Inr j) \<and>
    client_get losing_client (cj_id j) w1 = (w2, Inr j') \<and> cj_status j' = ''completed''"
proof -
  obtain t' where r: "run_job no_machine losing_client [0] False ''t'' ''/r'' idle_tty = Some (t', 0)"
    using losing_run by blast
  from exit_zero_means_completed [OF r] r show ?thesis by (auto simp: idle_tty_def)
qed

text \<open>
  The exit code 0 says nothing about the patch.  When the patch of a completed job cannot be fetched, the run
  ends with 0 and an empty output, and with \<open>-apply\<close> nothing was applied, although the usage text
  gives 1 for an error.
\<close>

lemma lost_patch_exits_zero:
  "\<exists>t'. run_job mc losing_client [0] apply ''t'' ''/r'' idle_tty = Some (t', 0) \<and> tm_out t' = []"
  by (rule losing_run)

text \<open>
  The branch for \<open>-h\<close> and \<open>--help\<close> is never reached by them.  The flag parser sees them first and fails, so the command ends
  with 1 and writes no usage text to its output.
\<close>

lemma help_flag_fails:
  "run_cli mc sigs [''--help''] t = Some (t, 1) \<and> run_cli mc sigs [''-h''] t = Some (t, 1) \<and>
   run_cli mc sigs [''help''] t = Some (put_out (usage_text @ nl) t, 0)"
  by (simp add: run_cli_def dispatch_def)

end
