(* ===== verification/Service.thy ===== *)
theory Service
  imports Api_Props Rojo_Cli_Props
begin

text \<open>
  The server as its clients meet it: the routes and the handler chain of \<open>cmd/api/main.go\<close>, served as a transport
  to the client of \<open>cmd/rojo\<close>.
\<close>

subsection \<open>Routes\<close>

datatype segment = Lit string | Wild string

datatype endpoint =
    To_Health | To_Create | To_List | To_Get | To_Cancel | To_Stream | To_History | To_Diff | To_Metrics

definition routes :: "(string \<times> segment list \<times> endpoint) list" where
  "routes =
     (let js = [Lit ''api'', Lit ''v1'', Lit ''jobs'']; j = js @ [Wild ''jobID''] in
      [(''GET'', [Lit ''healthz''], To_Health), (''POST'', js, To_Create), (''GET'', js, To_List), (''GET'', j, To_Get),
       (''POST'', j @ [Lit ''cancel''], To_Cancel), (''GET'', j @ [Lit ''stream''], To_Stream),
       (''GET'', j @ [Lit ''events''], To_History), (''GET'', j @ [Lit ''diff''], To_Diff),
       (''GET'', [Lit ''api'', Lit ''v1'', Lit ''metrics''], To_Metrics)])"

fun match_segments :: "segment list \<Rightarrow> string list \<Rightarrow> (string, string) amap option" where
  "match_segments [] [] = Some []"
| "match_segments (Lit l # ps) (s # ss) = (if l = s then match_segments ps ss else None)"
| "match_segments (Wild n # ps) (s # ss) = (if s = [] then None else map_option ((#) (n, s)) (match_segments ps ss))"
| "match_segments _ _ = None"

definition method_matches :: "string \<Rightarrow> string \<Rightarrow> bool" where
  "method_matches pattern meth = (meth = pattern \<or> pattern = ''GET'' \<and> meth = ''HEAD'')"

definition path_segments :: "string \<Rightarrow> string list" where
  "path_segments p = split_on (CHR ''/'') (drop 1 p)"

definition find_route :: "string \<Rightarrow> string \<Rightarrow> (endpoint \<times> (string, string) amap) option" where
  "find_route meth p =
     (case find (\<lambda>(m, pat, e). method_matches m meth \<and> match_segments pat (path_segments p) \<noteq> None) routes of
        None \<Rightarrow> None
      | Some (m, pat, e) \<Rightarrow> Some (e, the (match_segments pat (path_segments p))))"

text \<open>\<open>http.ServeMux\<close>: a path that is not clean is redirected, then the routes decide.\<close>

definition mux_path :: "string \<Rightarrow> string" where
  "mux_path p =
     (if p = [] then ''/''
      else let q = clean (if hd p = CHR ''/'' then p else CHR ''/'' # p) in
        if last p = CHR ''/'' \<and> q \<noteq> ''/'' then q @ ''/'' else q)"

record 'w service =
  se_api :: "'w api"
  se_token :: string
  se_stream :: "'w server handler"
  se_checks :: "(string, 'w health_check) amap"
  se_live :: "'w server \<Rightarrow> (string, json) amap"
  se_remote :: string
  se_base :: string
  se_encode :: "body \<Rightarrow> string"
  se_progress :: "'w server \<Rightarrow> 'w server"

definition endpoint_handler :: "'w service \<Rightarrow> endpoint \<Rightarrow> 'w server handler" where
  "endpoint_handler v e =
     (case e of
        To_Health \<Rightarrow> health_status (se_checks v) (Some (se_live v))
      | To_Create \<Rightarrow> create_job (se_api v)
      | To_List \<Rightarrow> list_jobs (se_api v)
      | To_Get \<Rightarrow> get_job (se_api v)
      | To_Cancel \<Rightarrow> cancel_job (se_api v)
      | To_Stream \<Rightarrow> se_stream v
      | To_History \<Rightarrow> event_history (se_api v)
      | To_Diff \<Rightarrow> job_diff (se_api v)
      | To_Metrics \<Rightarrow> metrics_report (Some (se_live v)))"

definition respond_text :: "int \<Rightarrow> string \<Rightarrow> writer \<times> 's \<Rightarrow> (writer \<times> 's) \<times> unit outcome" where
  "respond_text code msg =
     respond (\<lambda>w. write_body (Body_Text msg) (write_header code (set_header ''Content-Type'' ''text/plain; charset=utf-8'' w)))"

definition mux :: "'w service \<Rightarrow> string \<Rightarrow> 'w server handler" where
  "mux v meth r ws =
     (if mux_path (hq_path r) \<noteq> hq_path r
      then respond (\<lambda>w. write_header 301 (set_header ''Location'' (mux_path (hq_path r)) w)) ws
      else case find_route meth (hq_path r) of
        Some (e, vals) \<Rightarrow> endpoint_handler v e (r\<lparr>hq_values := vals\<rparr>) ws
      | None \<Rightarrow>
          if list_ex (\<lambda>(m, pat, e). match_segments pat (path_segments (hq_path r)) \<noteq> None) routes
          then respond_text 405 ''Method Not Allowed'' ws
          else respond_text 404 ''404 page not found'' ws)"

subsection \<open>The service as a transport\<close>

text \<open>The path and the query of a request line; nothing here is escaped.\<close>

definition parse_query :: "string \<Rightarrow> (string, string) amap" where
  "parse_query q =
     map (\<lambda>kv. case index_byte kv (CHR ''='') of None \<Rightarrow> (kv, []) | Some i \<Rightarrow> (take i kv, drop (i + 1) kv))
       (filter (\<lambda>kv. kv \<noteq> []) (split_on (CHR ''&'') q))"

definition split_target :: "string \<Rightarrow> string \<times> (string, string) amap" where
  "split_target t =
     (case index_byte t (CHR ''?'') of None \<Rightarrow> (t, []) | Some i \<Rightarrow> (take i t, parse_query (drop (i + 1) t)))"

definition received_request :: "'w service \<Rightarrow> http_request \<Rightarrow> request" where
  "received_request v q =
     (case split_target (drop (length (se_base v)) (hr_url q)) of
        (p, qs) \<Rightarrow>
          \<lparr>hq_path = p, hq_headers = hr_header q, hq_query = qs, hq_values = [], hq_remote = se_remote v,
           hq_body = (case hr_body q of None \<Rightarrow> [] | Some b \<Rightarrow> b)\<rparr>)"

definition response_of :: "(body \<Rightarrow> string) \<Rightarrow> writer \<Rightarrow> http_response" where
  "response_of enc w =
     \<lparr>hs_status = (case wr_status w of None \<Rightarrow> 200 | Some c \<Rightarrow> c), hs_header = wr_header w,
      hs_body = concat (map enc (wr_body w)), hs_read_err = None\<rparr>"

text \<open>
  Before a request is served the rest of the service may have moved on: \<open>se_progress\<close>.  A handler that
  aborts closes the connection.
\<close>

definition serve :: "'w service \<Rightarrow> http_request \<Rightarrow> 'w server \<Rightarrow> 'w server \<times> http_response result" where
  "serve v q s =
     (case handler_chain (se_api v) (se_token v) (mux v (hr_method q)) (received_request v q) (new_writer, se_progress v s) of
        ((w, s'), Return _) \<Rightarrow> (s', Inr (response_of (se_encode v) w))
      | ((w, s'), Panic p) \<Rightarrow> (s', Inl (Errorf ''EOF'' [])))"

definition client_of :: "'w service \<Rightarrow> wire \<Rightarrow> string \<Rightarrow> 'w server http_client" where
  "client_of v wi tok =
     \<lparr>hc_base = se_base v, hc_token = tok, hc_transport = \<lparr>tp_build = (\<lambda>m u. None), tp_do = serve v\<rparr>, hc_wire = wi\<rparr>"

text \<open>What the client makes of the JSON the server writes.\<close>

definition client_view :: "job \<Rightarrow> client_job" where
  "client_view j =
     \<lparr>cj_id = job_id j, cj_task = task j, cj_repo_path = repo_path j, cj_status = status_string (status j),
      cj_created_at = created_at j, cj_updated_at = updated_at j\<rparr>"

text \<open>
  What the two sides of the wire agree on: the events that were read back from a log, and so have been through JSON before,
  short error messages, and the jobs that are \<open>good\<close> (their strings are valid UTF-8).
\<close>

definition json_agrees :: "json_codec \<Rightarrow> (body \<Rightarrow> string) \<Rightarrow> wire \<Rightarrow> bool" where
  "json_agrees c enc wi \<longleftrightarrow>
     (\<forall>r evs. (\<forall>e \<in> set evs. \<exists>l. dec_event c l = Some e) \<longrightarrow> hs_body r = enc (Body_Events evs) \<longrightarrow>
        wi_events wi r = Inr evs) \<and>
     (\<forall>m. length m \<le> 100 \<longrightarrow> wi_error wi (take 65536 (enc (Body_Error m))) = Some m)"

definition jobs_agree :: "(job \<Rightarrow> bool) \<Rightarrow> (body \<Rightarrow> string) \<Rightarrow> wire \<Rightarrow> bool" where
  "jobs_agree good enc wi \<longleftrightarrow>
     (\<forall>r j. good j \<longrightarrow> hs_body r = enc (Body_Job j) \<longrightarrow> wi_job wi r = Inr (client_view j))"

subsection \<open>Through the chain\<close>

lemma limited_cases:
  assumes "hq_path r \<noteq> ''/healthz''"
  shows "\<exists>s'. sv_pb s' = sv_pb s \<and>
    (limited a nxt r (w, s) = ((write_json 429 (Body_Error ''rate limit exceeded'') w, s'), Return ()) \<or>
     limited a nxt r (w, s) = nxt r (w, s'))"
proof -
  let ?now = "read_world (ap_now a)"
  obtain s1 made where m: "(if aget (rl_buckets (sv_limiter s)) (client_key (sv_limiter s) r) = None then ?now s else (s, 0)) = (s1, made)"
    by (metis surj_pair)
  then have s1: "sv_pb s1 = sv_pb s" by (auto split: if_splits)
  obtain s2 swept where t2: "?now s1 = (s2, swept)" by (cases "?now s1")
  obtain s3 used where t3: "?now s2 = (s3, used)" by (cases "?now s2")
  obtain rl ok where ad: "admit made swept used (client_key (sv_limiter s) r) (sv_limiter s3) = (rl, ok)"
    by (cases "admit made swept used (client_key (sv_limiter s) r) (sv_limiter s3)")
  have "sv_pb (s3\<lparr>sv_limiter := rl\<rparr>) = sv_pb s" using s1 t2 t3 by simp
  moreover have "limited a nxt r (w, s) =
      (if \<not> ok then fail_json 429 ''rate limit exceeded'' (w, s3\<lparr>sv_limiter := rl\<rparr>) else nxt r (w, s3\<lparr>sv_limiter := rl\<rparr>))"
    using assms by (simp add: limited_def rate_limit_def health_path_def Let_def m t2 t3 ad)
  ultimately show ?thesis by (intro exI [of _ "s3\<lparr>sv_limiter := rl\<rparr>"]) (cases ok; simp add: respond_defs)
qed

lemma logged_form:
  "\<exists>s1 w1. sv_pb s1 = sv_pb s \<and> wr_status w1 = wr_status w \<and> wr_body w1 = wr_body w \<and>
     logger_middleware (read_world f) nxt r (w, s) =
       (case nxt r (w1, s1) of ((w', s'), oc) \<Rightarrow> ((w'\<lparr>wr_recorder := wr_recorder w\<rparr>, s'), oc))"
proof -
  obtain s1 bs where f: "read_world f s = (s1, bs)" by (cases "read_world f s")
  let ?w = "(set_header ''X-Request-ID'' (hex_encode bs) w)\<lparr>wr_recorder := Some (200, False)\<rparr>"
  have "sv_pb s1 = sv_pb s" "wr_status ?w = wr_status w" "wr_body ?w = wr_body w" using f by (simp_all add: set_header_def)
  then show ?thesis using f by (intro exI [of _ s1] exI [of _ ?w]) (simp add: logger_middleware_def)
qed

text \<open>
  A request whose handler answers with JSON: what arrives is that answer, or the limiter's.  \<open>P\<close> says what the answer
  can be.
\<close>

lemma chain_answers:
  assumes path: "hq_path r \<noteq> ''/healthz''"
    and auth: "tok = [] \<or> header_get r ''Authorization'' = ''Bearer '' @ tok"
    and h: "\<And>w1 s1. sv_pb s1 = sv_pb s \<Longrightarrow>
      \<exists>s2 code b. m r (w1, s1) = ((write_json code b w1, s2), Return ()) \<and> sv_pb s2 = sv_pb s \<and> P code b"
  shows "\<exists>w2 s2 code b. handler_chain a tok m r (new_writer, s) = ((w2, s2), Return ()) \<and> sv_pb s2 = sv_pb s \<and>
    wr_status w2 = Some code \<and> wr_body w2 = [b] \<and>
    (P code b \<or> code = 429 \<and> b = Body_Error ''rate limit exceeded'')"
proof -
  let ?rec = "recover_middleware m" and ?rand = "read_world (ap_rand a 8)"
  let ?log = "logger_middleware ?rand ?rec"
  have chain: "handler_chain a tok m r (new_writer, s) = limited a ?log r (new_writer, s)"
    using auth path by (cases "tok = []") (auto simp: handler_chain_def Let_def auth_guards)
  obtain s1 where s1: "sv_pb s1 = sv_pb s" and l:
      "limited a ?log r (new_writer, s) = ((write_json 429 (Body_Error ''rate limit exceeded'') new_writer, s1), Return ()) \<or>
       limited a ?log r (new_writer, s) = ?log r (new_writer, s1)"
    using limited_cases [OF path] by blast
  have js: "wr_status (write_json code b w) = Some code \<and> wr_body (write_json code b w) = [b]"
    if "wr_status w = None" "wr_body w = []" for code b w
    using that by (simp add: write_json_def write_body_def write_header_def set_header_def)
  have nw: "wr_status new_writer = None" "wr_body new_writer = []" by (simp_all add: new_writer_def)
  from l show ?thesis
  proof
    assume "limited a ?log r (new_writer, s) = ((write_json 429 (Body_Error ''rate limit exceeded'') new_writer, s1), Return ())"
    then show ?thesis using chain s1 js [OF nw] by auto
  next
    assume l2: "limited a ?log r (new_writer, s) = ?log r (new_writer, s1)"
    obtain s2 w2 where s2: "sv_pb s2 = sv_pb s1" and w2: "wr_status w2 = None" "wr_body w2 = []" and lg:
        "?log r (new_writer, s1) = (case ?rec r (w2, s2) of ((w', s'), oc) \<Rightarrow> ((w'\<lparr>wr_recorder := wr_recorder new_writer\<rparr>, s'), oc))"
      using logged_form [of s1 new_writer "ap_rand a 8" ?rec r] nw by metis
    obtain s3 code b where hm: "m r (w2, s2) = ((write_json code b w2, s3), Return ())" "sv_pb s3 = sv_pb s" "P code b"
      using h [of s2 w2] s1 s2 by auto
    then have "?rec r (w2, s2) = ((write_json code b w2, s3), Return ())" by (simp add: recover_middleware_def)
    then have "handler_chain a tok m r (new_writer, s) =
        (((write_json code b w2)\<lparr>wr_recorder := wr_recorder new_writer\<rparr>, s3), Return ())"
      using chain l2 lg by simp
    then show ?thesis using hm js [OF w2, of code b]
      by (intro exI [of _ "(write_json code b w2)\<lparr>wr_recorder := wr_recorder new_writer\<rparr>"] exI [of _ s3]
        exI [of _ code] exI [of _ b]) simp
  qed
qed

subsection \<open>Where a request goes\<close>

lemma path_segments_join: "list_all plain_seg ns \<Longrightarrow> ns \<noteq> [] \<Longrightarrow> path_segments (slash # unsegs ns) = ns"
  unfolding path_segments_def by (simp add: split_join list_all_iff plain_seg_def)

lemma last_unsegs: "list_all plain_seg ns \<Longrightarrow> ns \<noteq> [] \<Longrightarrow> unsegs ns \<noteq> [] \<and> last (unsegs ns) \<noteq> slash"
proof (induction "[slash]" ns rule: join_with.induct)
  case (2 x)
  then have "x \<noteq> []" "slash \<notin> set x" by (simp_all add: plain_seg_def)
  then show ?case by (metis join_with.simps(2) last_in_set)
next
  case (3 x y ys)
  then show ?case by (auto simp: plain_seg_def)
qed simp

lemma mux_path_plain:
  assumes "list_all plain_seg ns" and "ns \<noteq> []"
  shows "mux_path (slash # unsegs ns) = slash # unsegs ns"
  using last_unsegs [OF assms] clean_abs_plain [OF assms] by (simp add: mux_path_def Let_def)

definition job_segments :: "string \<Rightarrow> string list" where
  "job_segments k = [''api'', ''v1'', ''jobs'', k]"

lemma job_segments_plain:
  "plain_seg k \<Longrightarrow> list_all plain_seg (job_segments k)" "plain_seg k \<Longrightarrow> list_all plain_seg (job_segments k @ [''events''])"
  by (simp_all add: job_segments_def plain_seg_def)

lemma job_target: "jobs_path @ ''/'' @ k = slash # unsegs (job_segments k)"
  "jobs_path @ ''/'' @ k @ ''/events?since='' @ n = (slash # unsegs (job_segments k @ [''events''])) @ CHR ''?'' # ''since='' @ n"
  by (simp_all add: jobs_path_def job_segments_def)

lemma route_get:
  assumes "plain_seg k"
  shows "find_route ''GET'' (slash # unsegs (job_segments k)) = Some (To_Get, [(''jobID'', k)])"
  using path_segments_join [OF job_segments_plain(1) [OF assms]] assms
  by (simp add: find_route_def routes_def Let_def method_matches_def job_segments_def plain_seg_def)

lemma route_events:
  assumes "plain_seg k"
  shows "find_route ''GET'' (slash # unsegs (job_segments k @ [''events''])) = Some (To_History, [(''jobID'', k)])"
  using path_segments_join [OF job_segments_plain(2) [OF assms]] assms
  by (simp add: find_route_def routes_def Let_def method_matches_def job_segments_def plain_seg_def)

lemma split_plain: "CHR ''?'' \<notin> set p \<Longrightarrow> split_target p = (p, [])"
proof -
  assume "CHR ''?'' \<notin> set p"
  then have "index_byte p (CHR ''?'') = None" by (induction p) auto
  then show ?thesis by (simp add: split_target_def)
qed

lemma split_since:
  assumes "CHR ''?'' \<notin> set p"
  shows "split_target (p @ CHR ''?'' # ''since='' @ show_nat n) = (p, [(''since'', show_nat n)])"
proof -
  have d: "c \<notin> set (show_nat n)" if "\<not> between 48 57 c" for c
    using that show_nat_digits [of c n] by (auto simp: between_def)
  have "CHR ''&'' \<notin> set (show_nat n)" "CHR ''='' \<notin> set (show_nat n)" by (rule d; simp add: between_def byte_def)+
  then have "split_on (CHR ''&'') (''since='' @ show_nat n) = [''since='' @ show_nat n]"
    and "index_byte (''since'' @ CHR ''='' # show_nat n) (CHR ''='') = Some (length ''since'')"
    by (simp_all add: split_on_nosep)
  then have "parse_query (''since='' @ show_nat n) = [(''since'', show_nat n)]" by (simp add: parse_query_def)
  then show ?thesis using index_byte_first [OF assms] by (simp add: split_target_def)
qed

lemma unsegs_no_mark: "CHR ''?'' \<notin> set k \<Longrightarrow> CHR ''?'' \<notin> set (slash # unsegs (job_segments k))"
  "CHR ''?'' \<notin> set k \<Longrightarrow> CHR ''?'' \<notin> set (slash # unsegs (job_segments k @ [''events'']))"
  by (simp_all add: job_segments_def)

subsection \<open>What the client sees of the server\<close>

definition job_log :: "'w service \<Rightarrow> string \<Rightarrow> 'w server \<Rightarrow> event list" where
  "job_log v k s = (case fs_history (ap_codec (se_api v)) no_faults k (sv_store s) of Inr evs \<Rightarrow> evs | Inl e \<Rightarrow> [])"

lemma job_log_cong: "sv_pb s' = sv_pb s \<Longrightarrow> job_log v k s' = job_log v k s"
  by (simp add: job_log_def)

lemma history_reads:
  "fs_history c env k s = Inr evs \<Longrightarrow> fs_history c no_faults k s = Inr evs"
  by (auto simp: fs_history_def no_faults_def split: if_splits option.splits)

text \<open>The answers of the two handlers on a request that reached them.\<close>

definition get_answer :: "job result \<Rightarrow> int \<Rightarrow> body \<Rightarrow> bool" where
  "get_answer r code b =
     (case r of Inr j \<Rightarrow> code = 200 \<and> b = Body_Job j
      | Inl e \<Rightarrow> 400 \<le> code \<and> b \<in> {Body_Error ''job not found'', Body_Error ''failed to load job''})"

lemma answersI:
  assumes "x = ((write_json code b w1, t), Return ())" and "sv_pb t = sv_pb s" and "P code b"
  shows "\<exists>s2 code b. x = ((write_json code b w1, s2), Return ()) \<and> sv_pb s2 = sv_pb s \<and> P code b"
  using assms by blast

lemma get_job_answers:
  assumes "path_value r ''jobID'' = k" and "sv_pb s1 = sv_pb s"
  shows "\<exists>s2 code b. get_job a r (w1, s1) = ((write_json code b w1, s2), Return ()) \<and> sv_pb s2 = sv_pb s \<and>
    get_answer (fs_get k (sv_store s)) code b"
proof (cases "fs_get k (sv_store s)")
  case (Inl e)
  show ?thesis
    by (rule answersI [where t = s1 and code = "if err_is e ErrJobNotFound then 404 else 500" and
          b = "Body_Error (if err_is e ErrJobNotFound then ''job not found'' else ''failed to load job'')"])
      (use assms Inl in \<open>simp_all add: get_job_def respond_defs get_answer_def\<close>)
next
  case (Inr j)
  show ?thesis
    by (rule answersI [where t = s1 and code = 200 and b = "Body_Job j"])
      (use assms Inr in \<open>simp_all add: get_job_def respond_defs get_answer_def\<close>)
qed

definition history_answer :: "event list \<Rightarrow> nat \<Rightarrow> int \<Rightarrow> body \<Rightarrow> bool" where
  "history_answer evs n code b =
     (code = 200 \<and> b = Body_Events (drop n evs) \<or>
      400 \<le> code \<and> (\<exists>m. b = Body_Error m \<and> length m \<le> 100))"

lemma read_world_pb: "read_world f s = (s1, x) \<Longrightarrow> sv_pb s1 = sv_pb s"
  by simp

lemma atoi_value: "atoi (show_nat n) = Some i \<Longrightarrow> i = int n"
proof -
  assume i: "atoi (show_nat n) = Some i"
  obtain c cs where s: "show_nat n = c # cs" by (cases "show_nat n") auto
  then have "48 \<le> byte c" using show_nat_digits [of c n] by simp
  then have "\<not> has_prefix (show_nat n) ''-''" and "\<not> has_prefix (show_nat n) ''+''"
    by (auto simp: s has_prefix_def byte_def)
  with i show ?thesis by (auto simp: atoi_def Let_def split: if_splits)
qed

lemma history_answers:
  assumes r: "path_value r ''jobID'' = k" "query_get r ''since'' = show_nat n" and s: "sv_pb s1 = sv_pb s"
  shows "\<exists>s2 code b. event_history (se_api v) r (w1, s1) = ((write_json code b w1, s2), Return ()) \<and> sv_pb s2 = sv_pb s \<and>
    history_answer (job_log v k s) n code b"
proof (cases "ap_events (se_api v)")
  case False
  show ?thesis
    by (rule answersI [where t = s1 and code = 503 and b = "Body_Error ''event store not available''"])
      (use s False in \<open>simp_all add: event_history_def respond_defs history_answer_def\<close>)
next
  case True
  obtain s2 env where o: "read_world (ap_os (se_api v)) s1 = (s2, env)" by (cases "read_world (ap_os (se_api v)) s1")
  then have s2: "sv_pb s2 = sv_pb s" using s read_world_pb by metis
  show ?thesis
  proof (cases "fs_history (ap_codec (se_api v)) env k (sv_store s2)")
    case (Inl e)
    show ?thesis
      by (rule answersI [where t = s2 and code = 500 and b = "Body_Error ''failed to load events''"])
        (use True o r s2 Inl in \<open>simp_all add: event_history_def respond_defs history_answer_def\<close>)
  next
    case (Inr evs)
    then have l: "job_log v k s = evs" using s2 history_reads [OF Inr] by (simp add: job_log_def)
    have d: "drop (nat (min (int n) (int (length evs)))) evs = drop n evs" by (simp add: min_def)
    show ?thesis
    proof (cases "atoi (show_nat n)")
      case None
      show ?thesis
        by (rule answersI [where t = s2 and code = 400 and b = "Body_Error ''since must be a non-negative integer''"])
          (use True o r s2 Inr None in \<open>simp_all add: event_history_def Let_def respond_defs history_answer_def\<close>)
    next
      case (Some i)
      then have i: "i = int n" by (rule atoi_value)
      show ?thesis
        by (rule answersI [where t = s2 and code = 200 and b = "Body_Events (drop n evs)"])
          (use True o r s2 Inr Some i l d in \<open>simp_all add: event_history_def Let_def respond_defs history_answer_def\<close>)
    qed
  qed
qed

text \<open>A request of a client with the right token, through the chain and back.\<close>

lemma serve_answers:
  assumes tok: "se_token v = [] \<or> hc_token c = se_token v"
    and c: "c = client_of v wi (hc_token c)" and path: "mux_path p = p" "p \<noteq> ''/healthz''" "CHR ''?'' \<notin> set p"
    and target: "split_target t = (p, qs)" and route: "find_route ''GET'' p = Some (e, vals)"
    and h: "\<And>r w1 s1. sv_pb s1 = sv_pb (se_progress v s) \<Longrightarrow> hq_values r = vals \<Longrightarrow> hq_query r = qs \<Longrightarrow>
      \<exists>s2 code b. endpoint_handler v e r (w1, s1) = ((write_json code b w1, s2), Return ()) \<and>
        sv_pb s2 = sv_pb (se_progress v s) \<and> P code b"
  shows "\<exists>s2 code b resp. do_request c ''GET'' t None s = (s2, Inr resp) \<and> sv_pb s2 = sv_pb (se_progress v s) \<and>
    hs_status resp = code \<and> hs_body resp = se_encode v b \<and> (P code b \<or> code = 429 \<and> b = Body_Error ''rate limit exceeded'')"
proof -
  let ?q = "\<lparr>hr_method = ''GET'', hr_url = se_base v @ t, hr_header = request_headers c False, hr_body = None\<rparr>"
  let ?r = "received_request v ?q"
  have f: "hc_base c = se_base v" "tp_build (hc_transport c) m u = None" "tp_do (hc_transport c) = serve v" for m u
    using c by (simp_all add: client_of_def) (metis http_client.select_convs transport.select_convs)+
  have r: "hq_path ?r = p" "hq_query ?r = qs" "hq_headers ?r = request_headers c False"
    by (simp_all add: received_request_def target)
  have auth: "se_token v = [] \<or> header_get ?r ''Authorization'' = ''Bearer '' @ se_token v"
    unfolding header_get_def r(3) using tok by (auto simp: request_headers_def Let_def)
  have m: "\<exists>s2 code b. mux v ''GET'' ?r (w1, s1) = ((write_json code b w1, s2), Return ()) \<and>
      sv_pb s2 = sv_pb (se_progress v s) \<and> P code b" if "sv_pb s1 = sv_pb (se_progress v s)" for w1 s1
    using h [OF that, of "?r\<lparr>hq_values := vals\<rparr>" w1] by (simp add: mux_def r path route)
  obtain w2 s2 code b where ch: "handler_chain (se_api v) (se_token v) (mux v ''GET'') ?r (new_writer, se_progress v s) =
      ((w2, s2), Return ())" "sv_pb s2 = sv_pb (se_progress v s)" "wr_status w2 = Some code" "wr_body w2 = [b]"
      "P code b \<or> code = 429 \<and> b = Body_Error ''rate limit exceeded''"
    using chain_answers [of ?r "se_token v" "se_progress v s" "mux v ''GET''" P "se_api v", OF _ auth m] r path(2) by metis
  have "do_request c ''GET'' t None s = (s2, Inr (response_of (se_encode v) w2))"
    by (simp add: do_request_def send_request_def f serve_def ch(1))
  then show ?thesis using ch(2-5) by (auto simp: response_of_def)
qed

text \<open>
  The command line and the server agree on a job: with the right token, asking for a job gives the server's job, as
  the client reads it, or an error, and an error only when the limiter refused or the store has no such job;
  nothing but the limiter and the clock of the server changed.
\<close>

lemma client_meets_server:
  assumes "json_agrees (ap_codec (se_api v)) (se_encode v) wi" and "valid_job_id k" and "CHR ''?'' \<notin> set k"
    and "se_token v = [] \<or> tok = se_token v" and "client_get (client_of v wi tok) k s = (s', r)"
  shows "sv_pb s' = sv_pb (se_progress v s) \<and>
    (case fs_get k (sv_store (se_progress v s)) of
       Inr j \<Rightarrow> (\<forall>good. jobs_agree good (se_encode v) wi \<longrightarrow> good j \<longrightarrow> r = Inr (client_view j) \<or>
         (\<exists>e. r = Inl e \<and> err_text e = ''get job '' @ k @ '': rate limit exceeded (HTTP 429)''))
     | Inl x \<Rightarrow> \<exists>e. r = Inl e)"
proof -
  let ?c = "client_of v wi tok" and ?p = "slash # unsegs (job_segments k)"
  have k: "plain_seg k" using assms(2) by (rule valid_job_id_plain)
  have tok: "se_token v = [] \<or> hc_token ?c = se_token v" "?c = client_of v wi (hc_token ?c)" "hc_wire ?c = wi"
    using assms(4) by (simp_all add: client_of_def)
  have p: "mux_path ?p = ?p" by (rule mux_path_plain [OF job_segments_plain(1) [OF k]]) (simp add: job_segments_def)
  have "\<exists>s2 code b resp. do_request ?c ''GET'' ?p None s = (s2, Inr resp) \<and> sv_pb s2 = sv_pb (se_progress v s) \<and>
    hs_status resp = code \<and> hs_body resp = se_encode v b \<and>
    (get_answer (fs_get k (sv_store (se_progress v s))) code b \<or> code = 429 \<and> b = Body_Error ''rate limit exceeded'')"
  proof (rule serve_answers [OF tok(1,2) p _ _ split_plain route_get [OF k]])
    show "?p \<noteq> ''/healthz''" by (simp add: job_segments_def)
    show "CHR ''?'' \<notin> set ?p" "CHR ''?'' \<notin> set ?p" by (rule unsegs_no_mark(1) [OF assms(3)])+
    fix q :: request and w1 and s1 :: "'a server" assume "sv_pb s1 = sv_pb (se_progress v s)" "hq_values q = [(''jobID'', k)]"
    then show "\<exists>s2 code b. endpoint_handler v To_Get q (w1, s1) = ((write_json code b w1, s2), Return ()) \<and>
        sv_pb s2 = sv_pb (se_progress v s) \<and> get_answer (fs_get k (sv_store (se_progress v s))) code b"
      by (simp add: endpoint_handler_def) (intro get_job_answers, simp_all add: path_value_def)
  qed
  then obtain s2 code b resp where d: "do_request ?c ''GET'' ?p None s = (s2, Inr resp)" "sv_pb s2 = sv_pb (se_progress v s)"
    "hs_status resp = code" "hs_body resp = se_encode v b"
    "get_answer (fs_get k (sv_store (se_progress v s))) code b \<or> code = 429 \<and> b = Body_Error ''rate limit exceeded''" by blast
  let ?dec = "decode wi (Some (wi_job wi)) no_job resp"
  have r: "s' = s2" "r = (case ?dec of Inl e \<Rightarrow> Inl (Errorf ''get job %s: %w'' [FStr k, FW e]) | Inr x \<Rightarrow> Inr x)"
    using assms(5) d(1) unfolding client_get_def call_api_def tok(3) job_target(1) by simp_all
  from d(5) show ?thesis
  proof
    assume a: "get_answer (fs_get k (sv_store (se_progress v s))) code b"
    show ?thesis
    proof (cases "fs_get k (sv_store (se_progress v s))")
      case (Inl x)
      then have "?dec = Inl (as_error wi resp)" using a d(3) by (simp add: get_answer_def decode_def)
      then show ?thesis using r d(2) Inl by simp
    next
      case (Inr j)
      have "?dec = Inr (client_view j)" if "jobs_agree good (se_encode v) wi" "good j" for good
        using a d(3,4) that Inr by (simp add: get_answer_def decode_def jobs_agree_def)
      then show ?thesis using r d(2) Inr by auto
    qed
  next
    assume a: "code = 429 \<and> b = Body_Error ''rate limit exceeded''"
    have "wi_error wi (take 65536 (se_encode v (Body_Error ''rate limit exceeded''))) = Some ''rate limit exceeded''"
      using assms(1) by (simp add: json_agrees_def)
    then have "?dec = Inl (Errorf ''%s (HTTP %d)'' [FStr ''rate limit exceeded'', FInt 429])"
      using a d(3,4) by (simp add: decode_def as_error_def)
    moreover have "show_int 429 = ''429''" by code_simp
    ultimately show ?thesis using r d(2) by (cases "fs_get k (sv_store (se_progress v s))") simp_all
  qed
qed


lemma job_log_read: "\<forall>e \<in> set (job_log v k s). \<exists>l. dec_event (ap_codec (se_api v)) l = Some e"
  by (auto simp: job_log_def fs_history_def parse_log_def List.map_filter_def no_faults_def split: option.splits if_splits)

lemma client_events_meets_server:
  assumes "json_agrees (ap_codec (se_api v)) (se_encode v) wi" and "valid_job_id k" and "CHR ''?'' \<notin> set k"
    and "se_token v = [] \<or> tok = se_token v" and "client_events (client_of v wi tok) k n s = (s', r)"
  shows "sv_pb s' = sv_pb (se_progress v s) \<and> (\<forall>evs. r = Inr evs \<longrightarrow> evs = drop n (job_log v k s'))"
proof -
  let ?c = "client_of v wi tok" and ?p = "slash # unsegs (job_segments k @ [''events''])"
  let ?log = "job_log v k (se_progress v s)"
  have k: "plain_seg k" using assms(2) by (rule valid_job_id_plain)
  have tok: "se_token v = [] \<or> hc_token ?c = se_token v" "?c = client_of v wi (hc_token ?c)" "hc_wire ?c = wi"
    using assms(4) by (simp_all add: client_of_def)
  have p: "mux_path ?p = ?p" by (rule mux_path_plain [OF job_segments_plain(2) [OF k]]) simp
  have mark: "CHR ''?'' \<notin> set ?p" by (rule unsegs_no_mark(2) [OF assms(3)])
  have "\<exists>s2 code b resp. do_request ?c ''GET'' (?p @ CHR ''?'' # ''since='' @ show_nat n) None s = (s2, Inr resp) \<and>
    sv_pb s2 = sv_pb (se_progress v s) \<and> hs_status resp = code \<and> hs_body resp = se_encode v b \<and>
    (history_answer ?log n code b \<or> code = 429 \<and> b = Body_Error ''rate limit exceeded'')"
  proof (rule serve_answers [OF tok(1,2) p _ mark split_since [OF mark] route_events [OF k]])
    show "?p \<noteq> ''/healthz''" by (simp add: job_segments_def)
    fix q :: request and w1 and s1 :: "'a server"
    assume "sv_pb s1 = sv_pb (se_progress v s)" "hq_values q = [(''jobID'', k)]" "hq_query q = [(''since'', show_nat n)]"
    then show "\<exists>s2 code b. endpoint_handler v To_History q (w1, s1) = ((write_json code b w1, s2), Return ()) \<and>
        sv_pb s2 = sv_pb (se_progress v s) \<and> history_answer ?log n code b"
      by (simp add: endpoint_handler_def) (intro history_answers, simp_all add: path_value_def query_get_def)
  qed
  then obtain s2 code b resp where d: "do_request ?c ''GET'' (?p @ CHR ''?'' # ''since='' @ show_nat n) None s = (s2, Inr resp)"
    "sv_pb s2 = sv_pb (se_progress v s)" "hs_status resp = code" "hs_body resp = se_encode v b"
    "history_answer ?log n code b \<or> code = 429 \<and> b = Body_Error ''rate limit exceeded''" by blast
  let ?dec = "decode wi (Some (wi_events wi)) [] resp"
  have r: "s' = s2" "r = (case ?dec of Inl e \<Rightarrow> Inl (Errorf ''events for %s: %w'' [FStr k, FW e]) | Inr x \<Rightarrow> Inr x)"
    using assms(5) d(1) unfolding client_events_def call_api_def tok(3) job_target(2) by simp_all
  have "evs = drop n ?log" if "?dec = Inr evs" for evs
  proof -
    from that have c: "\<not> 400 \<le> code" using d(3) by (auto simp: decode_def split: if_splits)
    with d(5) have b: "b = Body_Events (drop n ?log)" by (auto simp: history_answer_def)
    have "\<forall>e \<in> set (drop n ?log). \<exists>l. dec_event (ap_codec (se_api v)) l = Some e"
      using job_log_read [of v k "se_progress v s"] by (blast dest: in_set_dropD)
    with assms(1) have "wi_events wi resp = Inr (drop n ?log)" using d(4) b unfolding json_agrees_def by blast
    with that c d(3) show ?thesis by (simp add: decode_def)
  qed
  moreover have "job_log v k s2 = ?log" by (rule job_log_cong [OF d(2)])
  ultimately show ?thesis using r d(2) by (auto split: sum.splits)
qed

lemma server_feeds:
  assumes "json_agrees (ap_codec (se_api v)) (se_encode v) wi" and "valid_job_id k" and "CHR ''?'' \<notin> set k"
    and "se_token v = [] \<or> tok = se_token v"
    and grows: "\<And>s. prefix (job_log v k s) (job_log v k (se_progress v s))"
  shows "feeds (client_of v wi tok) k (job_log v k)"
proof -
  have "prefix (job_log v k w) (job_log v k w') \<and> (\<forall>evs. r = Inr evs \<longrightarrow> evs = drop n (job_log v k w'))"
    if "client_events (client_of v wi tok) k n w = (w', r)" for n w w' r
    using client_events_meets_server [OF assms(1-4) that] grows [of w] job_log_cong [of w' "se_progress v w" v k] by simp
  moreover have "prefix (job_log v k w) (job_log v k w')" if "client_get (client_of v wi tok) k w = (w', r)" for w w' r
    using client_meets_server [OF assms(1-4) that] grows [of w] job_log_cong [of w' "se_progress v w" v k] by simp
  ultimately show ?thesis unfolding feeds_def by blast
qed

text \<open>
  C17: the two programs fit together.  The command line watches a job over the server's own routes, chain of middleware,
  handlers and log, while the rest of the server goes on: what it has printed is the lines of a prefix of the log the server
  has of the job, told once and in order, whatever the limiter refused in between.
\<close>

theorem watcher_tells_the_servers_log:
  assumes "json_agrees (ap_codec (se_api v)) (se_encode v) wi"
    and "valid_job_id k" and "CHR ''?'' \<notin> set k" and "se_token v = [] \<or> tok = se_token v"
    and "\<forall>s. prefix (job_log v k s) (job_log v k (se_progress v s))"
    and "watch mc (client_of v wi tok) k 0 0 sigs t = Some (t', r)" and "set sigs \<subseteq> {0}"
  shows "\<exists>n \<le> length (job_log v k (tm_world t')).
    tm_err t' = tm_err t @ event_lines (mc_clock mc) (take n (job_log v k (tm_world t')))"
proof -
  have "feeds (client_of v wi tok) k (job_log v k)"
    by (rule server_feeds [OF assms(1-4)]) (use assms(5) in auto)
  from watch_tells_each_event_once [OF this assms(6,7)] show ?thesis .
qed

text \<open>A server with one failed job and one event in its log, and a machine that reaches it.\<close>

definition watched_job :: job where
  "watched_job = queued_job\<lparr>status := StatusFailed\<rparr>"

definition watched_service :: "nat service" where
  "watched_service =
     \<lparr>se_api = demo_api\<lparr>ap_codec := sample_codec\<rparr>, se_token = ''t'', se_stream = (\<lambda>r ws. (ws, Return ())), se_checks = [],
      se_live = (\<lambda>s. []), se_remote = ''1.2.3.4:5'', se_base = ''http://h'',
      se_encode = (\<lambda>b. case b of Body_Events evs \<Rightarrow> replicate (length evs) (CHR ''e'') | Body_Error m \<Rightarrow> m | _ \<Rightarrow> []),
      se_progress = (\<lambda>s. s)\<rparr>"

definition watched_wire :: wire where
  "watched_wire =
     \<lparr>wi_encode = (\<lambda>kvs. Inr []), wi_job = (\<lambda>r. Inr (client_view watched_job)), wi_jobs = (\<lambda>r. Inr []),
      wi_events = (\<lambda>r. Inr (replicate (length (hs_body r)) sample_event)), wi_error = Some\<rparr>"

definition watched_server :: "nat server" where
  "watched_server = demo_server
     \<lparr>sv_pb := \<lparr>pb_inner = new_in_process_bus,
        pb_store = \<lparr>st_fs = \<lparr>fs_dirs = [(''j'', [(events_file, \<lparr>fbytes = ''{}'' @ [newline], synced = True\<rparr>)])],
                      fs_locked = True\<rparr>,
                    st_index = [(''j'', watched_job)]\<rparr>\<rparr>\<rparr>"

definition watching_tty :: "nat server tty" where
  "watching_tty = \<lparr>tm_world = watched_server, tm_out = [], tm_err = []\<rparr>"

definition watching_machine :: "nat server machine" where
  "watching_machine =
     \<lparr>mc_env = [], mc_getwd = (\<lambda>w. Inr ''/r''), mc_stat = (\<lambda>p w. None), mc_git_apply = (\<lambda>r p w. (w, [], None)),
      mc_transport = hc_transport (client_of watched_service watched_wire ''t''), mc_wire = watched_wire, mc_int = atoi,
      mc_clock = (\<lambda>t. []), mc_date = (\<lambda>t. []), mc_rfc3339 = (\<lambda>t. [])\<rparr>"

lemma watched_agrees: "json_agrees (ap_codec (se_api watched_service)) (se_encode watched_service) watched_wire"
  "jobs_agree ((=) watched_job) (se_encode watched_service) watched_wire"
proof -
  have "evs = replicate (length evs) sample_event" if "\<forall>e \<in> set evs. \<exists>l. dec_event sample_codec l = Some e" for evs
    using that by (intro replicate_eqI) (auto simp: sample_codec_def split: if_splits)
  then show "json_agrees (ap_codec (se_api watched_service)) (se_encode watched_service) watched_wire"
    by (simp add: json_agrees_def watched_service_def watched_wire_def)
  show "jobs_agree ((=) watched_job) (se_encode watched_service) watched_wire"
    by (simp add: jobs_agree_def watched_wire_def)
qed

lemma watched_key: "valid_job_id ''j''" "CHR ''?'' \<notin> set ''j''"
  by (code_simp, simp)

lemma watched_ends:
  "\<exists>t' r. watch mc (client_of watched_service watched_wire ''t'') ''j'' 0 0 [0] watching_tty = Some (t', r)"
proof -
  let ?c = "client_of watched_service watched_wire ''t''"
  have tok: "se_token watched_service = [] \<or> ''t'' = se_token watched_service" by (simp add: watched_service_def)
  obtain t1 r1 where e: "on_world (client_events ?c ''j'' 0) watching_tty = (t1, r1)"
    by (cases "on_world (client_events ?c ''j'' 0) watching_tty")
  show ?thesis
  proof (cases r1)
    case (Inr evs)
    obtain t2 r2 where g: "on_world (client_get ?c ''j'') (show_events (mc_clock mc) evs t1) = (t2, r2)"
      by (cases "on_world (client_get ?c ''j'') (show_events (mc_clock mc) evs t1)")
    have "client_events ?c ''j'' 0 watched_server = (tm_world t1, r1)" using e by (simp add: on_world_simps watching_tty_def)
    then have pb: "sv_pb (tm_world t1) = sv_pb watched_server"
      using client_events_meets_server [OF watched_agrees(1) watched_key tok] by (auto simp: watched_service_def)
    have "client_get ?c ''j'' (tm_world t1) = (tm_world t2, r2)" using g by (simp add: on_world_simps)
    from client_meets_server [OF watched_agrees(1) watched_key tok this] watched_agrees(2)
    have "r2 = Inr (client_view watched_job) \<or> (\<exists>x. r2 = Inl x)"
      by (auto simp: watched_service_def pb watched_server_def fs_get_def watched_key split: sum.splits)
    moreover have "terminal_status (cj_status (client_view watched_job))"
      by (simp add: client_view_def watched_job_def terminal_status_def)
    ultimately show ?thesis using e g Inr by (auto split: sum.splits)
  qed (use e in simp)
qed

theorem watcher_tells_the_servers_log_witness:
  "\<exists>t' r n. watch watching_machine (client_of watched_service watched_wire ''t'') ''j'' 0 0 [0] watching_tty = Some (t', r) \<and>
     n \<le> length (job_log watched_service ''j'' (tm_world t')) \<and>
     tm_err t' = event_lines (mc_clock watching_machine) (take n (job_log watched_service ''j'' (tm_world t')))"
proof -
  have tok: "se_token watched_service = [] \<or> ''t'' = se_token watched_service" by (simp add: watched_service_def)
  have grows: "\<forall>s. prefix (job_log watched_service ''j'' s) (job_log watched_service ''j'' (se_progress watched_service s))"
    by (simp add: watched_service_def)
  obtain t' r where w: "watch watching_machine (client_of watched_service watched_wire ''t'') ''j'' 0 0 [0] watching_tty =
      Some (t', r)" using watched_ends by blast
  from watcher_tells_the_servers_log [OF watched_agrees(1) watched_key tok grows w] w show ?thesis
    by (auto simp: watching_tty_def)
qed

end
