(* ===== verification/Server_Main.thy ===== *)
theory Server_Main
  imports Recovery Config Service
begin

text \<open>
  \<open>cmd/api/main.go\<close>: how the server comes up.  The settings are read, the data directory is opened, what the last process
  left is reconciled, and the result is the state and the service its clients meet.
\<close>

subsection \<open>Coming up\<close>

text \<open>The machine: files of settings, the data directory at a path, and what the store and the recovery read.\<close>

record 'w boot =
  bt_parsers :: parsers
  bt_open :: "string \<Rightarrow> 'w \<Rightarrow> 'w \<times> env_file result"
  bt_disk :: "string \<Rightarrow> 'w \<Rightarrow> fsys"
  bt_codec :: json_codec
  bt_decode :: "string \<Rightarrow> decoded"
  bt_now :: "'w \<Rightarrow> 'w \<times> time"
  bt_os :: "'w \<Rightarrow> 'w \<times> os_env"
  bt_rand :: "nat \<Rightarrow> 'w \<Rightarrow> 'w \<times> string"
  bt_cleanup :: "workspace \<Rightarrow> 'w \<Rightarrow> 'w \<times> go_err option"
  bt_stat :: "string \<Rightarrow> 'w \<Rightarrow> bool"

definition default_env_file :: string where
  "default_env_file = ''.env''"

definition env_file_path :: "env \<Rightarrow> string" where
  "env_file_path e = (let p = getenv e ''ROJO_ENV_FILE'' in if p = [] then default_env_file else p)"

text \<open>The settings, or the exit code 2.\<close>

definition load_settings :: "'w boot \<Rightarrow> env \<Rightarrow> 'w \<Rightarrow> 'w \<times> (int + config)" where
  "load_settings bt e w =
     (case bt_open bt (env_file_path e) w of (w1, opened) \<Rightarrow>
       (case load_env_file (env_file_path e) opened e of
          (e1, res, Some x) \<Rightarrow> (w1, Inl 2)
        | (e1, res, None) \<Rightarrow>
            (w1, case load_config (bt_parsers bt) e1 of Inl x \<Rightarrow> Inl 2 | Inr cfg \<Rightarrow> Inr cfg)))"

definition recoverer_of :: "'w boot \<Rightarrow> config \<Rightarrow> 'w recoverer" where
  "recoverer_of bt cfg =
     \<lparr>r_codec = bt_codec bt, r_now = bt_now bt, r_os = bt_os bt, r_queue = True, r_bus = True,
      r_cleanup = Some (bt_cleanup bt), r_stat = bt_stat bt, r_base_dir = worktree_base_dir cfg\<rparr>"

definition limiter_of :: "config \<Rightarrow> rate_limiter" where
  "limiter_of cfg =
     (let rl = new_rate_limiter (rate_limit_burst cfg) (rate_limit_rps cfg) in
      if cfg_trust_proxy cfg then trust_proxy_header rl else rl)"

definition server_of :: "config \<Rightarrow> 'w recovery \<Rightarrow> 'w server" where
  "server_of cfg s =
     \<lparr>sv_world = rv_world s, sv_pb = rv_pb s, sv_queue = rv_queue s, sv_cancels = new_canceller,
      sv_limiter = limiter_of cfg, sv_metrics = Some metrics_new\<rparr>"

text \<open>
  The start, up to the first request: an exit code, or the settings and the state.  The pool is started before the
  recovery, but finds an empty queue until the recovery fills it; its steps are those of \<open>Queue_Worker\<close>.
\<close>

definition start_server :: "'w boot \<Rightarrow> env \<Rightarrow> 'w \<Rightarrow> (int + config \<times> 'w server) outcome" where
  "start_server bt e w =
     (case load_settings bt e w of
        (w1, Inl code) \<Rightarrow> Return (Inl code)
      | (w1, Inr cfg) \<Rightarrow> (case bt_os bt w1 of (w2, env) \<Rightarrow>
          (case fs_new (bt_codec bt) env (bt_disk bt (data_dir cfg) w2) of
             Inl x \<Rightarrow> Return (Inl 1)
           | Inr st \<Rightarrow>
               (case recover (recoverer_of bt cfg)
                       \<lparr>rv_world = w2, rv_pb = \<lparr>pb_inner = new_in_process_bus, pb_store = st\<rparr>,
                        rv_queue = queue_new (queue_buffer cfg)\<rparr> of
                  (s, Panic p) \<Rightarrow> Panic p
                | (s, Return rep) \<Rightarrow> Return (Inr (cfg, server_of cfg s))))))"

subsection \<open>What is served\<close>

definition api_of :: "'w boot \<Rightarrow> 'w api" where
  "api_of bt =
     \<lparr>ap_codec = bt_codec bt, ap_decode = bt_decode bt, ap_now = bt_now bt, ap_os = bt_os bt, ap_rand = bt_rand bt,
      ap_queue = True, ap_canceller = True, ap_bus = True, ap_events = True, ap_artifacts = True\<rparr>"

definition store_check :: "'w boot \<Rightarrow> 'w health_check" where
  "store_check bt s = (case read_world (bt_os bt) s of (s1, env) \<Rightarrow> (s1, fs_health env))"

definition live_info :: "config \<Rightarrow> 'w server \<Rightarrow> (string, json) amap" where
  "live_info cfg s =
     [(''queue_depth'', JInt (int (queue_len (sv_queue s)))), (''workers'', JInt (worker_count cfg))]"

text \<open>The stream, the wire and what happens between two requests stay open.\<close>

definition service_of ::
    "'w boot \<Rightarrow> config \<Rightarrow> 'w server handler \<Rightarrow> string \<Rightarrow> (body \<Rightarrow> string) \<Rightarrow> ('w server \<Rightarrow> 'w server) \<Rightarrow> 'w service" where
  "service_of bt cfg str remote enc progress =
     \<lparr>se_api = api_of bt, se_token = auth_token cfg, se_stream = str,
      se_checks = register_check ''store'' (store_check bt) [], se_live = live_info cfg, se_remote = remote,
      se_base = ''http://'' @ http_addr cfg, se_encode = enc, se_progress = progress\<rparr>"

subsection \<open>A server that is up has nothing left half done\<close>

lemma load_config_sizes: "load_config p e = Inr c \<Longrightarrow> 0 < queue_buffer c \<and> 0 < worker_count c"
  by (auto simp: load_config_def validate_config_def Let_def split: option.splits if_splits)

lemma load_settings_ok: "load_settings bt e w = (w1, Inr cfg) \<Longrightarrow> \<exists>e1. load_config (bt_parsers bt) e1 = Inr cfg"
  by (auto simp: load_settings_def split: prod.splits option.splits sum.splits)

lemma load_settings_exit: "load_settings bt e w = (w1, Inl code) \<Longrightarrow> code = 2"
  by (auto simp: load_settings_def split: prod.splits option.splits sum.splits)

definition steady_boot :: "'w boot \<Rightarrow> bool" where
  "steady_boot bt = ((\<forall>w. writable (snd (bt_os bt w))) \<and> (\<forall>j. enc_job (bt_codec bt) j \<noteq> None))"

lemma steady_boot_parts: "steady_boot bt \<Longrightarrow> steady_recoverer (recoverer_of bt cfg)" "steady_boot bt \<Longrightarrow> steady_api (api_of bt)"
  by (simp_all add: steady_boot_def steady_recoverer_def steady_api_def recoverer_of_def api_of_def)


text \<open>A machine without a file of settings, whose data directory has a job that was being verified.\<close>

definition example_boot :: "unit boot" where
  "example_boot =
     \<lparr>bt_parsers = no_parsers, bt_open = (\<lambda>p w. (w, Inl (Sentinel ErrNotExist))),
      bt_disk = (\<lambda>p w. \<lparr>fs_dirs = [(''j'', [(job_file, \<lparr>fbytes = ''{}'', synced = True\<rparr>)])], fs_locked = False\<rparr>),
      bt_codec = plain_codec\<lparr>dec_job := (\<lambda>b. Some (queued_job\<lparr>status := StatusVerifying\<rparr>))\<rparr>,
      bt_decode = (\<lambda>b. Malformed), bt_now = (\<lambda>w. (w, 7)), bt_os = (\<lambda>w. (w, no_faults)),
      bt_rand = (\<lambda>n w. (w, [])), bt_cleanup = (\<lambda>ws w. (w, None)), bt_stat = (\<lambda>p w. False)\<rparr>"

lemma example_starts: "start_server example_boot [] () \<noteq> Return (Inl code)"
proof -
  have "load_env_file (env_file_path []) (Inl (Sentinel ErrNotExist)) [] =
      ([], \<lparr>ef_path = [], ef_set = [], ef_skipped = [], ef_world_readable = False\<rparr>, None)"
    by (simp add: load_env_file_def error_is_not_exist_def)
  moreover have "validate_config no_parsers (read_config no_parsers []) = None" by code_simp
  ultimately have "load_settings example_boot [] () = ((), Inr (read_config no_parsers []))"
    by (simp add: load_settings_def example_boot_def load_config_def)
  then show ?thesis
    by (auto simp: start_server_def example_boot_def fs_new_def no_faults_def split: prod.splits outcome.splits)
qed


end
