(* ===== verification/Benchmark_Report.thy ===== *)
theory Benchmark_Report
  imports Metrics Go_Float Error_Text "HOL-Library.Multiset"
begin

text \<open>
  \<open>internal/benchmark/report.go\<close>: what a benchmark run adds up to, and the result of a case from \<open>run.go\<close>.  Counters are
  64-bit words; the rendering of the table is left out.
\<close>

subsection \<open>Results\<close>

record case_result =
  cr_case :: string
  cr_difficulty :: string
  cr_job_id :: string
  cr_status :: string
  cr_pipeline :: bool
  cr_task :: bool
  cr_stage :: string
  cr_output :: string
  cr_revisions :: nat
  cr_duration_ms :: int64
  cr_model_calls :: int64
  cr_model_errors :: int64
  cr_input_tokens :: int64
  cr_output_tokens :: int64
  cr_patch_bytes :: nat
  cr_error :: string

definition false_success :: "case_result \<Rightarrow> bool" where
  "false_success r = (cr_pipeline r \<and> \<not> cr_task r)"

definition yes_no :: "bool \<Rightarrow> string" where
  "yes_no b = (if b then ''yes'' else ''no '')"

definition case_verdict :: "case_result \<Rightarrow> string" where
  "case_verdict r =
     (if cr_error r \<noteq> [] then ''ERROR '' else if cr_task r then ''PASS  ''
      else if false_success r then ''FALSE+'' else ''FAIL  '')"

definition truth_label :: "case_result \<Rightarrow> string" where
  "truth_label r =
     (if cr_error r \<noteq> [] then ''-'' else if cr_task r then ''yes''
      else if cr_pipeline r then ''NO(!)'' else ''no'')"

subsection \<open>Prices and percentiles\<close>

record prices =
  input_per_million :: float64
  output_per_million :: float64

definition prices_set :: "prices \<Rightarrow> bool" where
  "prices_set p = (fl_less (Fin 0) (input_per_million p) \<or> fl_less (Fin 0) (output_per_million p))"

definition cost_of :: "prices \<Rightarrow> int64 \<Rightarrow> int64 \<Rightarrow> float64" where
  "cost_of p i out =
     fl_add (fl_mul (fl_div_const (fl_of_int (sint i)) 1000000) (input_per_million p))
       (fl_mul (fl_div_const (fl_of_int (sint out)) 1000000) (output_per_million p))"

record percentiles =
  pc_min :: int64
  pc_p50 :: int64
  pc_p95 :: int64
  pc_max :: int64
  pc_mean :: int64

text \<open>\<open>int(math.Ceil(x))\<close> of a finite value.\<close>

fun fl_ceil_int :: "float64 \<Rightarrow> int" where
  "fl_ceil_int (Fin a) = \<lceil>a\<rceil>"
| "fl_ceil_int x = 0"

definition nearest_rank :: "int64 list \<Rightarrow> float64 \<Rightarrow> int64" where
  "nearest_rank sorted_vs p =
     (let rank0 = fl_ceil_int (fl_mul p (fl_of_int (int (length sorted_vs))));
          rank1 = (if rank0 < 1 then 1 else rank0);
          rank = (if int (length sorted_vs) < rank1 then int (length sorted_vs) else rank1)
      in sorted_vs ! nat (rank - 1))"

definition zero_percentiles :: percentiles where
  "zero_percentiles = \<lparr>pc_min = 0, pc_p50 = 0, pc_p95 = 0, pc_max = 0, pc_mean = 0\<rparr>"

text \<open>The literals 0.50 and 0.95; the second is rounded.\<close>

definition one_half :: float64 where
  "one_half = Fin (1 / 2)"

definition p95 :: float64 where
  "p95 = fl_round (19 / 20)"

definition percentiles_of :: "int64 list \<Rightarrow> percentiles" where
  "percentiles_of vs =
     (if vs = [] then zero_percentiles
      else let s = sort_key sint vs; acc = fold (+) s 0 in
        \<lparr>pc_min = hd s, pc_p50 = nearest_rank s one_half, pc_p95 = nearest_rank s p95, pc_max = last s,
         pc_mean = word_of_int (sint acc sdiv int (length s))\<rparr>)"

definition ratio :: "int \<Rightarrow> int \<Rightarrow> float64" where
  "ratio n d =
     (if d = 0 then Fin 0
      else fl_div_const (fl_nearest (fl_mul (fl_div (fl_of_int n) (fl_of_int d)) (Fin 10000))) 10000)"

subsection \<open>The summary\<close>

record bench_summary =
  bs_cases :: nat
  bs_measured :: nat
  bs_harness_errors :: nat
  bs_pipeline :: nat
  bs_task :: nat
  bs_false :: nat
  bs_revised :: nat
  bs_pipeline_rate :: float64
  bs_task_rate :: float64
  bs_false_rate :: float64
  bs_revision_rate :: float64
  bs_duration :: percentiles
  bs_model_calls :: int64
  bs_model_errors :: int64
  bs_input_tokens :: int64
  bs_output_tokens :: int64
  bs_total_tokens :: int64
  bs_mean_tokens :: int64
  bs_cost :: "float64 option"
  bs_mean_cost :: "float64 option"
  bs_results :: "case_result list"

definition no_summary :: "case_result list \<Rightarrow> bench_summary" where
  "no_summary rs =
     \<lparr>bs_cases = length rs, bs_measured = 0, bs_harness_errors = 0, bs_pipeline = 0, bs_task = 0, bs_false = 0,
      bs_revised = 0, bs_pipeline_rate = Fin 0, bs_task_rate = Fin 0, bs_false_rate = Fin 0, bs_revision_rate = Fin 0,
      bs_duration = zero_percentiles, bs_model_calls = 0, bs_model_errors = 0, bs_input_tokens = 0,
      bs_output_tokens = 0, bs_total_tokens = 0, bs_mean_tokens = 0, bs_cost = None, bs_mean_cost = None,
      bs_results = rs\<rparr>"

text \<open>One pass of the loop, with the durations collected so far.\<close>

definition add_result :: "case_result \<Rightarrow> bench_summary \<times> int64 list \<Rightarrow> bench_summary \<times> int64 list" where
  "add_result r sd =
     (case sd of (s, ds) \<Rightarrow>
       if cr_error r \<noteq> [] then (s\<lparr>bs_harness_errors := bs_harness_errors s + 1\<rparr>, ds)
       else
        (s\<lparr>bs_measured := bs_measured s + 1,
           bs_pipeline := (if cr_pipeline r then bs_pipeline s + 1 else bs_pipeline s),
           bs_task := (if cr_task r then bs_task s + 1 else bs_task s),
           bs_false := (if false_success r then bs_false s + 1 else bs_false s),
           bs_revised := (if 0 < cr_revisions r then bs_revised s + 1 else bs_revised s),
           bs_model_calls := bs_model_calls s + cr_model_calls r,
           bs_model_errors := bs_model_errors s + cr_model_errors r,
           bs_input_tokens := bs_input_tokens s + cr_input_tokens r,
           bs_output_tokens := bs_output_tokens s + cr_output_tokens r\<rparr>, ds @ [cr_duration_ms r]))"

definition rates :: "bench_summary \<Rightarrow> bench_summary" where
  "rates s =
     (if 0 < bs_measured s
      then s\<lparr>bs_pipeline_rate := ratio (int (bs_pipeline s)) (int (bs_measured s)),
             bs_task_rate := ratio (int (bs_task s)) (int (bs_measured s)),
             bs_false_rate := ratio (int (bs_false s)) (int (bs_measured s)),
             bs_revision_rate := ratio (int (bs_revised s)) (int (bs_measured s)),
             bs_mean_tokens := word_of_int (sint (bs_total_tokens s) sdiv int (bs_measured s))\<rparr>
      else s)"

definition priced :: "prices \<Rightarrow> bench_summary \<Rightarrow> bench_summary" where
  "priced p s =
     (if prices_set p then
        let c = cost_of p (bs_input_tokens s) (bs_output_tokens s) in
        s\<lparr>bs_cost := Some c,
          bs_mean_cost := (if 0 < bs_measured s then Some (fl_div c (fl_of_int (int (bs_measured s)))) else None)\<rparr>
      else s)"

definition summarize_results :: "case_result list \<Rightarrow> prices \<Rightarrow> bench_summary" where
  "summarize_results rs p =
     (case fold add_result rs (no_summary rs, []) of (s, ds) \<Rightarrow>
        priced p (rates (s\<lparr>bs_total_tokens := bs_input_tokens s + bs_output_tokens s, bs_duration := percentiles_of ds\<rparr>)))"

definition stale_server_tokens :: "bench_summary \<Rightarrow> bool" where
  "stale_server_tokens s = (0 < sint (bs_model_calls s) \<and> bs_total_tokens s = 0)"

text \<open>How \<open>cmd/rojo-bench\<close> ends.\<close>

definition bench_exit :: "bench_summary \<Rightarrow> int" where
  "bench_exit s = (if 0 < bs_false s then 2 else if 0 < bs_harness_errors s then 1 else 0)"

subsection \<open>What the numbers mean\<close>

abbreviation measured :: "case_result list \<Rightarrow> case_result list" where
  "measured \<equiv> filter (\<lambda>r. cr_error r = [])"

lemma add_result_fields:
  "bs_cases (fst (add_result r sd)) = bs_cases (fst sd)"
  "bs_measured (fst (add_result r sd)) = bs_measured (fst sd) + (if cr_error r = [] then 1 else 0)"
  "bs_harness_errors (fst (add_result r sd)) = bs_harness_errors (fst sd) + (if cr_error r = [] then 0 else 1)"
  "bs_pipeline (fst (add_result r sd)) = bs_pipeline (fst sd) + (if cr_error r = [] \<and> cr_pipeline r then 1 else 0)"
  "bs_task (fst (add_result r sd)) = bs_task (fst sd) + (if cr_error r = [] \<and> cr_task r then 1 else 0)"
  "bs_false (fst (add_result r sd)) = bs_false (fst sd) + (if cr_error r = [] \<and> false_success r then 1 else 0)"
  "snd (add_result r sd) = snd sd @ (if cr_error r = [] then [cr_duration_ms r] else [])"
  by (simp_all add: add_result_def split: prod.splits)

lemma fold_add_result:
  "bs_cases (fst (fold add_result rs sd)) = bs_cases (fst sd)"
  "bs_measured (fst (fold add_result rs sd)) = bs_measured (fst sd) + length (measured rs)"
  "bs_harness_errors (fst (fold add_result rs sd)) + length (measured rs) = bs_harness_errors (fst sd) + length rs"
  "bs_pipeline (fst (fold add_result rs sd)) = bs_pipeline (fst sd) + length (filter cr_pipeline (measured rs))"
  "bs_task (fst (fold add_result rs sd)) = bs_task (fst sd) + length (filter cr_task (measured rs))"
  "bs_false (fst (fold add_result rs sd)) = bs_false (fst sd) + length (filter false_success (measured rs))"
  "snd (fold add_result rs sd) = snd sd @ map cr_duration_ms (measured rs)"
  by (induction rs arbitrary: sd) (simp_all add: add_result_fields)

lemma priced_rates_counts [simp]:
  "bs_cases (priced p s) = bs_cases s" "bs_measured (priced p s) = bs_measured s"
  "bs_harness_errors (priced p s) = bs_harness_errors s" "bs_pipeline (priced p s) = bs_pipeline s"
  "bs_task (priced p s) = bs_task s" "bs_false (priced p s) = bs_false s" "bs_duration (priced p s) = bs_duration s"
  "bs_cases (rates s) = bs_cases s" "bs_measured (rates s) = bs_measured s"
  "bs_harness_errors (rates s) = bs_harness_errors s" "bs_pipeline (rates s) = bs_pipeline s"
  "bs_task (rates s) = bs_task s" "bs_false (rates s) = bs_false s" "bs_duration (rates s) = bs_duration s"
  by (simp_all add: priced_def rates_def Let_def)

lemma summary_fields:
  "bs_cases (summarize_results rs p) = length rs"
  "bs_measured (summarize_results rs p) = length (measured rs)"
  "bs_task (summarize_results rs p) = length (filter cr_task (measured rs))"
  "bs_false (summarize_results rs p) = length (filter false_success (measured rs))"
  "bs_harness_errors (summarize_results rs p) + length (measured rs) = length rs"
  "bs_pipeline (summarize_results rs p) = length (filter cr_pipeline (measured rs))"
  "bs_duration (summarize_results rs p) = percentiles_of (map cr_duration_ms (measured rs))"
proof -
  obtain s ds where f: "fold add_result rs (no_summary rs, []) = (s, ds)" by (cases "fold add_result rs (no_summary rs, [])")
  have z: "bs_cases (no_summary rs) = length rs" "bs_measured (no_summary rs) = 0" "bs_harness_errors (no_summary rs) = 0"
    "bs_pipeline (no_summary rs) = 0" "bs_task (no_summary rs) = 0" "bs_false (no_summary rs) = 0"
    by (simp_all add: no_summary_def)
  note g = fold_add_result [of rs "(no_summary rs, [])", unfolded f fst_conv snd_conv z]
  show "bs_cases (summarize_results rs p) = length rs" "bs_measured (summarize_results rs p) = length (measured rs)"
    "bs_task (summarize_results rs p) = length (filter cr_task (measured rs))"
    "bs_false (summarize_results rs p) = length (filter false_success (measured rs))"
    "bs_harness_errors (summarize_results rs p) + length (measured rs) = length rs"
    "bs_pipeline (summarize_results rs p) = length (filter cr_pipeline (measured rs))"
    "bs_duration (summarize_results rs p) = percentiles_of (map cr_duration_ms (measured rs))"
    using g by (simp_all add: summarize_results_def f)
qed

text \<open>
  The summary counts what was measured and nothing else.  Every case is either measured or a harness error; the counts
  are those of the measured cases, and the pipeline's successes that are not false are at most the tasks done.
\<close>

lemma summary_counts:
  "(let s = summarize_results rs p in
     bs_cases s = length rs \<and> bs_measured s + bs_harness_errors s = bs_cases s \<and>
     bs_measured s = length (measured rs) \<and> bs_pipeline s = length (filter cr_pipeline (measured rs)) \<and>
     bs_task s = length (filter cr_task (measured rs)) \<and>
     bs_false s = length (filter false_success (measured rs)) \<and>
     bs_pipeline s \<le> bs_false s + bs_task s \<and>
     bs_duration s = percentiles_of (map cr_duration_ms (measured rs)))"
proof -
  have le: "length (filter cr_pipeline xs) \<le> length (filter false_success xs) + length (filter cr_task xs)" for xs
    by (induction xs) (auto simp: false_success_def)
  note c = summary_fields [of rs p]
  show ?thesis
    unfolding Let_def c(1-4,6,7) using c(5) le [of "measured rs"] by (intro conjI refl) linarith+
qed

text \<open>
  A benchmark that ends with exit code 0 found no false success.  Every case that ran was measured, and each job that reported
  success had done its task.
\<close>

lemma exit_zero_means_honest:
  "bench_exit (summarize_results rs p) = 0 \<longleftrightarrow> list_all (\<lambda>r. cr_error r = [] \<and> \<not> false_success r) rs"
proof -
  have "length (measured rs) = length rs \<longleftrightarrow> measured rs = rs"
    by (metis filter_id_conv length_filter_less nat_less_le)
  then have e: "bs_harness_errors (summarize_results rs p) = 0 \<longleftrightarrow> (\<forall>r \<in> set rs. cr_error r = [])"
    using summary_fields(5) [of rs p] by (simp add: filter_id_conv) arith
  have "bench_exit (summarize_results rs p) = 0 \<longleftrightarrow>
      length (filter false_success (measured rs)) = 0 \<and> bs_harness_errors (summarize_results rs p) = 0"
    by (simp add: bench_exit_def summary_fields(4))
  then show ?thesis unfolding e by (auto simp: list_all_iff filter_empty_conv)
qed

subsection \<open>Percentiles\<close>

lemma fl_mul_int:
  assumes "0 \<le> q" "q \<le> 1" "0 \<le> n" "n \<le> 2 ^ 53"
  shows "fl_mul (Fin q) (fl_of_int n) = Fin (rnd (q * of_int n)) \<and> rnd (q * of_int n) \<le> of_int n"
proof -
  have le: "q * of_int n \<le> of_int n" "0 \<le> q * of_int n" using assms by (simp_all add: mult_left_le_one_le)
  have "rnd (q * of_int n) \<le> rnd (of_int n)" by (rule rnd_mono) (use le in simp_all)
  then have r: "rnd (q * of_int n) \<le> of_int n" "0 \<le> rnd (q * of_int n)"
    using assms le by (simp_all add: rnd_int rnd_nonneg)
  have "(2::int) ^ 53 < 2 ^ 1024" by (rule power_strict_increasing) simp_all
  with assms have "n < 2 ^ 1024" by linarith
  then have "(of_int n :: rat) < of_int (2 ^ 1024)" by (simp only: of_int_less_iff)
  then have "\<bar>rnd (q * of_int n)\<bar> < pow2 1024" using r by (simp add: pow2_def)
  with assms r show ?thesis by (simp add: fl_of_int_exact fl_round_def Let_def)
qed

lemma expo_unique:
  assumes "pow2 e \<le> \<bar>x\<bar>" and "\<bar>x\<bar> < pow2 (e + 1)"
  shows "expo x = e"
proof -
  have "0 < \<bar>x\<bar>" using assms(1) pow2_pos [of e] by linarith
  then have "x \<noteq> 0" by simp
  then have b: "pow2 (expo x) \<le> \<bar>x\<bar>" "\<bar>x\<bar> < pow2 (expo x + 1)" using expo_bounds by auto
  have "\<not> expo x + 1 \<le> e" using b(2) assms(1) pow2_mono [of "expo x + 1" e] by linarith
  moreover have "\<not> e + 1 \<le> expo x" using b(1) assms(2) pow2_mono [of "e + 1" "expo x"] by linarith
  ultimately show ?thesis by linarith
qed

lemma rnd_half:
  assumes "1 \<le> \<bar>n\<bar>" and "\<bar>n\<bar> \<le> 2 ^ 53"
  shows "rnd (of_int n / 2) = of_int n / 2"
proof -
  let ?x = "of_int n :: rat"
  have x: "?x \<noteq> 0" using assms by auto
  have b: "pow2 (expo ?x) \<le> \<bar>?x\<bar>" "\<bar>?x\<bar> < pow2 (expo ?x + 1)" using expo_bounds [OF x] by auto
  have two: "pow2 (m - 1) = pow2 m / 2" for m using pow2_add [of "m - 1" 1] by (simp add: pow2_def [of 1])
  have e: "expo (?x / 2) = expo ?x - 1"
    by (rule expo_unique) (use b two [of "expo ?x"] two [of "expo ?x + 1"] in \<open>simp_all add: field_simps\<close>)
  have "(1::rat) \<le> of_int \<bar>n\<bar>" using assms(1) by (metis of_int_1 of_int_le_iff)
  then have "pow2 0 < pow2 (expo ?x + 1)" using b(2) by (simp add: pow2_def [of 0])
  then have "0 \<le> expo ?x" using pow2_mono [of "expo ?x + 1" 0] by linarith
  then have q: "quantum (?x / 2) = quantum ?x - 1" by (simp add: quantum_def e)
  have "?x / 2 / pow2 (quantum ?x - 1) = ?x / pow2 (quantum ?x)" by (simp add: two [of "quantum ?x"])
  then have "rnd (?x / 2) = rnd ?x / 2" using x by (simp only: rnd_def q) (simp add: two [of "quantum ?x"])
  then show ?thesis using assms(2) by (simp add: rnd_int)
qed

lemma p95_value: "\<exists>q. p95 = Fin q \<and> 1 / 2 \<le> q \<and> q \<le> 1"
proof -
  have "rnd (1 / 2) \<le> rnd (19 / 20)" "rnd (19 / 20) \<le> rnd 1" by (rule rnd_mono; simp)+
  then have b: "1 / 2 \<le> rnd (19 / 20)" "rnd (19 / 20) \<le> 1"
    using rnd_half [of 1] rnd_int [of 1] by simp_all
  moreover have "(1::rat) < pow2 1024" by (simp add: pow2_def)
  ultimately have "\<bar>rnd (19 / 20)\<bar> < pow2 1024" by linarith
  with b show ?thesis by (simp add: p95_def fl_round_def Let_def)
qed

definition rank_of :: "rat \<Rightarrow> nat \<Rightarrow> nat" where
  "rank_of q n = nat (min (int n) (max 1 \<lceil>rnd (q * of_nat n)\<rceil>) - 1)"

lemma nearest_rank_nth:
  assumes "0 \<le> q" "q \<le> 1" "int (length s) \<le> 2 ^ 53"
  shows "nearest_rank s (Fin q) = s ! rank_of q (length s)"
  using fl_mul_int [OF assms(1,2) _ assms(3)]
  by (simp add: nearest_rank_def rank_of_def Let_def min_def max_def not_less)

lemma rank_of_bounds: "0 < n \<Longrightarrow> rank_of q n < n"
  by (simp add: rank_of_def)

lemma rank_of_mono: "0 \<le> q \<Longrightarrow> q \<le> q' \<Longrightarrow> rank_of q n \<le> rank_of q' n"
proof -
  assume q: "0 \<le> q" "q \<le> q'"
  have "rnd (q * of_nat n) \<le> rnd (q' * of_nat n)" by (rule rnd_mono) (use q in \<open>simp_all add: mult_right_mono\<close>)
  then have "\<lceil>rnd (q * of_nat n)\<rceil> \<le> \<lceil>rnd (q' * of_nat n)\<rceil>" by (rule ceiling_mono)
  then have "min (int n) (max 1 \<lceil>rnd (q * of_nat n)\<rceil>) \<le> min (int n) (max 1 \<lceil>rnd (q' * of_nat n)\<rceil>)"
    by (intro min.mono max.mono) simp_all
  then show ?thesis unfolding rank_of_def by (intro nat_mono) linarith
qed

lemma rank_of_half:
  assumes "0 < n" and "int n \<le> 2 ^ 53"
  shows "rank_of (1 / 2) n = (n - 1) div 2"
proof -
  have "rnd (of_int (int n) / 2) = of_int (int n) / 2" using assms by (intro rnd_half) auto
  then have "rnd (1 / 2 * of_nat n) = (of_nat n :: rat) / 2" by simp
  then have "\<lceil>rnd (1 / 2 * of_nat n)\<rceil> = \<lceil>(of_nat n :: rat) / 2\<rceil>" by (simp only:)
  also have "\<dots> = int ((n + 1) div 2)"
  proof (cases "even n")
    case True
    then obtain m where "n = 2 * m" by blast
    then show ?thesis by simp
  next
    case False
    then obtain m where m: "n = 2 * m + 1" by (blast elim: oddE)
    have "\<lceil>(of_nat n :: rat) / 2\<rceil> = int m + 1" by (rule ceiling_unique) (simp_all add: m field_simps)
    then show ?thesis by (simp add: m)
  qed
  finally show ?thesis using assms(1) by (simp add: rank_of_def min_def max_def) linarith
qed

lemma sorted_sint: "i \<le> j \<Longrightarrow> j < length vs \<Longrightarrow> sint (sort_key sint vs ! i) \<le> sint (sort_key sint vs ! j)"
  using sorted_nth_mono [of "map sint (sort_key sint vs)" i j] by simp

text \<open>
  The percentiles are durations that were observed, in order.  For up to \<open>2^53\<close> samples the four are samples, the smallest is a lower
  bound and the largest an upper bound of all, and the middle one is the lower median of the sorted samples.
\<close>

lemma percentiles_observed:
  assumes "vs \<noteq> []" and "int (length vs) \<le> 2 ^ 53"
  shows "let p = percentiles_of vs in
    {pc_min p, pc_p50 p, pc_p95 p, pc_max p} \<subseteq> set vs \<and>
    sint (pc_min p) \<le> sint (pc_p50 p) \<and> sint (pc_p50 p) \<le> sint (pc_p95 p) \<and> sint (pc_p95 p) \<le> sint (pc_max p) \<and>
    list_all (\<lambda>v. sint (pc_min p) \<le> sint v \<and> sint v \<le> sint (pc_max p)) vs \<and>
    pc_p50 p = sort_key sint vs ! ((length vs - 1) div 2)"
proof -
  let ?s = "sort_key sint vs" and ?n = "length vs"
  have n: "0 < ?n" and s: "?s \<noteq> []" using assms(1) by (auto simp flip: length_greater_0_conv)
  obtain q where q: "p95 = Fin q" "1 / 2 \<le> q" "q \<le> 1" using p95_value by blast
  let ?i = "rank_of (1 / 2) ?n" and ?j = "rank_of q ?n"
  have ij: "?i \<le> ?j" "?j < ?n" using q rank_of_mono [of "1 / 2" q ?n] rank_of_bounds [OF n] by auto
  have p: "pc_min (percentiles_of vs) = ?s ! 0" "pc_max (percentiles_of vs) = ?s ! (?n - 1)"
    "pc_p50 (percentiles_of vs) = ?s ! ?i" "pc_p95 (percentiles_of vs) = ?s ! ?j"
    using assms q s nearest_rank_nth [of "1 / 2" ?s] nearest_rank_nth [of q ?s]
    by (simp_all add: percentiles_of_def Let_def hd_conv_nth last_conv_nth one_half_def)
  have mem: "k < ?n \<Longrightarrow> ?s ! k \<in> set vs" for k by (metis length_sort nth_mem set_sort)
  have all: "\<forall>v \<in> set vs. sint (?s ! 0) \<le> sint v \<and> sint v \<le> sint (?s ! (?n - 1))"
  proof
    fix v assume "v \<in> set vs"
    then obtain k where "k < ?n" "?s ! k = v" by (metis in_set_conv_nth length_sort set_sort)
    then show "sint (?s ! 0) \<le> sint v \<and> sint v \<le> sint (?s ! (?n - 1))"
      using sorted_sint [of 0 k vs] sorted_sint [of k "?n - 1" vs] by auto
  qed
  show ?thesis
    unfolding Let_def p using ij n mem all rank_of_half [OF n assms(2)]
      sorted_sint [of 0 ?i vs] sorted_sint [of ?i ?j vs] sorted_sint [of ?j "?n - 1" vs]
    by (auto simp: list_all_iff)
qed

theorem percentiles_observed_witness:
  "let p = percentiles_of [30, 10, 20] in sint (pc_min p) \<le> sint (pc_p50 p) \<and> pc_p50 p = sort_key sint [30, 10, 20] ! 1"
  using percentiles_observed [of "[30, 10, 20]"] by (simp add: Let_def)

end
