(* ===== verification/Benchmark.thy ===== *)
theory Benchmark
  imports Benchmark_Report Rojo_Client Execution Fanout
begin

text \<open>
  The harness \<open>internal/benchmark/\<close>: its client (\<open>client.go\<close>), the cases (\<open>case.go\<close>), the check of a patch against the hidden
  assertion (\<open>verify.go\<close>) and the run of a case (\<open>run.go\<close>).  The host's files, commands and clock are read from a world \<open>'w\<close>.
\<close>

subsection \<open>The client (\<open>client.go\<close>)\<close>

record bench_metrics =
  bm_calls :: int64
  bm_errors :: int64
  bm_input :: int64
  bm_output :: int64

record 'w bench_client =
  bc_http :: "'w http_client"
  bc_metrics :: "http_response \<Rightarrow> bench_metrics result"

definition bench_do ::
    "'w http_client \<Rightarrow> string \<Rightarrow> string \<Rightarrow> (string \<times> string) list option \<Rightarrow> 'w \<Rightarrow> 'w \<times> http_response result" where
  "bench_do = send_request '' (start it with `bin/rojo-api`)''"

definition decode_into :: "(http_response \<Rightarrow> 'a result) option \<Rightarrow> 'a \<Rightarrow> http_response \<Rightarrow> 'a result" where
  "decode_into out zero r =
     (if 400 \<le> hs_status r
      then Inl (Errorf ''HTTP %d: %s'' [FInt (hs_status r), FStr (trim_space (take 8192 (hs_body r)))])
      else case out of None \<Rightarrow> Inr zero | Some f \<Rightarrow> f r)"

definition bench_create :: "'w http_client \<Rightarrow> string \<Rightarrow> string \<Rightarrow> 'w \<Rightarrow> 'w \<times> client_job result" where
  "bench_create c t repo =
     call_api (bench_do c ''POST'' jobs_path (Some [(''task'', t), (''repo_path'', repo)]))
       (decode_into (Some (wi_job (hc_wire c))) no_job) (\<lambda>e. Errorf ''create job: %w'' [FW e])"

definition bench_get :: "'w http_client \<Rightarrow> string \<Rightarrow> 'w \<Rightarrow> 'w \<times> client_job result" where
  "bench_get c k =
     call_api (bench_do c ''GET'' (jobs_path @ ''/'' @ k) None)
       (decode_into (Some (wi_job (hc_wire c))) no_job) (\<lambda>e. Errorf ''get job %s: %w'' [FStr k, FW e])"

definition bench_events :: "'w http_client \<Rightarrow> string \<Rightarrow> 'w \<Rightarrow> 'w \<times> event list result" where
  "bench_events c k =
     call_api (bench_do c ''GET'' (jobs_path @ ''/'' @ k @ ''/events'') None)
       (decode_into (Some (wi_events (hc_wire c))) []) (\<lambda>e. Errorf ''events for %s: %w'' [FStr k, FW e])"

definition bench_diff :: "'w http_client \<Rightarrow> string \<Rightarrow> 'w \<Rightarrow> 'w \<times> string result" where
  "bench_diff c k =
     call_api (bench_do c ''GET'' (jobs_path @ ''/'' @ k @ ''/diff'') None)
       (patch_of (\<lambda>r. Errorf ''diff for %s: HTTP %d: %s''
          [FStr k, FInt (hs_status r), FStr (trim_space (take 8192 (hs_body r)))])) (\<lambda>e. e)"

definition bench_metrics_of :: "'w bench_client \<Rightarrow> 'w \<Rightarrow> 'w \<times> bench_metrics result" where
  "bench_metrics_of c =
     call_api (bench_do (bc_http c) ''GET'' ''/api/v1/metrics'' None)
       (decode_into (Some (bc_metrics c)) \<lparr>bm_calls = 0, bm_errors = 0, bm_input = 0, bm_output = 0\<rparr>)
       (\<lambda>e. Errorf ''metrics: %w'' [FW e])"

definition bench_health :: "'w bench_client \<Rightarrow> 'w \<Rightarrow> 'w \<times> go_err option" where
  "bench_health c w =
     (case call_api (bench_do (bc_http c) ''GET'' ''/healthz'' None) (decode_into None ()) (\<lambda>e. e) w of
        (w', Inl e) \<Rightarrow> (w', Some e) | (w', Inr _) \<Rightarrow> (w', None))"

definition bench_terminal :: "client_job \<Rightarrow> bool" where
  "bench_terminal j = (cj_status j \<in> {''completed'', ''failed'', ''cancelled''})"

text \<open>
  The loop of \<open>WaitForTerminal\<close>, with fuel.  \<open>pause\<close> waits for the ticker or the context; its second
  part tells that the context was chosen.
\<close>

definition gave_up :: "string \<Rightarrow> client_job \<Rightarrow> go_err \<Rightarrow> go_err" where
  "gave_up k last_job e =
     Errorf ''job %s still %s when the benchmark gave up: %w'' [FStr k, FStr (cj_status last_job), FW e]"

fun wait_loop ::
    "'w ctx \<Rightarrow> ('w \<Rightarrow> 'w \<times> bool) \<Rightarrow> 'w http_client \<Rightarrow> string \<Rightarrow> client_job \<Rightarrow> nat \<Rightarrow> 'w \<Rightarrow>
     ('w \<times> client_job \<times> go_err option) option" where
  "wait_loop ctx pause c k last_job 0 w = None"
| "wait_loop ctx pause c k last_job (Suc n) w =
     (case bench_get c k w of
        (w1, Inl e) \<Rightarrow>
          (case ctx w1 of
             Some x \<Rightarrow> Some (w1, last_job, Some (gave_up k last_job x))
           | None \<Rightarrow> Some (w1, no_job, Some e))
      | (w1, Inr j) \<Rightarrow>
          if bench_terminal j then Some (w1, j, None)
          else (case pause w1 of (w2, done) \<Rightarrow>
            (case (if done then ctx w2 else None) of
               Some x \<Rightarrow> Some (w2, j, Some (gave_up k j x))
             | None \<Rightarrow> wait_loop ctx pause c k j n w2)))"

definition wait_for_terminal ::
    "'w ctx \<Rightarrow> ('w \<Rightarrow> 'w \<times> bool) \<Rightarrow> 'w http_client \<Rightarrow> string \<Rightarrow> nat \<Rightarrow> 'w \<Rightarrow>
     ('w \<times> client_job \<times> go_err option) option" where
  "wait_for_terminal ctx pause c k = wait_loop ctx pause c k (no_job\<lparr>cj_id := k, cj_status := ''unknown''\<rparr>)"

subsection \<open>The cases (\<open>case.go\<close>)\<close>

record bench_case =
  bn_name :: string
  bn_task :: string
  bn_difficulty :: string
  bn_starts_red :: bool
  bn_repo :: "(string, string) amap"
  bn_assert :: "(string, string) amap"

text \<open>A fixture tree as \<open>io/fs\<close> shows it: directories list their entries by name.\<close>

datatype fixture = Fix_File string | Fix_Dir "(string \<times> fixture) list"

fun fx_find :: "fixture \<Rightarrow> string list \<Rightarrow> fixture option" where
  "fx_find f [] = Some f"
| "fx_find (Fix_File c) (n # ns) = None"
| "fx_find (Fix_Dir es) (n # ns) = (case aget es n of None \<Rightarrow> None | Some f \<Rightarrow> fx_find f ns)"

definition fx_open :: "fixture \<Rightarrow> string \<Rightarrow> fixture option" where
  "fx_open fs p = fx_find fs (split_on (CHR ''/'') p)"

definition fx_not_exist :: "string \<Rightarrow> string \<Rightarrow> go_err" where
  "fx_not_exist op p = Errorf (op @ '' %s: %w'') [FStr p, FW (Sentinel ErrNotExist)]"

definition fx_read_file :: "fixture \<Rightarrow> string \<Rightarrow> string result" where
  "fx_read_file fs p =
     (case fx_open fs p of
        Some (Fix_File c) \<Rightarrow> Inr c
      | Some (Fix_Dir es) \<Rightarrow> Inl (Errorf ''read %s: is a directory'' [FStr p])
      | None \<Rightarrow> Inl (fx_not_exist ''open'' p))"

definition fx_read_dir :: "fixture \<Rightarrow> string \<Rightarrow> (string \<times> fixture) list result" where
  "fx_read_dir fs p =
     (case fx_open fs p of
        Some (Fix_Dir es) \<Rightarrow> Inr es
      | Some (Fix_File c) \<Rightarrow> Inl (Errorf ''read %s: not a directory'' [FStr p])
      | None \<Rightarrow> Inl (fx_not_exist ''open'' p))"

definition ignored_fixture_file :: "string \<Rightarrow> bool" where
  "ignored_fixture_file n = (has_prefix n ''.'' \<or> has_prefix n ''_'')"

definition slash_path :: "string list \<Rightarrow> string" where
  "slash_path = join_with ''/''"

text \<open>The files that \<open>fs.WalkDir\<close> hands to \<open>readTree\<close>, by their path relative to the root.\<close>

fun walk_node :: "string \<Rightarrow> fixture \<Rightarrow> (string \<times> string) list"
and walk_entries :: "string \<Rightarrow> (string \<times> fixture) list \<Rightarrow> (string \<times> string) list" where
  "walk_node rel (Fix_File c) = [(rel, c)]"
| "walk_node rel (Fix_Dir es) = walk_entries rel es"
| "walk_entries rel [] = []"
| "walk_entries rel ((n, f) # es) =
     (if ignored_fixture_file n then [] else walk_node (if rel = ''.'' then n else slash_path [rel, n]) f) @
     walk_entries rel es"

definition base_name :: "string \<Rightarrow> string" where
  "base_name p = last (split_on (CHR ''/'') p)"

definition read_tree :: "fixture \<Rightarrow> string \<Rightarrow> (string, string) amap result" where
  "read_tree fs rt =
     (case fx_open fs rt of
        None \<Rightarrow> Inl (Errorf ''read %s: %w'' [FStr rt, FW (fx_not_exist ''stat'' rt)])
      | Some f \<Rightarrow>
          (case f of
             Fix_File c \<Rightarrow> Inr (if ignored_fixture_file (base_name rt) then [] else [(''.'', c)])
           | Fix_Dir es \<Rightarrow> Inr (fold (\<lambda>(p, c). aput p c) (walk_entries ''.'' es) [])))"

text \<open>\<open>json.Unmarshal\<close> of a case's description gives its name, task, difficulty and flag.\<close>

definition load_case :: "(string \<Rightarrow> bench_case result) \<Rightarrow> fixture \<Rightarrow> string \<Rightarrow> bench_case result" where
  "load_case unmarshal fs dir =
     (case fx_read_file fs (slash_path [dir, ''case.json'']) of
        Inl e \<Rightarrow> Inl (Errorf ''read %s/case.json: %w'' [FStr dir, FW e])
      | Inr meta \<Rightarrow> (case unmarshal meta of
            Inl e \<Rightarrow> Inl (Errorf ''parse %s/case.json: %w'' [FStr dir, FW e])
          | Inr c \<Rightarrow>
              if trim_space (bn_name c) = [] then Inl (Errorf ''%s/case.json has no name'' [FStr dir])
              else if trim_space (bn_task c) = [] then Inl (Errorf ''case %s has no task'' [FStr (bn_name c)])
              else (case read_tree fs (slash_path [dir, ''repo'']) of
                  Inl e \<Rightarrow> Inl e
                | Inr repo \<Rightarrow> (case read_tree fs (slash_path [dir, ''assert'']) of
                      Inl e \<Rightarrow> Inl e
                    | Inr asserts \<Rightarrow>
                        if repo = [] then Inl (Errorf ''case %s has an empty repo/'' [FStr (bn_name c)])
                        else if asserts = []
                        then Inl (Errorf ''case %s has an empty assert/: there would be no ground truth'' [FStr (bn_name c)])
                        else Inr (c\<lparr>bn_repo := repo, bn_assert := asserts\<rparr>)))))"

fun load_each ::
    "(string \<Rightarrow> bench_case result) \<Rightarrow> fixture \<Rightarrow> string \<Rightarrow> (string \<times> fixture) list \<Rightarrow> bench_case list result" where
  "load_each u fs dir [] = Inr []"
| "load_each u fs dir ((n, f) # es) =
     (case f of
        Fix_File c \<Rightarrow> load_each u fs dir es
      | Fix_Dir _ \<Rightarrow> (case load_case u fs (slash_path [dir, n]) of
            Inl e \<Rightarrow> Inl e
          | Inr c \<Rightarrow> (case load_each u fs dir es of Inl e \<Rightarrow> Inl e | Inr cs \<Rightarrow> Inr (c # cs))))"

definition load_cases :: "(string \<Rightarrow> bench_case result) \<Rightarrow> fixture \<Rightarrow> string \<Rightarrow> bench_case list result" where
  "load_cases u fs dir =
     (case fx_read_dir fs dir of
        Inl e \<Rightarrow> Inl (Errorf ''read case dir %s: %w'' [FStr dir, FW e])
      | Inr es \<Rightarrow> (case load_each u fs dir es of
            Inl e \<Rightarrow> Inl e
          | Inr cs \<Rightarrow> if cs = [] then Inl (Errorf ''no cases found under %s'' [FStr dir])
              else Inr (sort_key bn_name cs)))"

definition embedded_go_mod :: string where
  "embedded_go_mod = ''go.mod.txt''"

definition real_go_mod :: string where
  "real_go_mod = ''go.mod''"

definition materialized_name :: "string \<Rightarrow> string" where
  "materialized_name rel =
     (if rel = embedded_go_mod \<or> has_suffix rel (CHR ''/'' # embedded_go_mod)
      then trim_suffix rel embedded_go_mod @ real_go_mod else rel)"

text \<open>The host the harness runs on.\<close>

record 'w bench_host =
  ho_mkdir_temp :: "string \<Rightarrow> 'w \<Rightarrow> 'w \<times> string result"
  ho_mkdir_all :: "string \<Rightarrow> 'w \<Rightarrow> 'w \<times> go_err option"
  ho_write_file :: "string \<Rightarrow> string \<Rightarrow> 'w \<Rightarrow> 'w \<times> go_err option"
  ho_remove :: "string \<Rightarrow> 'w \<Rightarrow> 'w"
  ho_remove_all :: "string \<Rightarrow> 'w \<Rightarrow> 'w"
  ho_run :: "'w runner"
  ho_clock :: "'w \<Rightarrow> time"
  ho_pause :: "'w ctx \<Rightarrow> duration \<Rightarrow> 'w \<Rightarrow> 'w \<times> bool"

text \<open>Go iterates over a map in any order; here it is the order of the list.\<close>

fun write_tree :: "'w bench_host \<Rightarrow> string \<Rightarrow> (string \<times> string) list \<Rightarrow> 'w \<Rightarrow> 'w \<times> go_err option" where
  "write_tree h dir [] w = (w, None)"
| "write_tree h dir ((rel, content) # fs) w =
     (let full = path_join [dir, materialized_name rel] in
      case ho_mkdir_all h (path_dir full) w of
        (w1, Some e) \<Rightarrow> (w1, Some (Errorf ''create dir for %s: %w'' [FStr rel, FW e]))
      | (w1, None) \<Rightarrow> (case ho_write_file h full content w1 of
            (w2, Some e) \<Rightarrow> (w2, Some (Errorf ''write %s: %w'' [FStr rel, FW e]))
          | (w2, None) \<Rightarrow> write_tree h dir fs w2))"

fun git_steps :: "'w bench_host \<Rightarrow> 'w ctx \<Rightarrow> string \<Rightarrow> string list list \<Rightarrow> 'w \<Rightarrow> 'w \<times> go_err option" where
  "git_steps h ctx dir [] w = (w, None)"
| "git_steps h ctx dir (args # rest) w =
     (case ho_run h ctx dir ''git'' args w of
        (w1, r, Some e) \<Rightarrow> (w1, Some (Errorf ''git %s: %w'' [FStr (hd args), FW e]))
      | (w1, r, None) \<Rightarrow>
          if exit_code r \<noteq> 0
          then (w1, Some (Errorf ''git %s exited %d: %s'' [FStr (hd args), FInt (exit_code r), FStr (cmd_stderr r)]))
          else git_steps h ctx dir rest w1)"

definition init_steps :: "string \<Rightarrow> string list list" where
  "init_steps name =
     [[''init'', ''-b'', ''main''], [''config'', ''user.email'', ''benchmark@rojo.local''],
      [''config'', ''user.name'', ''rojo benchmark''], [''add'', ''-A''],
      [''commit'', ''-m'', ''benchmark fixture: '' @ name]]"

definition init_repo :: "'w bench_host \<Rightarrow> 'w ctx \<Rightarrow> bench_case \<Rightarrow> string \<Rightarrow> 'w \<Rightarrow> 'w \<times> go_err option" where
  "init_repo h ctx c dir w =
     (case write_tree h dir (bn_repo c) w of
        (w1, Some e) \<Rightarrow> (w1, Some e)
      | (w1, None) \<Rightarrow> git_steps h ctx dir (init_steps (bn_name c)) w1)"

subsection \<open>The ground truth (\<open>verify.go\<close>)\<close>

record ground_truth =
  gt_passed :: bool
  gt_stage :: string
  gt_output :: string

definition max_ground_truth_output :: int where
  "max_ground_truth_output = 4096"

text \<open>The output, and the error if there is one.\<close>

definition apply_patch :: "'w bench_host \<Rightarrow> 'w ctx \<Rightarrow> string \<Rightarrow> string \<Rightarrow> 'w \<Rightarrow> 'w \<times> string \<times> go_err option" where
  "apply_patch h ctx dir patch w =
     (let f = path_join [dir, ''.rojo-bench.patch''] in
      case ho_write_file h f patch w of
        (w1, Some e) \<Rightarrow> (w1, [], Some (Errorf ''write patch: %w'' [FW e]))
      | (w1, None) \<Rightarrow> (case ho_run h ctx dir ''git'' [''apply'', ''--whitespace=nowarn'', f] w1 of
            (w2, r, Some e) \<Rightarrow> (ho_remove h f w2, [], Some e)
          | (w2, r, None) \<Rightarrow>
              if exit_code r \<noteq> 0
              then (ho_remove h f w2, trim_space (cmd_stdout r @ [CHR 0x0A] @ cmd_stderr r),
                    Some (Errorf ''git apply exited %d'' [FInt (exit_code r)]))
              else (ho_remove h f w2, [], None)))"

definition run_assertions :: "'w bench_host \<Rightarrow> 'w ctx \<Rightarrow> string \<Rightarrow> 'w \<Rightarrow> 'w \<times> ground_truth result" where
  "run_assertions h ctx dir w =
     (case ho_run h ctx dir ''go'' [''test'', ''./...''] w of
        (w1, r, Some e) \<Rightarrow> (w1, Inl (Errorf ''run assertion tests: %w'' [FW e]))
      | (w1, r, None) \<Rightarrow>
          if exit_code r \<noteq> 0
          then (w1, Inr \<lparr>gt_passed = False, gt_stage = ''assert'',
                  gt_output = truncate_to (trim_space (cmd_stdout r @ [CHR 0x0A] @ cmd_stderr r)) max_ground_truth_output\<rparr>)
          else (w1, Inr \<lparr>gt_passed = True, gt_stage = [], gt_output = []\<rparr>))"

text \<open>The part of \<open>CheckPatch\<close> that works in the temporary directory.\<close>

definition overlay_and_test :: "'w bench_host \<Rightarrow> 'w ctx \<Rightarrow> bench_case \<Rightarrow> string \<Rightarrow> 'w \<Rightarrow> 'w \<times> ground_truth result" where
  "overlay_and_test h ctx c dir w =
     (case write_tree h dir (bn_assert c) w of
        (w1, Some e) \<Rightarrow> (w1, Inl e)
      | (w1, None) \<Rightarrow> run_assertions h ctx dir w1)"

definition check_in :: "'w bench_host \<Rightarrow> 'w ctx \<Rightarrow> bench_case \<Rightarrow> string \<Rightarrow> string \<Rightarrow> 'w \<Rightarrow> 'w \<times> ground_truth result" where
  "check_in h ctx c patch dir w =
     (case write_tree h dir (bn_repo c) w of
        (w1, Some e) \<Rightarrow> (w1, Inl e)
      | (w1, None) \<Rightarrow>
          if trim_space patch = [] then overlay_and_test h ctx c dir w1
          else (case apply_patch h ctx dir patch w1 of
            (w2, out, Some e) \<Rightarrow>
              (w2, Inr \<lparr>gt_passed = False, gt_stage = ''apply'', gt_output = truncate_to out max_ground_truth_output\<rparr>)
          | (w2, out, None) \<Rightarrow> overlay_and_test h ctx c dir w2))"

definition check_patch :: "'w bench_host \<Rightarrow> 'w ctx \<Rightarrow> bench_case \<Rightarrow> string \<Rightarrow> 'w \<Rightarrow> 'w \<times> ground_truth result" where
  "check_patch h ctx c patch w =
     (case ho_mkdir_temp h ''rojo-bench-verify-'' w of
        (w1, Inl e) \<Rightarrow> (w1, Inl (Errorf ''create verify dir: %w'' [FW e]))
      | (w1, Inr dir) \<Rightarrow> (case check_in h ctx c patch dir w1 of (w2, r) \<Rightarrow> (ho_remove_all h dir w2, r)))"

subsection \<open>Running the cases (\<open>run.go\<close>)\<close>

record 'w bench_runner =
  br_client :: "'w bench_client"
  br_host :: "'w bench_host"
  br_case_timeout :: duration
  br_poll :: duration

definition default_case_timeout :: duration where
  "default_case_timeout = 10 * minute"

definition case_timeout :: "'w bench_runner \<Rightarrow> duration" where
  "case_timeout r = (if br_case_timeout r \<le> 0 then default_case_timeout else br_case_timeout r)"

definition poll_interval :: "'w bench_runner \<Rightarrow> duration" where
  "poll_interval r = (if br_poll r \<le> 0 then 500 * 1000000 else br_poll r)"

definition count_revisions :: "event list \<Rightarrow> nat" where
  "count_revisions evs = length (filter (\<lambda>e. ev_type e = TypeRevisionRequested) evs)"

definition new_result :: "bench_case \<Rightarrow> case_result" where
  "new_result c =
     \<lparr>cr_case = bn_name c, cr_difficulty = bn_difficulty c, cr_job_id = [], cr_status = [], cr_pipeline = False,
      cr_task = False, cr_stage = [], cr_output = [], cr_revisions = 0, cr_duration_ms = 0, cr_model_calls = 0,
      cr_model_errors = 0, cr_input_tokens = 0, cr_output_tokens = 0, cr_patch_bytes = 0, cr_error = []\<rparr>"

definition failed_at :: "string \<Rightarrow> go_err \<Rightarrow> case_result \<Rightarrow> case_result" where
  "failed_at what e r = r\<lparr>cr_error := what @ '': '' @ err_text e\<rparr>"

text \<open>The last part: the patch and the ground truth.\<close>

definition score_patch :: "'w bench_runner \<Rightarrow> 'w ctx \<Rightarrow> bench_case \<Rightarrow> string \<Rightarrow> case_result \<Rightarrow> 'w \<Rightarrow> 'w \<times> case_result" where
  "score_patch br ctx c k res w =
     (case bench_diff (bc_http (br_client br)) k w of
        (w1, Inl e) \<Rightarrow> (w1, failed_at ''fetch diff'' e res)
      | (w1, Inr patch) \<Rightarrow>
          let res1 = res\<lparr>cr_patch_bytes := length patch\<rparr> in
          (case check_patch (br_host br) ctx c patch w1 of
             (w2, Inl e) \<Rightarrow> (w2, failed_at ''ground-truth check'' e res1)
           | (w2, Inr truth) \<Rightarrow>
               (w2, res1\<lparr>cr_task := gt_passed truth, cr_stage := gt_stage truth, cr_output := gt_output truth\<rparr>)))"

text \<open>The middle part: the revisions from the events, and the counters' differences, if they can be read.\<close>

definition measure_case ::
    "'w bench_runner \<Rightarrow> 'w ctx \<Rightarrow> bench_case \<Rightarrow> bench_metrics \<Rightarrow> string \<Rightarrow> case_result \<Rightarrow> 'w \<Rightarrow> 'w \<times> case_result" where
  "measure_case br ctx c before k res w =
     (case bench_events (bc_http (br_client br)) k w of (w1, re) \<Rightarrow>
       (case bench_metrics_of (br_client br) w1 of (w2, rm) \<Rightarrow>
         score_patch br ctx c k
          (let r1 = (case re of Inl e \<Rightarrow> res | Inr evs \<Rightarrow> res\<lparr>cr_revisions := count_revisions evs\<rparr>) in
           case rm of
             Inl e \<Rightarrow> r1
           | Inr after \<Rightarrow>
               r1\<lparr>cr_model_calls := bm_calls after - bm_calls before, cr_model_errors := bm_errors after - bm_errors before,
                  cr_input_tokens := bm_input after - bm_input before, cr_output_tokens := bm_output after - bm_output before\<rparr>)
          w2))"

definition run_in ::
    "'w bench_runner \<Rightarrow> nat \<Rightarrow> 'w ctx \<Rightarrow> bench_case \<Rightarrow> bench_metrics \<Rightarrow> string \<Rightarrow> 'w \<Rightarrow> ('w \<times> case_result) option" where
  "run_in br fuel ctx c before repo w =
     (case init_repo (br_host br) ctx c repo w of
        (w1, Some e) \<Rightarrow> Some (w1, failed_at ''prepare fixture repo'' e (new_result c))
      | (w1, None) \<Rightarrow> (case bench_create (bc_http (br_client br)) (bn_task c) repo w1 of
            (w2, Inl e) \<Rightarrow> Some (w2, failed_at ''submit job'' e (new_result c))
          | (w2, Inr j) \<Rightarrow>
              let res = (new_result c)\<lparr>cr_job_id := cj_id j\<rparr> in
              (case wait_for_terminal ctx (ho_pause (br_host br) ctx (poll_interval br)) (bc_http (br_client br)) (cj_id j) fuel w2 of
                 None \<Rightarrow> None
               | Some (w3, final, Some e) \<Rightarrow> Some (w3, failed_at ''wait for job'' e (res\<lparr>cr_status := cj_status final\<rparr>))
               | Some (w3, final, None) \<Rightarrow>
                   Some (measure_case br ctx c before (cj_id j)
                     (res\<lparr>cr_status := cj_status final, cr_pipeline := (cj_status final = ''completed''),
                          cr_duration_ms := word_of_int (milliseconds (cj_updated_at final - cj_created_at final))\<rparr>) w3))))"

definition run_case :: "'w bench_runner \<Rightarrow> nat \<Rightarrow> 'w ctx \<Rightarrow> bench_case \<Rightarrow> 'w \<Rightarrow> ('w \<times> case_result) option" where
  "run_case br fuel parent c w =
     (let ctx = with_timeout (ho_clock (br_host br)) (case_timeout br) w parent in
      case bench_metrics_of (br_client br) w of
        (w1, Inl e) \<Rightarrow> Some (w1, failed_at ''read metrics before the case'' e (new_result c))
      | (w1, Inr before) \<Rightarrow> (case ho_mkdir_temp (br_host br) ''rojo-bench-repo-'' w1 of
            (w2, Inl e) \<Rightarrow> Some (w2, failed_at ''create repo dir'' e (new_result c))
          | (w2, Inr repo) \<Rightarrow>
              map_option (\<lambda>(w3, r). (ho_remove_all (br_host br) repo w3, r)) (run_in br fuel ctx c before repo w2)))"

fun run_cases :: "'w bench_runner \<Rightarrow> nat \<Rightarrow> 'w ctx \<Rightarrow> bench_case list \<Rightarrow> 'w \<Rightarrow> ('w \<times> case_result list) option" where
  "run_cases br fuel ctx [] w = Some (w, [])"
| "run_cases br fuel ctx (c # cs) w =
     (case run_case br fuel ctx c w of
        None \<Rightarrow> None
      | Some (w1, r) \<Rightarrow>
          if ctx w1 \<noteq> None then Some (w1, [r])
          else map_option (\<lambda>(w2, rs). (w2, r # rs)) (run_cases br fuel ctx cs w1))"

text \<open>\<open>want\<close> is the set of the names still to be found; a missing one is an error that lists them.\<close>

fun pick_cases :: "bench_case list \<Rightarrow> string list \<Rightarrow> bench_case list \<times> string list" where
  "pick_cases [] want = ([], want)"
| "pick_cases (c # cs) want =
     (if bn_name c \<in> set want
      then (case pick_cases cs (removeAll (bn_name c) want) of (out, left) \<Rightarrow> (c # out, left))
      else pick_cases cs want)"

definition filter_cases :: "bench_case list \<Rightarrow> string list \<Rightarrow> bench_case list result" where
  "filter_cases cs only =
     (if only = [] then Inr cs
      else case pick_cases cs (remdups (filter (\<lambda>n. n \<noteq> []) (map trim_space only))) of
        (out, left) \<Rightarrow>
          if left \<noteq> [] then Inl (Errorf ''no such case: %s'' [FStr (join_with '', '' left)]) else Inr out)"

definition git_and_go_runner :: "'w runner \<Rightarrow> duration \<Rightarrow> ('w \<Rightarrow> time) \<Rightarrow> 'w safe_runner" where
  "git_and_go_runner exec d clk = new_safe_runner exec [''git'', ''go''] (if d \<le> 0 then 5 * minute else d) clk"

end
