(* ===== verification/Benchmark_Props.thy ===== *)
theory Benchmark_Props
  imports Benchmark
begin

text \<open>
  What the harness guarantees: the wait for a job ends, a case counts as done only if its hidden assertion ran and
  passed, and what it never does is cancel a job.
\<close>

subsection \<open>Waiting ends\<close>

lemma wait_loop_returns:
  assumes ctx: "ctx = with_timeout clk d w0 parent"
    and get: "\<And>w w' r. bench_get c k w = (w', r) \<Longrightarrow> clk w \<le> clk w' \<and> (ctx w \<noteq> None \<longrightarrow> (\<exists>e. r = Inl e))"
    and pause: "\<And>w w' b. pause w = (w', b) \<Longrightarrow> clk w + poll \<le> clk w' \<or> b \<and> ctx w' \<noteq> None"
  shows "clk w0 + d \<le> clk w + int n * poll \<Longrightarrow> wait_loop ctx pause c k j (Suc n) w \<noteq> None"
proof (induction n arbitrary: j w)
  case 0
  then have "ctx w \<noteq> None" by (simp add: ctx with_timeout_def split: option.splits)
  moreover obtain w1 r where g: "bench_get c k w = (w1, r)" by (cases "bench_get c k w")
  ultimately obtain e where "r = Inl e" using get [OF g] by blast
  with g show ?case by (auto split: option.splits)
next
  case (Suc n)
  obtain w1 r where g: "bench_get c k w = (w1, r)" by (cases "bench_get c k w")
  show ?case
  proof (cases r)
    case (Inl e)
    with g show ?thesis by (auto split: option.splits)
  next
    case (Inr j')
    obtain w2 b where p: "pause w1 = (w2, b)" by (cases "pause w1")
    show ?thesis
    proof (cases "b \<and> ctx w2 \<noteq> None")
      case True
      with g Inr p show ?thesis by auto
    next
      case False
      have "clk w0 + d \<le> clk w2 + int n * poll"
        using Suc.prems get [OF g] pause [OF p] False by (auto simp: algebra_simps)
      from Suc.IH [OF this, of j'] g Inr p False show ?thesis by (auto split: option.splits if_splits)
    qed
  qed
qed


text \<open>A server whose job never ends, on a world that is the time; a request after the time 1000 fails.\<close>

definition endless_client :: "int http_client" where
  "endless_client =
     \<lparr>hc_base = [], hc_token = [],
      hc_transport = \<lparr>tp_build = (\<lambda>m u. None),
        tp_do = (\<lambda>q w. (w, if 1000 \<le> w then Inl (Sentinel CtxDeadlineExceeded)
          else Inr \<lparr>hs_status = 200, hs_header = [], hs_body = [], hs_read_err = None\<rparr>))\<rparr>,
      hc_wire = \<lparr>wi_encode = (\<lambda>kvs. Inr []), wi_job = (\<lambda>r. Inr (no_job\<lparr>cj_status := ''verifying''\<rparr>)),
        wi_jobs = (\<lambda>r. Inr []), wi_events = (\<lambda>r. Inr []), wi_error = (\<lambda>b. None)\<rparr>\<rparr>"

lemma endless_get: "bench_get endless_client k w = (w', r) \<Longrightarrow> w' = w \<and> (1000 \<le> w \<longrightarrow> (\<exists>e. r = Inl e))"
  unfolding bench_get_def call_api_def bench_do_def send_request_def
  by (auto simp: endless_client_def split: if_splits)


subsection \<open>A task counts as done only if its assertion passed\<close>

text \<open>
  A host whose writes can be read back and disturb no other path; \<open>rd\<close> reads a file.
\<close>

definition faithful :: "'w bench_host \<Rightarrow> (string \<Rightarrow> 'w \<Rightarrow> string option) \<Rightarrow> bool" where
  "faithful h rd \<longleftrightarrow>
     (\<forall>p b w w'. ho_write_file h p b w = (w', None) \<longrightarrow> rd p w' = Some b \<and> (\<forall>q. q \<noteq> p \<longrightarrow> rd q w' = rd q w)) \<and>
     (\<forall>p q w. rd q (fst (ho_mkdir_all h p w)) = rd q w)"

definition target :: "string \<Rightarrow> string \<times> string \<Rightarrow> string" where
  "target dir f = path_join [dir, materialized_name (fst f)]"

lemma write_tree_reads:
  assumes "faithful h rd" and "write_tree h dir fs w = (w', None)" and "distinct (map (target dir) fs)"
  shows "(\<forall>f \<in> set fs. rd (target dir f) w' = Some (snd f)) \<and>
    (\<forall>q. q \<notin> target dir ` set fs \<longrightarrow> rd q w' = rd q w)"
  using assms(2,3)
proof (induction fs arbitrary: w)
  case (Cons f fs)
  obtain rel content where f: "f = (rel, content)" by (cases f)
  let ?p = "target dir f"
  obtain w1 e1 where m: "ho_mkdir_all h (path_dir ?p) w = (w1, e1)" by (cases "ho_mkdir_all h (path_dir ?p) w")
  with Cons.prems(1) have e1: "e1 = None" by (cases e1) (simp_all add: f target_def Let_def)
  obtain w2 e2 where wr: "ho_write_file h ?p content w1 = (w2, e2)" by (cases "ho_write_file h ?p content w1")
  with Cons.prems(1) m e1 have e2: "e2 = None" by (cases e2) (simp_all add: f target_def Let_def)
  with Cons.prems(1) m e1 wr have "write_tree h dir fs w2 = (w', None)" by (simp add: f target_def Let_def)
  with Cons have ih: "\<forall>g \<in> set fs. rd (target dir g) w' = Some (snd g)"
    "\<forall>q. q \<notin> target dir ` set fs \<longrightarrow> rd q w' = rd q w2" by simp_all
  have "rd ?p w2 = Some content" "\<forall>q. q \<noteq> ?p \<longrightarrow> rd q w2 = rd q w1" "\<forall>q. rd q w1 = rd q w"
    using assms(1) wr e2 m unfolding faithful_def by (metis fst_conv)+
  with ih Cons.prems(2) f show ?case by auto
qed simp


text \<open>A host for the examples: a flat file system, on which every command succeeds.\<close>

definition flat_host :: "(string, string) amap bench_host" where
  "flat_host =
     \<lparr>ho_mkdir_temp = (\<lambda>p w. (w, Inr (CHR ''/'' # p))), ho_mkdir_all = (\<lambda>p w. (w, None)),
      ho_write_file = (\<lambda>p b w. (aput p b w, None)), ho_remove = adel,
      ho_remove_all = (\<lambda>d w. filter (\<lambda>(p, b). \<not> has_prefix p d) w), ho_run = (\<lambda>ctx d c args w. (w, empty_result, None)),
      ho_clock = (\<lambda>w. 0), ho_pause = (\<lambda>ctx d w. (w, False))\<rparr>"

definition example_case :: bench_case where
  "example_case =
     \<lparr>bn_name = ''add'', bn_task = ''add a function'', bn_difficulty = [], bn_starts_red = False,
      bn_repo = [(''go.mod.txt'', ''module m'')], bn_assert = [(''a_test.go'', ''package m'')]\<rparr>"

lemma flat_write_tree: "\<exists>w'. write_tree flat_host dir fs w = (w', None)"
proof (induction fs arbitrary: w)
  case (Cons f fs)
  obtain rel content where f: "f = (rel, content)" by (cases f)
  let ?p = "path_join [dir, materialized_name rel]"
  have m: "ho_mkdir_all flat_host (path_dir ?p) w = (w, None)"
    and wr: "ho_write_file flat_host ?p content w = (aput ?p content w, None)" by (simp_all add: flat_host_def)
  show ?case using Cons.IH [of "aput ?p content w"] by (simp add: f m wr Let_def)
qed simp

lemma flat_faithful: "faithful flat_host (\<lambda>p w. aget w p)"
  by (auto simp: faithful_def flat_host_def)

lemma flat_check: "\<exists>w' gt. check_patch flat_host ctx c patch w = (w', Inr gt) \<and> gt_passed gt"
proof -
  have r: "ho_run flat_host ctx d x args v = (v, empty_result, None)" for d x args v by (simp add: flat_host_def)
  have ok: "exit_code empty_result = 0" by (simp add: empty_result_def)
  have o: "\<exists>w' gt. overlay_and_test flat_host ctx c d v = (w', Inr gt) \<and> gt_passed gt" for d v
  proof -
    obtain v1 where "write_tree flat_host d (bn_assert c) v = (v1, None)" using flat_write_tree by blast
    then show ?thesis by (simp add: overlay_and_test_def run_assertions_def r ok)
  qed
  have a: "\<exists>v'. apply_patch flat_host ctx d patch v = (v', [], None)" for d v
    by (simp add: apply_patch_def Let_def r ok flat_host_def)
  have i: "\<exists>w' gt. check_in flat_host ctx c patch d v = (w', Inr gt) \<and> gt_passed gt" for d v
  proof -
    obtain v1 where w: "write_tree flat_host d (bn_repo c) v = (v1, None)" using flat_write_tree by blast
    obtain v2 where p: "apply_patch flat_host ctx d patch v1 = (v2, [], None)" using a by blast
    show ?thesis using o [of d v1] o [of d v2] by (simp add: check_in_def w p)
  qed
  obtain dir where "ho_mkdir_temp flat_host ''rojo-bench-verify-'' w = (w, Inr dir)" by (simp add: flat_host_def)
  then show ?thesis using i [of dir w] by (auto simp: check_patch_def)
qed


lemma failed_at_simps [simp]:
  "cr_task (failed_at s e r) = cr_task r" "cr_pipeline (failed_at s e r) = cr_pipeline r"
  "cr_status (failed_at s e r) = cr_status r" "cr_error (failed_at s e r) \<noteq> []"
  by (simp_all add: failed_at_def)

text \<open>The shape of a result: what the report may rely on.\<close>

definition coherent :: "case_result \<Rightarrow> bool" where
  "coherent r \<longleftrightarrow>
     (cr_task r \<longrightarrow> cr_error r = []) \<and> (cr_pipeline r \<longrightarrow> cr_status r = ''completed'') \<and>
     (cr_error r = [] \<longrightarrow> cr_status r \<in> {''completed'', ''failed'', ''cancelled''} \<and>
        (cr_status r = ''completed'' \<longrightarrow> cr_pipeline r))"

definition ended_result :: "case_result \<Rightarrow> bool" where
  "ended_result r \<longleftrightarrow>
     cr_error r = [] \<and> \<not> cr_task r \<and> (cr_pipeline r \<longleftrightarrow> cr_status r = ''completed'') \<and>
     cr_status r \<in> {''completed'', ''failed'', ''cancelled''}"

lemma ended_result_updates [simp]:
  "ended_result (r\<lparr>cr_revisions := n\<rparr>) = ended_result r"
  "ended_result (r\<lparr>cr_model_calls := a, cr_model_errors := b, cr_input_tokens := i, cr_output_tokens := ou\<rparr>) = ended_result r"
  by (simp_all add: ended_result_def)

lemma score_patch_coherent: "ended_result res \<Longrightarrow> score_patch br ctx c k res w = (w', r) \<Longrightarrow> coherent r"
  by (auto simp: score_patch_def coherent_def ended_result_def Let_def split: prod.splits sum.splits)

lemma measure_coherent: "ended_result res \<Longrightarrow> measure_case br ctx c before k res w = (w', r) \<Longrightarrow> coherent r"
  unfolding measure_case_def Let_def by (auto split: prod.splits sum.splits elim!: score_patch_coherent [rotated])

lemma wait_loop_terminal:
  "wait_loop ctx pause c k j n w = Some (w', final, None) \<Longrightarrow> bench_terminal final"
  by (induction ctx pause c k j n w rule: wait_loop.induct) (auto split: prod.splits sum.splits option.splits if_splits)

lemma new_result_simps [simp]: "\<not> cr_task (new_result c)" "\<not> cr_pipeline (new_result c)"
  by (simp_all add: new_result_def)

lemma failed_at_coherent [simp]: "\<not> cr_task r \<Longrightarrow> \<not> cr_pipeline r \<Longrightarrow> coherent (failed_at s e r)"
  by (simp add: coherent_def)

lemma run_in_coherent:
  assumes "run_in br fuel ctx c before repo w = Some (w', r)"
  shows "coherent r"
  using assms unfolding run_in_def Let_def
  by (auto split: prod.splits option.splits sum.splits simp: wait_for_terminal_def bench_terminal_def
    ended_result_def new_result_def dest!: wait_loop_terminal elim!: measure_coherent [rotated])

text \<open>
  A result is coherent.  A task is never done in a case the harness failed on, a success of the pipeline
  is a job with status \<open>completed\<close> and, when the harness did not fail, the job had ended.
\<close>

lemma results_are_coherent:
  assumes "run_case br fuel ctx c w = Some (w', r)"
  shows "(cr_task r \<longrightarrow> cr_error r = []) \<and> (cr_pipeline r \<longrightarrow> cr_status r = ''completed'') \<and>
    (cr_error r = [] \<longrightarrow> cr_status r \<in> {''completed'', ''failed'', ''cancelled''} \<and>
       (cr_status r = ''completed'' \<longrightarrow> cr_pipeline r))"
proof -
  have "coherent r" using assms
    by (auto simp: run_case_def Let_def
      split: prod.splits sum.splits dest!: run_in_coherent)
  then show ?thesis by (simp add: coherent_def)
qed

definition offline_client :: "(string, string) amap http_client" where
  "offline_client =
     \<lparr>hc_base = [], hc_token = [],
      hc_transport = \<lparr>tp_build = (\<lambda>m u. None), tp_do = (\<lambda>q w. (w, Inl (Errorf ''connection refused'' [])))\<rparr>,
      hc_wire = \<lparr>wi_encode = (\<lambda>kvs. Inr []), wi_job = (\<lambda>r. Inr no_job), wi_jobs = (\<lambda>r. Inr []),
        wi_events = (\<lambda>r. Inr []), wi_error = (\<lambda>b. None)\<rparr>\<rparr>"

theorem results_are_coherent_witness:
  "let br = \<lparr>br_client = \<lparr>bc_http = offline_client, bc_metrics = (\<lambda>r. Inl (Sentinel ErrInvalidArg))\<rparr>, br_host = flat_host,
             br_case_timeout = 0, br_poll = 0\<rparr>
   in \<exists>w' r. run_case br 1 (\<lambda>w. None) example_case [] = Some (w', r) \<and> cr_error r \<noteq> [] \<and> \<not> cr_task r"
proof -
  let ?br = "\<lparr>br_client = \<lparr>bc_http = offline_client, bc_metrics = (\<lambda>r. Inl (Sentinel ErrInvalidArg))\<rparr>, br_host = flat_host,
             br_case_timeout = 0, br_poll = 0\<rparr>"
  have "\<exists>e. bench_metrics_of (br_client ?br) [] = ([], Inl e)"
    by (simp add: bench_metrics_of_def call_api_def bench_do_def send_request_def offline_client_def)
  then obtain e where m: "bench_metrics_of (br_client ?br) [] = ([], Inl e)" by blast
  then have r: "run_case ?br 1 (\<lambda>w. None) example_case [] = Some ([], failed_at ''read metrics before the case'' e (new_result example_case))"
    by (simp add: run_case_def Let_def)
  from results_are_coherent [OF r] r show ?thesis by simp
qed

subsection \<open>Loading and choosing cases\<close>

definition has_truth :: "bench_case \<Rightarrow> bool" where
  "has_truth c \<longleftrightarrow> trim_space (bn_name c) \<noteq> [] \<and> trim_space (bn_task c) \<noteq> [] \<and> bn_repo c \<noteq> [] \<and> bn_assert c \<noteq> []"

lemma load_case_truth: "load_case u fs dir = Inr c \<Longrightarrow> has_truth c"
  by (auto simp: load_case_def has_truth_def split: sum.splits if_splits)

lemma load_each_truth: "load_each u fs dir es = Inr cs \<Longrightarrow> list_all has_truth cs"
  by (induction u fs dir es arbitrary: cs rule: load_each.induct)
    (auto split: fixture.splits sum.splits dest: load_case_truth)

text \<open>
  Every case has a ground truth.  Loading gives at least one case, in the order of the names, and each has a name, a task, a repository
  and a hidden assertion.
\<close>

lemma loaded_cases_have_truth:
  assumes "load_cases u fs dir = Inr cs"
  shows "cs \<noteq> [] \<and> sorted (map bn_name cs) \<and>
    list_all (\<lambda>c. trim_space (bn_name c) \<noteq> [] \<and> trim_space (bn_task c) \<noteq> [] \<and> bn_repo c \<noteq> [] \<and> bn_assert c \<noteq> []) cs"
proof -
  from assms obtain es cs0 where l: "load_each u fs dir es = Inr cs0" "cs0 \<noteq> []" "cs = sort_key bn_name cs0"
    by (auto simp: load_cases_def split: sum.splits if_splits)
  from load_each_truth [OF l(1)] have "list_all has_truth cs" by (simp add: l(3) list_all_iff)
  then show ?thesis using l(2,3) by (auto simp: has_truth_def list_all_iff simp flip: length_greater_0_conv)
qed

definition example_fixture :: fixture where
  "example_fixture =
     Fix_Dir [(''cases'', Fix_Dir [(''add'', Fix_Dir
       [(''assert'', Fix_Dir [(''.keep'', Fix_File []), (''a_test.go'', Fix_File ''package m'')]), (''case.json'', Fix_File ''add''),
        (''repo'', Fix_Dir [(''go.mod.txt'', Fix_File ''module m'')])])])]"

theorem loaded_cases_have_truth_witness:
  "\<exists>cs. load_cases (\<lambda>b. Inr (example_case\<lparr>bn_repo := [], bn_assert := []\<rparr>)) example_fixture ''cases'' = Inr cs \<and>
     cs \<noteq> [] \<and> sorted (map bn_name cs)"
proof -
  have "load_cases (\<lambda>b. Inr (example_case\<lparr>bn_repo := [], bn_assert := []\<rparr>)) example_fixture ''cases'' = Inr [example_case]"
    by code_simp
  from loaded_cases_have_truth [OF this] this show ?thesis by blast
qed

lemma pick_cases_spec:
  "pick_cases cs want = (out, left) \<Longrightarrow> distinct want \<Longrightarrow>
   subseq out cs \<and> distinct (map bn_name out) \<and> set left = set want - bn_name ` set cs \<and>
   bn_name ` set out = set want \<inter> bn_name ` set cs"
proof (induction cs want arbitrary: out left rule: pick_cases.induct)
  case (2 c cs want)
  show ?case
  proof (cases "bn_name c \<in> set want")
    case True
    obtain o' l' where p: "pick_cases cs (removeAll (bn_name c) want) = (o', l')"
      by (cases "pick_cases cs (removeAll (bn_name c) want)")
    with 2(3) True have o: "out = c # o'" "left = l'" by simp_all
    from 2(1) [OF True p] 2(4) have ih: "subseq o' cs \<and> distinct (map bn_name o') \<and>
        set l' = set want - {bn_name c} - bn_name ` set cs \<and> bn_name ` set o' = (set want - {bn_name c}) \<inter> bn_name ` set cs"
      by (simp add: distinct_removeAll)
    then show ?thesis using True o by auto
  next
    case False
    with 2(2) [OF False, of out left] 2(3,4) show ?thesis by auto
  qed
qed simp

text \<open>
  The filter of cases gives exactly the named ones.  It keeps their order, takes each name once, and succeeds exactly when every name
  that is not blank is the name of a case.
\<close>

lemma filter_cases_exact:
  assumes "only \<noteq> []"
  shows "case filter_cases cs only of
      Inr out \<Rightarrow> subseq out cs \<and> distinct (map bn_name out) \<and> bn_name ` set out = trim_space ` set only - {[]}
    | Inl e \<Rightarrow> \<not> trim_space ` set only - {[]} \<subseteq> bn_name ` set cs"
proof -
  let ?want = "remdups (filter (\<lambda>n. n \<noteq> []) (map trim_space only))"
  obtain out left where p: "pick_cases cs ?want = (out, left)" by (cases "pick_cases cs ?want")
  have w: "set ?want = trim_space ` set only - {[]}" by auto
  from pick_cases_spec [OF p distinct_remdups] have
    s: "subseq out cs \<and> distinct (map bn_name out) \<and> set left = set ?want - bn_name ` set cs \<and>
      bn_name ` set out = set ?want \<inter> bn_name ` set cs" .
  show ?thesis
  proof (cases "left = []")
    case True
    have "set left = set ?want - bn_name ` set cs" using s by blast
    then have "set ?want \<subseteq> bn_name ` set cs" unfolding True by (metis Diff_eq_empty_iff list.set(1))
    moreover have "bn_name ` set out = set ?want \<inter> bn_name ` set cs" using s by blast
    ultimately have "bn_name ` set out = trim_space ` set only - {[]}" unfolding w by blast
    with True s p assms show ?thesis by (simp add: filter_cases_def)
  next
    case False
    then have "set ?want - bn_name ` set cs \<noteq> {}" using s by (metis set_empty)
    then have "\<not> trim_space ` set only - {[]} \<subseteq> bn_name ` set cs" using w by blast
    with False p assms show ?thesis by (simp add: filter_cases_def)
  qed
qed

theorem filter_cases_exact_witness:
  "filter_cases [example_case] [''add ''] = Inr [example_case] \<and> distinct (map bn_name [example_case])"
proof -
  have "trim_space ''add '' = ''add''" by code_simp
  then have "filter_cases [example_case] [''add ''] = Inr [example_case]"
    by (simp add: filter_cases_def example_case_def)
  with filter_cases_exact [of "[''add '']" "[example_case]"] show ?thesis by simp
qed

subsection \<open>What the harness never does\<close>

text \<open>The client with another answer to requests to cancel a job.\<close>

definition answer_cancel :: "(http_request \<Rightarrow> 'w \<Rightarrow> 'w \<times> http_response result) \<Rightarrow> 'w http_client \<Rightarrow> 'w http_client" where
  "answer_cancel f c =
     c\<lparr>hc_transport := (hc_transport c)\<lparr>tp_do := (\<lambda>q w.
         if hr_method q = ''POST'' \<and> has_suffix (hr_url q) ''/cancel'' then f q w else tp_do (hc_transport c) q w)\<rparr>\<rparr>"

lemma answer_cancel_simps [simp]:
  "hc_wire (answer_cancel f c) = hc_wire c" "hc_base (answer_cancel f c) = hc_base c"
  "hc_token (answer_cancel f c) = hc_token c" "tp_build (hc_transport (answer_cancel f c)) = tp_build (hc_transport c)"
  "request_headers (answer_cancel f c) = request_headers c"
  by (simp_all add: answer_cancel_def request_headers_def fun_eq_iff)

lemma answer_other:
  "meth \<noteq> ''POST'' \<or> \<not> has_suffix url ''/cancel'' \<Longrightarrow>
   tp_do (hc_transport (answer_cancel f c)) \<lparr>hr_method = meth, hr_url = url, hr_header = h, hr_body = b\<rparr> w =
   tp_do (hc_transport c) \<lparr>hr_method = meth, hr_url = url, hr_header = h, hr_body = b\<rparr> w"
  by (auto simp: answer_cancel_def)

lemma send_other:
  assumes "meth \<noteq> ''POST'' \<or> \<not> has_suffix (hc_base c @ path) ''/cancel''"
  shows "send_request hint (answer_cancel f c) meth path body = send_request hint c meth path body"
  by (simp only: fun_eq_iff send_request_def answer_cancel_simps answer_other [OF assms] simp_thms)

lemma bench_calls_other:
  "bench_create (answer_cancel f c) = bench_create c" "bench_get (answer_cancel f c) = bench_get c"
  "bench_events (answer_cancel f c) = bench_events c" "bench_diff (answer_cancel f c) = bench_diff c"
  "bench_metrics_of (bc\<lparr>bc_http := answer_cancel f (bc_http bc)\<rparr>) = bench_metrics_of bc"
  by (simp_all add: fun_eq_iff bench_create_def bench_get_def bench_events_def bench_diff_def bench_metrics_of_def
    bench_do_def send_other jobs_path_def has_suffix_def has_prefix_def)

lemma wait_loop_other: "wait_loop ctx pause (answer_cancel f c) k j n w = wait_loop ctx pause c k j n w"
  by (induction ctx pause c k j n w rule: wait_loop.induct)
    (simp_all add: bench_calls_other split: prod.splits sum.splits option.splits)

text \<open>
  The harness never cancels a job.  How the server would answer a request to cancel makes no difference to a case, also one
  that is given up at its deadline; its job runs on, and since the token counts are differences of counters of
  the whole server, what it still uses is charged to the cases after it.
\<close>

lemma abandoned_jobs_run_on:
  "run_case (br\<lparr>br_client := (br_client br)\<lparr>bc_http := answer_cancel f (bc_http (br_client br))\<rparr>\<rparr>) fuel ctx c w =
   run_case br fuel ctx c w"
proof -
  let ?br = "br\<lparr>br_client := (br_client br)\<lparr>bc_http := answer_cancel f (bc_http (br_client br))\<rparr>\<rparr>"
  have fields: "br_host ?br = br_host br" "case_timeout ?br = case_timeout br" "poll_interval ?br = poll_interval br"
    "bench_metrics_of (br_client ?br) = bench_metrics_of (br_client br)"
    "bc_http (br_client ?br) = answer_cancel f (bc_http (br_client br))"
    by (simp_all add: case_timeout_def poll_interval_def bench_calls_other)
  have sp: "score_patch ?br = score_patch br"
    by (simp only: fun_eq_iff score_patch_def fields bench_calls_other simp_thms)
  have mc: "measure_case ?br = measure_case br"
    by (simp only: fun_eq_iff measure_case_def fields bench_calls_other sp simp_thms)
  have ri: "run_in ?br = run_in br"
    by (simp only: fun_eq_iff run_in_def fields bench_calls_other mc wait_for_terminal_def wait_loop_other simp_thms)
  show ?thesis by (simp only: run_case_def fields ri)
qed

end
