(* ===== verification/Benchmark_Main.thy ===== *)
theory Benchmark_Main
  imports Benchmark Rojo_Cli
begin

text \<open>
  The report a benchmark prints (\<open>Table\<close> in \<open>internal/benchmark/report.go\<close>) and the command around the harness
  (\<open>cmd/rojo-bench/main.go\<close>), after its flags were parsed.  How \<open>fmt\<close> writes a float with a fixed number of decimals is
  a parameter.
\<close>

subsection \<open>Pieces of the report\<close>

text \<open>\<open>Duration.String\<close> of a number of tenths of a second.\<close>

definition tenths_string :: "nat \<Rightarrow> string" where
  "tenths_string t =
     (if t = 0 then ''0s''
      else if t < 10 then show_nat (100 * t) @ ''ms''
      else let s = t div 10; m = s div 60; h = m div 60; f = t mod 10 in
        (if 0 < h then show_nat h @ ''h'' else []) @
        (if 0 < m then show_nat (m mod 60) @ ''m'' else []) @
        show_nat (s mod 60) @ (if 0 < f then ''.'' @ show_nat f else []) @ ''s'')"

text \<open>\<open>Duration.Round\<close> to a positive unit, ties away from zero, in units.\<close>

definition round_units :: "int \<Rightarrow> int \<Rightarrow> nat" where
  "round_units unit_ns d = nat ((2 * \<bar>d\<bar> + unit_ns) div (2 * unit_ns))"

definition dur :: "int64 \<Rightarrow> string" where
  "dur ms =
     (if sint ms \<le> 0 then ''-''
      else let d = sint (ms * 1000000) in
        (if d < 0 \<and> 0 < round_units 100000000 d then ''-'' else []) @ tenths_string (round_units 100000000 d))"

definition trim_cell :: "string \<Rightarrow> nat \<Rightarrow> string" where
  "trim_cell s n = (if length s \<le> n then s else if n \<le> 1 then take n s else take (n - 1) s @ ellipsis)"

definition int_cell :: "int64 \<Rightarrow> string" where
  "int_cell n = show_int (sint n)"

definition case_row :: "case_result \<Rightarrow> string" where
  "case_row r =
     join_with '' ''
       [pad_right 20 (trim_cell (cr_case r) 20), pad_right 11 (trim_cell (cr_difficulty r) 11),
        pad_right 10 (trim_cell (if cr_error r \<noteq> [] then ''harness-err'' else cr_status r) 10),
        pad_right 9 (yes_no (cr_pipeline r)), pad_right 7 (truth_label r),
        pad_right 6 (show_nat (cr_revisions r)), pad_right 7 (dur (cr_duration_ms r)),
        pad_right 8 (int_cell (cr_input_tokens r + cr_output_tokens r))] @ nl"

definition rate_line :: "(nat \<Rightarrow> float64 \<Rightarrow> string) \<Rightarrow> string \<Rightarrow> float64 \<Rightarrow> nat \<Rightarrow> nat \<Rightarrow> string \<Rightarrow> string" where
  "rate_line fm name rate n d note =
     name @ fm 1 (fl_mul rate (Fin 100)) @ ''%  ('' @ show_nat n @ ''/'' @ show_nat d @ '')'' @ note @ nl"

definition cost_line :: "(nat \<Rightarrow> float64 \<Rightarrow> string) \<Rightarrow> bench_summary \<Rightarrow> string" where
  "cost_line fm s =
     (case (bs_cost s, bs_mean_cost s) of
        (Some c, Some m) \<Rightarrow> ''  cost                   $'' @ fm 4 c @ '' total   $'' @ fm 4 m @ '' per case'' @ nl
      | _ \<Rightarrow> ''  cost                   not computed (pass -price-in and -price-out)'' @ nl)"

definition stale_warning :: "bench_summary \<Rightarrow> string" where
  "stale_warning s =
     (if stale_server_tokens s
      then nl @ ''  WARNING: the server reported '' @ int_cell (bs_model_calls s) @ '' model calls but zero tokens.'' @ nl @
        ''           It predates token accounting '' @ em_dash @ '' rebuild it (`make build`) and re-run.'' @ nl @
        ''           Token and cost figures above are missing, not zero.'' @ nl
      else [])"

definition sample_note :: "(nat \<Rightarrow> float64 \<Rightarrow> string) \<Rightarrow> bench_summary \<Rightarrow> string" where
  "sample_note fm s =
     (if 0 < bs_measured s \<and> bs_measured s < 20
      then nl @ ''  NOTE: '' @ show_nat (bs_measured s) @
        '' cases is a small sample. p95 is the nearest observed value,'' @ nl @
        ''        not an estimate, and a single case moves every rate by '' @
        fm 1 (fl_div (Fin 100) (fl_of_int (int (bs_measured s)))) @ '' points.'' @ nl
      else [])"

definition report_table :: "(nat \<Rightarrow> float64 \<Rightarrow> string) \<Rightarrow> bench_summary \<Rightarrow> string" where
  "report_table fm s =
     nl @ ''PER-CASE'' @ nl @
     ''case                 difficulty  status     pipeline  truth   revs   dur     tokens'' @ nl @
     ''-------------------- ----------- ---------- --------- ------- ------ ------- --------'' @ nl @
     concat (map case_row (bs_results s)) @
     nl @ ''SUMMARY'' @ nl @
     ''  cases                  '' @ show_nat (bs_measured s) @ '' measured'' @
     (if 0 < bs_harness_errors s
      then ''  ('' @ show_nat (bs_harness_errors s) @ '' harness errors, excluded from rates)'' else []) @ nl @
     rate_line fm ''  task success           '' (bs_task_rate s) (bs_task s) (bs_measured s)
       ''   <- ground truth: hidden assertion passed'' @
     rate_line fm ''  pipeline success       '' (bs_pipeline_rate s) (bs_pipeline s) (bs_measured s)
       ''   <- the job reported completed'' @
     rate_line fm ''  false success          '' (bs_false_rate s) (bs_false s) (bs_measured s)
       ''   <- claimed success, task NOT done'' @
     rate_line fm ''  needed a revision      '' (bs_revision_rate s) (bs_revised s) (bs_measured s) [] @
     ''  duration               p50 '' @ dur (pc_p50 (bs_duration s)) @ ''   p95 '' @ dur (pc_p95 (bs_duration s)) @
     ''   max '' @ dur (pc_max (bs_duration s)) @ ''   mean '' @ dur (pc_mean (bs_duration s)) @ nl @
     ''  model calls            '' @ int_cell (bs_model_calls s) @ ''  ('' @ int_cell (bs_model_errors s) @ '' errors)'' @ nl @
     ''  tokens                 '' @ int_cell (bs_input_tokens s) @ '' in / '' @ int_cell (bs_output_tokens s) @ '' out / '' @
     int_cell (bs_total_tokens s) @ '' total  (mean '' @ int_cell (bs_mean_tokens s) @ '' per case)'' @ nl @
     cost_line fm s @ stale_warning s @ sample_note fm s"

subsection \<open>The command\<close>

record bench_options =
  bo_server :: string
  bo_only :: string
  bo_list :: bool
  bo_json :: string
  bo_prices :: prices

text \<open>\<open>json.MarshalIndent\<close> and the file; each may fail.\<close>

record 'w report_file =
  rf_encode :: "bench_summary \<Rightarrow> string result"
  rf_write :: "string \<Rightarrow> string \<Rightarrow> 'w \<Rightarrow> 'w \<times> go_err option"

definition first_line :: "string \<Rightarrow> string" where
  "first_line s0 =
     (let s = (case index_byte s0 (CHR 0x0A) of None \<Rightarrow> s0 | Some i \<Rightarrow> take i s0) in
      if 70 < length s then take 69 s @ ellipsis else s)"

definition listing_of :: "bench_case list \<Rightarrow> string" where
  "listing_of cs =
     show_nat (length cs) @ '' cases:'' @ nl @
     concat (map (\<lambda>c. ''  '' @ pad_right 20 (bn_name c) @ '' '' @ pad_right 8 (bn_difficulty c) @ '' '' @
       first_line (bn_task c) @ nl) cs)"

text \<open>An end of the command: what it wrote to its two outputs and its exit code.\<close>

record bench_end =
  be_out :: string
  be_err :: string
  be_code :: int

definition bench_fail :: "string \<Rightarrow> string \<Rightarrow> bench_end" where
  "bench_fail out msg = \<lparr>be_out = out, be_err = msg @ nl, be_code = 1\<rparr>"

text \<open>After the last case: the table, the report file and the exit code.\<close>

definition finish_bench ::
    "(nat \<Rightarrow> float64 \<Rightarrow> string) \<Rightarrow> 'w report_file \<Rightarrow> bench_options \<Rightarrow> duration \<Rightarrow> bench_summary \<Rightarrow> 'w \<Rightarrow> 'w \<times> bench_end" where
  "finish_bench fm rf opts took s w =
     (let out = report_table fm s @ nl @ ''  wall clock             '' @ tenths_string (10 * round_units second took) @ nl;
          done_with = (\<lambda>out. \<lparr>be_out = out,
            be_err = (if 0 < bs_false s
              then nl @ show_nat (bs_false s) @ '' case(s) reported success without doing the task'' @ nl else []),
            be_code = bench_exit s\<rparr>) in
      if bo_json opts = [] then (w, done_with out)
      else case rf_encode rf s of
        Inl e \<Rightarrow> (w, bench_fail out (''encode report: '' @ err_text e))
      | Inr b \<Rightarrow> (case rf_write rf (bo_json opts) (b @ nl) w of
            (w1, Some e) \<Rightarrow> (w1, bench_fail out (''write '' @ bo_json opts @ '': '' @ err_text e))
          | (w1, None) \<Rightarrow> (w1, done_with (out @ ''  report                 '' @ bo_json opts @ nl))))"

definition chosen_cases :: "bench_options \<Rightarrow> bench_case list \<Rightarrow> bench_case list result" where
  "chosen_cases opts cs = (if bo_only opts = [] then Inr cs else filter_cases cs (split_on (CHR '','') (bo_only opts)))"

text \<open>The progress lines on the error output are left out; \<open>None\<close> is a wait that outlasted its fuel.\<close>

definition bench_main ::
    "(nat \<Rightarrow> float64 \<Rightarrow> string) \<Rightarrow> 'w report_file \<Rightarrow> 'w bench_runner \<Rightarrow> nat \<Rightarrow> 'w ctx \<Rightarrow> bench_options \<Rightarrow>
     bench_case list result \<Rightarrow> 'w \<Rightarrow> ('w \<times> bench_end) option" where
  "bench_main fm rf br fuel ctx opts loaded w =
     (case loaded of
        Inl e \<Rightarrow> Some (w, bench_fail [] (''load cases: '' @ err_text e))
      | Inr cs0 \<Rightarrow> (case chosen_cases opts cs0 of
            Inl e \<Rightarrow> Some (w, bench_fail [] (err_text e))
          | Inr cs \<Rightarrow>
              if bo_list opts then Some (w, \<lparr>be_out = listing_of cs, be_err = [], be_code = 0\<rparr>)
              else (case bench_health (br_client br) w of
                (w1, Some e) \<Rightarrow> Some (w1, bench_fail [] (''no rojo server at '' @ bo_server opts @ '': '' @ err_text e @
                  nl @ nl @ ''Start one with:  bin/rojo-api''))
              | (w1, None) \<Rightarrow>
                  map_option (\<lambda>(w2, rs). finish_bench fm rf opts (ho_clock (br_host br) w2 - ho_clock (br_host br) w1)
                    (summarize_results rs (bo_prices opts)) w2) (run_cases br fuel ctx cs w1))))"

subsection \<open>What its end says\<close>

lemma finish_bench_zero:
  "be_code (snd (finish_bench fm rf opts took s w)) = 0 \<Longrightarrow> bench_exit s = 0"
  by (auto simp: finish_bench_def Let_def bench_fail_def split: if_splits sum.splits prod.splits option.splits)

text \<open>
  A run that ends with 0 measured every case it started, and no job of it claimed a success it did not have.
\<close>

lemma bench_zero_is_honest:
  assumes "bench_main fm rf br fuel ctx opts (Inr cs0) w = Some (w', e)" and "be_code e = 0" and "\<not> bo_list opts"
  shows "\<exists>cs w1 w2 rs. chosen_cases opts cs0 = Inr cs \<and> run_cases br fuel ctx cs w1 = Some (w2, rs) \<and>
    list_all (\<lambda>r. cr_error r = [] \<and> (cr_pipeline r \<longrightarrow> cr_task r)) rs"
proof -
  from assms obtain cs where cs: "chosen_cases opts cs0 = Inr cs"
    by (cases "chosen_cases opts cs0") (auto simp: bench_main_def bench_fail_def)
  obtain w1 eo where h: "bench_health (br_client br) w = (w1, eo)" by (cases "bench_health (br_client br) w")
  with assms cs have eo: "eo = None" by (cases eo) (auto simp: bench_main_def bench_fail_def)
  from assms cs h eo obtain w2 rs where r: "run_cases br fuel ctx cs w1 = Some (w2, rs)"
    by (auto simp: bench_main_def)
  with assms cs h eo have "bench_exit (summarize_results rs (bo_prices opts)) = 0"
    by (auto simp: bench_main_def dest!: arg_cong [of _ _ snd] intro: finish_bench_zero)
  with cs r show ?thesis unfolding exit_zero_means_honest by (auto simp: false_success_def)
qed

text \<open>A cell is never wider than its column, in bytes it keeps.\<close>

lemma trim_cell_bound: "1 \<le> n \<Longrightarrow> length (trim_cell s n) \<le> n + 2"
  by (auto simp: trim_cell_def ellipsis_def)

lemma dur_example: "dur 83450 = ''1m23.5s''" "dur 3600000 = ''1h0m0s''" "dur 340 = ''300ms''" "dur 20 = ''0s''" "dur 0 = ''-''"
proof -
  have n: "show_nat 0 = ''0''" "show_nat 1 = ''1''" "show_nat 5 = ''5''" "show_nat 23 = ''23''" "show_nat 300 = ''300''"
    by code_simp+
  show "dur 83450 = ''1m23.5s''" "dur 3600000 = ''1h0m0s''" "dur 340 = ''300ms''" "dur 20 = ''0s''" "dur 0 = ''-''"
    using n by (simp_all add: dur_def round_units_def tenths_string_def)
qed

end
